(* ===== verification/Prelude.thy ===== *)
theory Prelude
  imports Main "HOL-Library.Word" "HOL-Library.Monad_Syntax" "HOL-Library.Code_Target_Nat"
begin

text \<open>
  Shared vocabulary of the development: Rust's integer types and the arithmetic the
  crate uses on them, the order of byte slices, little-endian encodings and decimal
  formatting, with the lemmas the component theories need about them.

  Rust's \<open>+\<close>, \<open>-\<close> and \<open>*\<close> panic on overflow in a debug build and wrap in a release
  build (\<open>Cargo.toml\<close> sets no profile of its own). The operators below take the build
  as an argument, and a panic is the value \<open>None\<close> of the option monad, so that every
  function that can panic has an option type and its theorems hold for both builds
  unless they name one.
\<close>

unbundle bit_operations_syntax

type_synonym u8 = "8 word"
type_synonym u16 = "16 word"
type_synonym u32 = "32 word"
type_synonym u64 = "64 word"
type_synonym u128 = "128 word"
type_synonym bytes = "u8 list"

datatype build = Debug | Release

named_theorems checked_arith \<open>definitions of the checked operators\<close>
named_theorems exact_arith \<open>when a checked or saturating operator is exact\<close>

section \<open>Checked and saturating arithmetic\<close>

definition add_w :: "build \<Rightarrow> 'a::len word \<Rightarrow> 'a word \<Rightarrow> 'a word option" where
  "add_w b x y =
     (if b = Debug \<and> 2 ^ LENGTH('a) \<le> unat x + unat y then None else Some (x + y))"

definition sub_w :: "build \<Rightarrow> 'a::len word \<Rightarrow> 'a word \<Rightarrow> 'a word option" where
  "sub_w b x y = (if b = Debug \<and> unat x < unat y then None else Some (x - y))"

definition mul_w :: "build \<Rightarrow> 'a::len word \<Rightarrow> 'a word \<Rightarrow> 'a word option" where
  "mul_w b x y =
     (if b = Debug \<and> 2 ^ LENGTH('a) \<le> unat x * unat y then None else Some (x * y))"

text \<open>Division and remainder by zero panic in every build.\<close>

definition div_w :: "'a::len word \<Rightarrow> 'a word \<Rightarrow> 'a word option" where
  "div_w x y = (if y = 0 then None else Some (x div y))"

text \<open>\<open>Iterator::sum\<close> adds from zero with \<open>+\<close>, so it panics or wraps as \<open>+\<close> does.\<close>

fun sum_from_w :: "build \<Rightarrow> 'a::len word \<Rightarrow> 'a word list \<Rightarrow> 'a word option" where
  "sum_from_w b acc [] = Some acc"
| "sum_from_w b acc (x # xs) = do { acc' \<leftarrow> add_w b acc x; sum_from_w b acc' xs }"

definition sum_w :: "build \<Rightarrow> 'a::len word list \<Rightarrow> 'a word option" where
  "sum_w b xs = sum_from_w b 0 xs"

definition sat_add :: "'a::len word \<Rightarrow> 'a word \<Rightarrow> 'a word" where
  "sat_add x y = (if 2 ^ LENGTH('a) \<le> unat x + unat y then - 1 else x + y)"

definition sat_sub :: "'a::len word \<Rightarrow> 'a word \<Rightarrow> 'a word" where
  "sat_sub x y = (if unat x < unat y then 0 else x - y)"

definition sat_mul :: "'a::len word \<Rightarrow> 'a word \<Rightarrow> 'a word" where
  "sat_mul x y = (if 2 ^ LENGTH('a) \<le> unat x * unat y then - 1 else x * y)"

text \<open>\<open>u64::is_multiple_of\<close>: only zero is a multiple of zero.\<close>

definition is_multiple_of :: "'a::len word \<Rightarrow> 'a word \<Rightarrow> bool" where
  "is_multiple_of x y \<longleftrightarrow> (if y = 0 then x = 0 else x mod y = 0)"

declare add_w_def [checked_arith] sub_w_def [checked_arith] mul_w_def [checked_arith]
  div_w_def [checked_arith]

lemma unat_max_word: "unat (- 1 :: 'a::len word) = 2 ^ LENGTH('a) - 1"
  by (simp add: unsigned_minus_1_eq_mask mask_eq_exp_minus_1)

lemma unat_lt_pow: "unat (x :: 'a::len word) < 2 ^ LENGTH('a)"
  by (rule unsigned_less)

lemma unat_add_exact:
  "unat x + unat y < 2 ^ LENGTH('a) \<Longrightarrow> unat (x + y :: 'a::len word) = unat x + unat y"
  by (simp add: unat_word_ariths)

lemma unat_mul_exact:
  "unat x * unat y < 2 ^ LENGTH('a) \<Longrightarrow> unat (x * y :: 'a::len word) = unat x * unat y"
  by (simp add: unat_word_ariths)

lemma unat_sub_exact:
  "unat y \<le> unat x \<Longrightarrow> unat (x - y :: 'a::len word) = unat x - unat y"
  by (simp add: unat_sub_if')

lemma unat_ucast_mod: "unat (ucast (w :: 'b::len word) :: 'a::len word) = unat w mod 2 ^ LENGTH('a)"
  by (simp add: unsigned_ucast_eq unsigned_take_bit_eq take_bit_eq_mod)

lemma unat_pow2: "n < LENGTH('a) \<Longrightarrow> unat (2 ^ n :: 'a::len word) = 2 ^ n"
  using unat_of_nat [of "2 ^ n", where 'a = 'a] by simp

lemma add_w_exact [exact_arith]:
  "unat x + unat y < 2 ^ LENGTH('a) \<Longrightarrow> add_w b x (y :: 'a::len word) = Some (x + y)"
  by (simp add: add_w_def)

lemma sub_w_exact [exact_arith]:
  "unat y \<le> unat x \<Longrightarrow> sub_w b x (y :: 'a::len word) = Some (x - y)"
  by (simp add: sub_w_def)

lemma mul_w_exact [exact_arith]:
  "unat x * unat y < 2 ^ LENGTH('a) \<Longrightarrow> mul_w b x (y :: 'a::len word) = Some (x * y)"
  by (simp add: mul_w_def)

lemma div_w_exact [exact_arith]: "y \<noteq> 0 \<Longrightarrow> div_w x y = Some (x div y)"
  by (simp add: div_w_def)

lemma add_w_Release [simp]: "add_w Release x y = Some (x + y)"
  by (simp add: add_w_def)

lemma sub_w_Release [simp]: "sub_w Release x y = Some (x - y)"
  by (simp add: sub_w_def)

lemma mul_w_Release [simp]: "mul_w Release x y = Some (x * y)"
  by (simp add: mul_w_def)

lemma add_w_Some: "add_w b x y = Some z \<Longrightarrow> z = x + y"
  by (simp add: add_w_def split: if_splits)

lemma sub_w_Some: "sub_w b x y = Some z \<Longrightarrow> z = x - y"
  by (simp add: sub_w_def split: if_splits)

lemma mul_w_Some: "mul_w b x y = Some z \<Longrightarrow> z = x * y"
  by (simp add: mul_w_def split: if_splits)

lemma div_w_Some: "div_w x y = Some z \<Longrightarrow> y \<noteq> 0 \<and> z = x div y"
  by (simp add: div_w_def split: if_splits)

lemma add_w_Debug_Some:
  "add_w Debug x y = Some z \<Longrightarrow> unat z = unat x + unat (y :: 'a::len word)"
  by (auto simp: add_w_def unat_add_exact not_le split: if_splits)

lemma sub_w_Debug_Some:
  "sub_w Debug x y = Some z \<Longrightarrow> unat y \<le> unat x \<and> unat z = unat x - unat (y :: 'a::len word)"
  by (auto simp: sub_w_def unat_sub_exact not_less split: if_splits)

lemma unat_sat_add:
  "unat (sat_add x y :: 'a::len word) = min (unat x + unat y) (2 ^ LENGTH('a) - 1)"
  by (auto simp: sat_add_def unat_add_exact unat_max_word not_le min_def)

lemma unat_sat_sub: "unat (sat_sub x y :: 'a::len word) = unat x - unat y"
  by (auto simp: sat_sub_def unat_sub_exact not_less)

lemma unat_sat_mul:
  "unat (sat_mul x y :: 'a::len word) = min (unat x * unat y) (2 ^ LENGTH('a) - 1)"
  using unat_mul_exact [of x y] by (cases "unat x * unat y < 2 ^ LENGTH('a)") (auto simp: sat_mul_def unat_max_word)

lemma sat_add_exact [exact_arith]:
  "unat x + unat y < 2 ^ LENGTH('a) \<Longrightarrow> sat_add x (y :: 'a::len word) = x + y"
  by (simp add: sat_add_def)

lemma sum_from_w_exact:
  "unat acc + sum_list (map unat xs) < 2 ^ LENGTH('a) \<Longrightarrow>
   \<exists>s. sum_from_w b acc (xs :: 'a::len word list) = Some s \<and>
       unat s = unat acc + sum_list (map unat xs)"
proof (induction xs arbitrary: acc)
  case Nil
  then show ?case by simp
next
  case (Cons x xs)
  then have "unat acc + unat x < 2 ^ LENGTH('a)" by simp
  then have "add_w b acc x = Some (acc + x)" and "unat (acc + x) = unat acc + unat x"
    by (simp_all add: add_w_exact unat_add_exact)
  with Cons.IH [of "acc + x"] Cons.prems show ?case by (simp add: add.assoc)
qed

lemma sum_w_exact:
  "sum_list (map unat xs) < 2 ^ LENGTH('a) \<Longrightarrow>
   \<exists>s. sum_w b (xs :: 'a::len word list) = Some s \<and> unat s = sum_list (map unat xs)"
  using sum_from_w_exact [of 0 xs b] by (simp add: sum_w_def)

section \<open>Byte slices and big-endian values\<close>

text \<open>
  \<open>slice_le\<close> is Rust's order on slices: lexicographic, a proper prefix before its
  extensions. \<open>be_nat\<close> is the number a slice denotes in big-endian order; on slices of
  one length the two orders agree, which is what the code's comments rely on.
\<close>

fun slice_le :: "'a::linorder list \<Rightarrow> 'a list \<Rightarrow> bool" where
  "slice_le [] ys = True"
| "slice_le (x # xs) [] = False"
| "slice_le (x # xs) (y # ys) = (x < y \<or> x = y \<and> slice_le xs ys)"

fun be_nat :: "bytes \<Rightarrow> nat" where
  "be_nat [] = 0"
| "be_nat (x # xs) = unat x * 256 ^ length xs + be_nat xs"

lemma unat_u8_lt [simp]: "unat (x :: u8) < 256"
  using unat_lt_pow [of x] by simp

lemma be_nat_lt: "be_nat xs < 256 ^ length xs"
proof (induction xs)
  case Nil
  then show ?case by simp
next
  case (Cons x xs)
  have "be_nat (x # xs) < (unat x + 1) * 256 ^ length xs" using Cons.IH by simp
  also have "\<dots> \<le> 256 * 256 ^ length xs"
    using unat_u8_lt [of x] by (intro mult_right_mono) (simp_all del: unat_u8_lt)
  finally show ?case by simp
qed

lemma be_nat_append: "be_nat (xs @ ys) = be_nat xs * 256 ^ length ys + be_nat ys"
  by (induction xs) (simp_all add: power_add algebra_simps)

lemma be_nat_zeros: "be_nat (replicate n 0) = 0"
  by (induction n) simp_all

lemma be_nat_ones: "be_nat (replicate n 255) = 256 ^ n - 1"
proof (induction n)
  case 0
  then show ?case by simp
next
  case (Suc n)
  have "be_nat (replicate (Suc n) 255) = 255 * 256 ^ n + (256 ^ n - 1)" using Suc by simp
  moreover have "(1::nat) \<le> 256 ^ n" by simp
  ultimately show ?case by (simp only: power_Suc)
qed

lemma be_nat_Cons_less:
  assumes "length xs = length ys" and "x < y"
  shows "be_nat (x # xs) < be_nat (y # ys)"
proof -
  have "be_nat (x # xs) < (unat x + 1) * 256 ^ length xs" using be_nat_lt [of xs] by simp
  also have "\<dots> \<le> unat y * 256 ^ length ys"
    using assms by (intro mult_mono) (auto simp: word_less_nat_alt)
  finally show ?thesis by simp
qed

lemma slice_le_be_nat:
  "length xs = length ys \<Longrightarrow> slice_le xs ys \<longleftrightarrow> be_nat xs \<le> be_nat ys"
proof (induction xs ys rule: slice_le.induct)
  case (3 x xs y ys)
  then have len: "length xs = length ys" by simp
  consider "x < y" | "x = y" | "y < x" by fastforce
  then show ?case
  proof cases
    case 1
    with be_nat_Cons_less [OF len 1] show ?thesis by (simp add: less_imp_le)
  next
    case 2
    with "3.IH" len show ?thesis by simp
  next
    case 3
    with be_nat_Cons_less [OF len [symmetric] 3] show ?thesis by auto
  qed
qed auto

lemma slice_le_refl [simp]: "slice_le xs xs"
  by (induction xs) auto

lemma slice_le_trans: "slice_le xs ys \<Longrightarrow> slice_le ys zs \<Longrightarrow> slice_le xs zs"
proof (induction xs ys arbitrary: zs rule: slice_le.induct)
  case (3 x xs y ys)
  then show ?case by (cases zs) auto
qed auto

lemma slice_le_total: "slice_le xs ys \<or> slice_le ys xs"
  by (induction xs ys rule: slice_le.induct) auto

lemma slice_le_antisym: "slice_le xs ys \<Longrightarrow> slice_le ys xs \<Longrightarrow> xs = ys"
proof (induction xs ys rule: slice_le.induct)
  case (1 ys)
  then show ?case by (cases ys) auto
qed auto

section \<open>Little-endian encodings\<close>

text \<open>\<open>to_le_bytes\<close> and \<open>from_le_bytes\<close> of an integer of \<open>n\<close> bytes.\<close>

fun le_bytes_nat :: "nat \<Rightarrow> nat \<Rightarrow> bytes" where
  "le_bytes_nat 0 v = []"
| "le_bytes_nat (Suc n) v = of_nat (v mod 256) # le_bytes_nat n (v div 256)"

fun le_nat :: "bytes \<Rightarrow> nat" where
  "le_nat [] = 0"
| "le_nat (x # xs) = unat x + 256 * le_nat xs"

definition to_le_bytes :: "'a::len word \<Rightarrow> bytes" where
  "to_le_bytes w = le_bytes_nat (LENGTH('a) div 8) (unat w)"

definition from_le_bytes :: "bytes \<Rightarrow> 'a::len word" where
  "from_le_bytes bs = of_nat (le_nat bs)"

lemma length_le_bytes_nat [simp]: "length (le_bytes_nat n v) = n"
  by (induction n arbitrary: v) simp_all

lemma length_to_le_bytes [simp]: "length (to_le_bytes (w :: 'a::len word)) = LENGTH('a) div 8"
  by (simp add: to_le_bytes_def)

lemma le_nat_le_bytes: "le_nat (le_bytes_nat n v) = v mod 256 ^ n"
proof (induction n arbitrary: v)
  case 0
  then show ?case by simp
next
  case (Suc n)
  have "unat (of_nat (v mod 256) :: u8) = v mod 256"
    by (simp add: unat_of_nat)
  with Suc [of "v div 256"] show ?case by (simp add: mod_mult2_eq)
qed

lemma le_nat_lt: "le_nat xs < 256 ^ length xs"
proof (induction xs)
  case (Cons x xs)
  have "le_nat (x # xs) < 256 * (le_nat xs + 1)" using unat_u8_lt [of x] by simp
  also have "\<dots> \<le> 256 * 256 ^ length xs" using Cons by (intro mult_left_mono) auto
  finally show ?case by simp
qed simp

lemma le_bytes_le_nat: "le_bytes_nat (length xs) (le_nat xs) = xs"
  by (induction xs) simp_all

lemma from_to_le_bytes:
  assumes "8 dvd LENGTH('a::len)"
  shows "from_le_bytes (to_le_bytes w) = (w :: 'a word)"
proof -
  have "(256 :: nat) ^ (LENGTH('a) div 8) = 2 ^ (8 * (LENGTH('a) div 8))"
    by (simp add: power_mult)
  also have "\<dots> = 2 ^ LENGTH('a)" using assms by simp
  finally have "le_nat (to_le_bytes w) = unat w"
    by (simp add: to_le_bytes_def le_nat_le_bytes unat_lt_pow)
  then show ?thesis by (simp add: from_le_bytes_def)
qed

lemma to_from_le_bytes:
  assumes "length bs = LENGTH('a::len) div 8" and "8 dvd LENGTH('a)"
  shows "to_le_bytes (from_le_bytes bs :: 'a word) = bs"
proof -
  have "(256 :: nat) ^ length bs = 2 ^ (8 * (LENGTH('a) div 8))"
    by (simp add: power_mult assms(1))
  also have "\<dots> = 2 ^ LENGTH('a)" using assms(2) by simp
  finally have "le_nat bs < 2 ^ LENGTH('a)" using le_nat_lt [of bs] by simp
  then show ?thesis
    by (simp add: to_le_bytes_def from_le_bytes_def unat_of_nat le_bytes_le_nat flip: assms(1))
qed

lemma to_le_bytes_inject:
  "8 dvd LENGTH('a::len) \<Longrightarrow> to_le_bytes v = to_le_bytes w \<longleftrightarrow> v = (w :: 'a word)"
  by (metis from_to_le_bytes)

section \<open>Lists\<close>

text \<open>\<open>&bs[from..to]\<close>, for bounds within the slice.\<close>

definition slice :: "nat \<Rightarrow> nat \<Rightarrow> 'a list \<Rightarrow> 'a list" where
  "slice from to bs = take (to - from) (drop from bs)"

lemma length_slice: "to \<le> length bs \<Longrightarrow> length (slice from to bs) = to - from"
  by (auto simp: slice_def)

text \<open>\<open>Vec::remove\<close> at the first position where a predicate holds.\<close>

fun remove1_by :: "('a \<Rightarrow> bool) \<Rightarrow> 'a list \<Rightarrow> 'a list" where
  "remove1_by P [] = []"
| "remove1_by P (x # xs) = (if P x then xs else x # remove1_by P xs)"

section \<open>Integer logarithm and leading zeros\<close>

text \<open>\<open>ilog2\<close> is Rust's, on positive arguments; the code guards the others.\<close>

fun ilog2 :: "nat \<Rightarrow> nat" where
  "ilog2 n = (if n < 2 then 0 else Suc (ilog2 (n div 2)))"

declare ilog2.simps [simp del]

lemma ilog2_numeral [simp]:
  "ilog2 0 = 0"
  "ilog2 1 = 0"
  "ilog2 (Suc 0) = 0"
  "ilog2 (numeral (Num.Bit0 n)) = Suc (ilog2 (numeral n))"
  "ilog2 (numeral (Num.Bit1 n)) = Suc (ilog2 (numeral n))"
  by (simp_all add: ilog2.simps [of 0] ilog2.simps [of "Suc 0"] ilog2.simps [of "numeral (num.Bit0 n)"]
      ilog2.simps [of "numeral (num.Bit1 n)"])

lemma ilog2_bounds: "0 < n \<Longrightarrow> 2 ^ ilog2 n \<le> n \<and> n < 2 ^ Suc (ilog2 n)"
proof (induction n rule: ilog2.induct)
  case (1 n)
  show ?case
  proof (cases "n < 2")
    case True
    with 1 show ?thesis by (simp add: ilog2.simps [of n])
  next
    case False
    with 1 have "2 ^ ilog2 (n div 2) \<le> n div 2 \<and> n div 2 < 2 ^ Suc (ilog2 (n div 2))" by simp
    with False show ?thesis by (auto simp: ilog2.simps [of n])
  qed
qed

lemma ilog2_unique: "2 ^ k \<le> n \<Longrightarrow> n < 2 ^ Suc k \<Longrightarrow> ilog2 n = k"
proof -
  assume a: "2 ^ k \<le> n" "n < 2 ^ Suc k"
  then have "0 < n" by (metis gr0I not_one_le_zero one_le_power one_le_numeral order_trans)
  with ilog2_bounds have b: "2 ^ ilog2 n \<le> n" "n < 2 ^ Suc (ilog2 n)" by auto
  from a b have "(2::nat) ^ k < 2 ^ Suc (ilog2 n)" "(2::nat) ^ ilog2 n < 2 ^ Suc k" by linarith+
  then have "k < Suc (ilog2 n)" "ilog2 n < Suc k"
    by (metis power_less_imp_less_exp one_less_numeral_iff semiring_norm(76))+
  then show ?thesis by simp
qed

lemma ilog2_less: "0 < n \<Longrightarrow> n < 2 ^ k \<Longrightarrow> ilog2 n < k"
proof -
  assume "0 < n" "n < 2 ^ k"
  then have "(2::nat) ^ ilog2 n < 2 ^ k" using ilog2_bounds [of n] by linarith
  then show ?thesis by simp
qed

lemma ilog2_mono: "m \<le> n \<Longrightarrow> ilog2 m \<le> ilog2 n"
proof (cases "m = 0")
  case False
  assume "m \<le> n"
  with False ilog2_bounds [of m] ilog2_bounds [of n] have "(2::nat) ^ ilog2 m < 2 ^ Suc (ilog2 n)"
    by linarith
  then have "ilog2 m < Suc (ilog2 n)"
    by (metis power_less_imp_less_exp one_less_numeral_iff semiring_norm(76))
  then show ?thesis by simp
qed (simp add: ilog2.simps)

lemma ilog2_ge: "2 ^ k \<le> n \<Longrightarrow> k \<le> ilog2 n"
  using ilog2_mono [of "2 ^ k" n] ilog2_unique [of k "2 ^ k"] by simp

text \<open>\<open>u8::leading_zeros\<close>, and the leading zero bits of a big-endian slice.\<close>

definition lz8 :: "u8 \<Rightarrow> nat" where
  "lz8 x = (if x = 0 then 8 else 7 - ilog2 (unat x))"

section \<open>Formatting\<close>

text \<open>\<open>format!("{}", n)\<close> of an unsigned integer.\<close>

definition digit_char :: "nat \<Rightarrow> char" where
  "digit_char d = char_of (48 + d)"

fun fmt_nat :: "nat \<Rightarrow> string" where
  "fmt_nat n = (if n < 10 then [digit_char n] else fmt_nat (n div 10) @ [digit_char (n mod 10)])"

declare fmt_nat.simps [simp del]

definition fmt_w :: "'a::len word \<Rightarrow> string" where
  "fmt_w w = fmt_nat (unat w)"

text \<open>Reading the decimal digits back.\<close>

definition undec :: "string \<Rightarrow> nat" where
  "undec s = foldl (\<lambda>a c. 10 * a + (of_char c - 48)) 0 s"

lemma digit_char_inv: "d < 10 \<Longrightarrow> of_char (digit_char d) - 48 = d"
  by (simp add: digit_char_def)

lemma undec_fmt_nat: "undec (fmt_nat n) = n"
proof (induction n rule: fmt_nat.induct)
  case (1 n)
  show ?case
  proof (cases "n < 10")
    case True
    then show ?thesis by (simp add: fmt_nat.simps [of n] undec_def digit_char_inv)
  next
    case False
    with 1 have "undec (fmt_nat (n div 10)) = n div 10" by simp
    with False show ?thesis
      by (subst fmt_nat.simps) (simp add: undec_def digit_char_inv)
  qed
qed

lemma fmt_nat_inject: "fmt_nat m = fmt_nat n \<longleftrightarrow> m = n"
  by (metis undec_fmt_nat)

lemma fmt_w_inject: "fmt_w v = fmt_w w \<longleftrightarrow> v = (w :: 'a::len word)"
  by (simp add: fmt_w_def fmt_nat_inject word_unat_eq_iff)

lemma digit_char_digit: "d < 10 \<Longrightarrow> digit_char d \<in> set ''0123456789''"
proof -
  assume "d < 10"
  then have "d \<in> {0, 1, 2, 3, 4, 5, 6, 7, 8, 9}" by auto
  then show ?thesis by (elim insertE) (auto simp: digit_char_def char_of_def bit_Suc_0_iff)
qed

lemma set_fmt_nat: "set (fmt_nat n) \<subseteq> set ''0123456789''"
proof (induction n rule: fmt_nat.induct)
  case (1 n)
  have last: "digit_char (n mod 10) \<in> set ''0123456789''" by (rule digit_char_digit) simp
  show ?case
  proof (cases "n < 10")
    case True
    then have "set (fmt_nat n) = {digit_char n}" by (simp add: fmt_nat.simps [of n])
    with digit_char_digit [OF True] show ?thesis by (metis empty_subsetI insert_subset)
  next
    case False
    then have "set (fmt_nat n) = set (fmt_nat (n div 10)) \<union> {digit_char (n mod 10)}"
      by (simp add: fmt_nat.simps [of n])
    with 1 [OF False] last show ?thesis by (metis Un_least empty_subsetI insert_subset)
  qed
qed

end
