(* ===== verification/Float64.thy ===== *)
theory Float64
  imports Complex_Main Prelude
begin

text \<open>
  Rust's \<open>f64\<close>, for the operations the crate uses: conversion from unsigned integers,
  \<open>+\<close>, \<open>-\<close>, \<open>*\<close>, \<open>/\<close>, \<open>max\<close>, \<open>min\<close>, \<open>clamp\<close>, \<open>ceil\<close>, \<open>floor\<close> and the saturating
  \<open>as\<close> conversion back. A finite value is the rational number it denotes, and every
  operation rounds its exact result to 53 significant bits, ties to even (\<open>rne\<close>).

  Two simplifications, neither of which the crate can observe. The two zeros are one
  value: no division of the code has a divisor that could be a negative zero. The
  exponent is unbounded: the values the code forms from \<open>u64\<close> and \<open>u128\<close> integers by at
  most two multiplications and divisions stay far inside the range of a double.

  \<open>log2\<close> and \<open>powf\<close> are not fixed by Rust (their precision is documented as unspecified),
  so the functions that use them take them as arguments.
\<close>

datatype f64 = NaN | PInf | NInf | Num rat

section \<open>Rounding to nearest, ties to even\<close>

definition rne_int :: "rat \<Rightarrow> int" where
  "rne_int x =
     (let f = \<lfloor>x\<rfloor>; r = x - of_int f
      in if r < 1 / 2 then f else if 1 / 2 < r then f + 1 else if even f then f else f + 1)"

text \<open>The binary exponent of a positive number: \<open>2 powi e \<le> x < 2 powi (e + 1)\<close>.\<close>

definition fexp :: "rat \<Rightarrow> int" where
  "fexp x =
     (if 1 \<le> x then int (ilog2 (nat \<lfloor>x\<rfloor>)) else - 1 - int (ilog2 (nat (\<lceil>1 / x\<rceil> - 1))))"

definition rne_pos :: "rat \<Rightarrow> rat" where
  "rne_pos x = (let u = 2 powi (fexp x - 52) in of_int (rne_int (x / u)) * u)"

definition rne :: "rat \<Rightarrow> rat" where
  "rne x = (if x = 0 then 0 else if x < 0 then - rne_pos (- x) else rne_pos x)"

lemma rne_int_of_int [simp]: "rne_int (of_int n) = n"
  by (simp add: rne_int_def)

lemma rne_int_mono: "x \<le> y \<Longrightarrow> rne_int x \<le> rne_int y"
proof -
  assume le: "x \<le> y"
  have fl: "\<lfloor>x\<rfloor> \<le> \<lfloor>y\<rfloor>" using le by (rule floor_mono)
  show ?thesis
  proof (cases "\<lfloor>x\<rfloor> = \<lfloor>y\<rfloor>")
    case True
    with le show ?thesis by (auto simp: rne_int_def Let_def)
  next
    case False
    with fl have "\<lfloor>x\<rfloor> + 1 \<le> \<lfloor>y\<rfloor>" by simp
    moreover have "rne_int x \<le> \<lfloor>x\<rfloor> + 1" and "\<lfloor>y\<rfloor> \<le> rne_int y"
      by (simp_all add: rne_int_def Let_def)
    ultimately show ?thesis by linarith
  qed
qed

lemma powi2_pos: "(0::rat) < 2 powi n"
  by simp

lemma powi2_less_imp: "(2::rat) powi m < 2 powi n \<Longrightarrow> m < n"
  using power_int_increasing [of n m "2::rat"] by (cases "m < n") simp_all

lemma fexp_bounds_ge1:
  assumes "1 \<le> x"
  shows "2 powi fexp x \<le> x" and "x < 2 powi (fexp x + 1)"
proof -
  define n where "n = nat \<lfloor>x\<rfloor>"
  have "0 < n" "of_nat n = (of_int \<lfloor>x\<rfloor> :: rat)" using assms by (simp_all add: n_def)
  then have n: "0 < n" "of_nat n \<le> x" "x < of_nat n + 1" by (simp, linarith+)
  have e: "fexp x = int (ilog2 n)" using assms by (simp add: fexp_def n_def)
  have b: "2 ^ ilog2 n \<le> n" "n + 1 \<le> 2 ^ Suc (ilog2 n)" using ilog2_bounds [OF n(1)] by simp_all
  have r: "(2::rat) ^ ilog2 n \<le> of_nat n" "of_nat n + 1 \<le> (2::rat) ^ Suc (ilog2 n)"
    using b by (metis of_nat_le_iff of_nat_numeral of_nat_power of_nat_Suc Suc_eq_plus1 add.commute)+
  have "2 powi fexp x = (2::rat) ^ ilog2 n" "2 powi (fexp x + 1) = (2::rat) ^ Suc (ilog2 n)"
    unfolding e by (simp_all add: power_int_add mult.commute)
  with n r show "2 powi fexp x \<le> x" "x < 2 powi (fexp x + 1)"
    by (metis order_trans, metis order_less_le_trans)
qed

lemma fexp_bounds_lt1:
  assumes "0 < x" "x < 1"
  shows "2 powi fexp x \<le> x" and "x < 2 powi (fexp x + 1)"
proof -
  define y where "y = 1 / x"
  define n where "n = nat (\<lceil>y\<rceil> - 1)"
  have y: "1 < y" "x = 1 / y" using assms by (simp_all add: y_def)
  then have "1 < \<lceil>y\<rceil>" by (simp add: less_ceiling_iff)
  then have n: "0 < n" "of_nat n < y" "y \<le> of_nat n + 1"
    unfolding n_def by linarith+
  have e: "fexp x = - 1 - int (ilog2 n)" using assms by (simp add: fexp_def n_def y_def)
  have b: "2 ^ ilog2 n \<le> n" "n + 1 \<le> 2 ^ Suc (ilog2 n)" using ilog2_bounds [OF n(1)] by simp_all
  have r: "(2::rat) ^ ilog2 n \<le> of_nat n" "of_nat n + 1 \<le> (2::rat) ^ Suc (ilog2 n)"
    using b by (metis of_nat_le_iff of_nat_numeral of_nat_power of_nat_Suc Suc_eq_plus1 add.commute)+
  have "2 powi fexp x = 1 / (2::rat) ^ Suc (ilog2 n)" "2 powi (fexp x + 1) = 1 / (2::rat) ^ ilog2 n"
    unfolding e by (simp_all add: power_int_diff power_int_minus field_simps)
  moreover have "1 / (2::rat) ^ Suc (ilog2 n) \<le> 1 / y" "1 / y < 1 / (2::rat) ^ ilog2 n"
    using n r y(1) by (intro divide_left_mono divide_strict_left_mono; (simp; fail | linarith))+
  ultimately show "2 powi fexp x \<le> x" "x < 2 powi (fexp x + 1)"
    unfolding y(2) by simp_all
qed

lemma fexp_bounds:
  assumes "0 < x"
  shows "2 powi fexp x \<le> x" and "x < 2 powi (fexp x + 1)"
  using assms fexp_bounds_ge1 [of x] fexp_bounds_lt1 [of x] by (cases "1 \<le> x"; simp)+

lemma fexp_mono: "0 < x \<Longrightarrow> x \<le> y \<Longrightarrow> fexp x \<le> fexp y"
proof -
  assume "0 < x" "x \<le> y"
  then have "(2::rat) powi fexp x < 2 powi (fexp y + 1)"
    using fexp_bounds [of x] fexp_bounds [of y] by linarith
  then have "fexp x < fexp y + 1" by (rule powi2_less_imp)
  then show ?thesis by simp
qed

lemma rne_pos_bounds:
  assumes "0 < x"
  shows "2 powi fexp x \<le> rne_pos x" and "rne_pos x \<le> 2 powi (fexp x + 1)"
proof -
  let ?e = "fexp x" and ?u = "(2::rat) powi (fexp x - 52)"
  have u: "0 < ?u" by simp
  have e1: "2 powi ?e = of_int (2 ^ 52) * ?u" and e2: "2 powi (?e + 1) = of_int (2 ^ 53) * ?u"
    by (simp_all add: power_int_diff power_int_add)
  have "of_int (2 ^ 52) \<le> x / ?u"
    using fexp_bounds(1) [OF assms] u by (simp only: e1 pos_le_divide_eq)
  then have "2 ^ 52 \<le> rne_int (x / ?u)" by (metis rne_int_mono rne_int_of_int)
  then show "2 powi ?e \<le> rne_pos x"
    unfolding rne_pos_def Let_def e1 using u
    by (intro mult_right_mono) (simp_all only: of_int_le_iff less_imp_le)
  have "x / ?u \<le> of_int (2 ^ 53)"
    using fexp_bounds(2) [OF assms] u by (simp only: e2 pos_divide_le_eq less_imp_le)
  then have "rne_int (x / ?u) \<le> 2 ^ 53" by (metis rne_int_mono rne_int_of_int)
  then show "rne_pos x \<le> 2 powi (?e + 1)"
    unfolding rne_pos_def Let_def e2 using u
    by (intro mult_right_mono) (simp_all only: of_int_le_iff less_imp_le)
qed

lemma rne_pos_pos: "0 < x \<Longrightarrow> 0 < rne_pos x"
  using rne_pos_bounds(1) [of x] powi2_pos [of "fexp x"] by linarith

lemma rne_pos_mono:
  assumes "0 < x" and "x \<le> y"
  shows "rne_pos x \<le> rne_pos y"
proof (cases "fexp x = fexp y")
  case True
  let ?u = "(2::rat) powi (fexp y - 52)"
  have "rne_int (x / ?u) \<le> rne_int (y / ?u)"
    using assms(2) by (intro rne_int_mono divide_right_mono) simp_all
  then show ?thesis unfolding rne_pos_def Let_def True by (intro mult_right_mono) simp_all
next
  case False
  with fexp_mono [OF assms] have "fexp x + 1 \<le> fexp y" by simp
  then have "(2::rat) powi (fexp x + 1) \<le> 2 powi fexp y" by (intro power_int_increasing) simp_all
  with rne_pos_bounds(2) [of x] rne_pos_bounds(1) [of y] assms show ?thesis by linarith
qed

lemma rne_mono: "x \<le> y \<Longrightarrow> rne x \<le> rne y"
proof -
  assume le: "x \<le> y"
  consider "0 < x" | "x = 0" | "x < 0" by fastforce
  then show ?thesis
  proof cases
    case 1
    with le show ?thesis by (simp add: rne_def rne_pos_mono)
  next
    case 2
    with le show ?thesis using rne_pos_pos [of y] by (auto simp: rne_def)
  next
    case 3
    then have nx: "rne x = - rne_pos (- x)" by (simp add: rne_def)
    consider "y < 0" | "0 \<le> y" by fastforce
    then show ?thesis
    proof cases
      case 1
      with le have "rne_pos (- y) \<le> rne_pos (- x)" by (intro rne_pos_mono) auto
      with 1 nx show ?thesis by (simp add: rne_def)
    next
      case 2
      then have "0 \<le> rne y" using rne_pos_pos [of y] by (auto simp: rne_def)
      moreover have "rne x < 0" using 3 nx rne_pos_pos [of "- x"] by simp
      ultimately show ?thesis by simp
    qed
  qed
qed

lemma rne_nonneg: "0 \<le> x \<Longrightarrow> 0 \<le> rne x"
  using rne_mono [of 0 x] by (simp add: rne_def)

text \<open>Numbers with at most 53 significant bits are not changed.\<close>

definition f64_exact :: "rat \<Rightarrow> bool" where
  "f64_exact x \<longleftrightarrow> (\<exists>(m::nat) e. x = of_nat m * 2 powi e \<and> m < 2 ^ 53)"

lemma rne_exact: "f64_exact x \<Longrightarrow> rne x = x"
proof (cases "x = 0")
  case True
  then show ?thesis by (simp add: rne_def)
next
  case False
  assume "f64_exact x"
  then obtain m :: nat and e where x: "x = of_nat m * 2 powi e" and m: "m < 2 ^ 53"
    by (auto simp: f64_exact_def)
  with False have m0: "0 < m" by (cases m) auto
  with x have x0: "0 < x" by simp
  define k where "k = e - (fexp x - 52)"
  have "(2::rat) powi fexp x < 2 powi (53 + e)"
  proof -
    have "(of_nat m :: rat) < of_nat (2 ^ 53)" using m by (simp only: of_nat_less_iff)
    then have "x < 2 ^ 53 * 2 powi e" unfolding x by (intro mult_strict_right_mono) simp_all
    also have "\<dots> = 2 powi (53 + e)" by (simp add: power_int_add)
    finally show ?thesis using fexp_bounds(1) [OF x0] by simp
  qed
  then have "fexp x < 53 + e" by (rule powi2_less_imp)
  then have k: "0 \<le> k" by (simp add: k_def)
  have "x / 2 powi (fexp x - 52) = of_nat m * 2 powi k"
    by (simp add: x k_def power_int_diff)
  also have "\<dots> = of_int (int m * 2 ^ nat k)"
    using k by (simp add: power_int_nonneg_exp)
  finally have "rne_int (x / 2 powi (fexp x - 52)) = int m * 2 ^ nat k"
    by (simp only: rne_int_of_int)
  moreover have "of_int (int m * 2 ^ nat k) * (2::rat) powi (fexp x - 52) = x"
  proof -
    have "of_int (int m * 2 ^ nat k) * (2::rat) powi (fexp x - 52) =
          of_nat m * (2 powi k * 2 powi (fexp x - 52))"
      using k by (simp add: power_int_nonneg_exp)
    also have "(2::rat) powi k * 2 powi (fexp x - 52) = 2 powi e"
      by (simp add: k_def flip: power_int_add)
    finally show ?thesis by (simp add: x)
  qed
  ultimately have "rne_pos x = x" by (simp add: rne_pos_def)
  with x0 show ?thesis by (simp add: rne_def)
qed

lemma f64_exact_nat: "n < 2 ^ 53 \<Longrightarrow> f64_exact (of_nat n)"
  unfolding f64_exact_def by (intro exI [of _ n] exI [of _ 0]) simp

lemma f64_exact_scale: "f64_exact x \<Longrightarrow> f64_exact (x * 2 powi k)"
proof -
  assume "f64_exact x"
  then obtain m :: nat and e where "x = of_nat m * 2 powi e" "m < 2 ^ 53"
    by (auto simp: f64_exact_def)
  then have "x * 2 powi k = of_nat m * 2 powi (e + k)" "m < 2 ^ 53"
    by (simp_all add: power_int_add)
  then show ?thesis unfolding f64_exact_def by blast
qed

lemma f64_exact_pow2: "f64_exact (2 ^ k)"
  unfolding f64_exact_def by (intro exI [of _ 1] exI [of _ "int k"]) simp

section \<open>The operations\<close>

definition f_of_nat :: "nat \<Rightarrow> f64" where
  "f_of_nat n = Num (rne (of_nat n))"

text \<open>\<open>x as f64\<close> for an unsigned integer.\<close>

definition f_of_w :: "'a::len word \<Rightarrow> f64" where
  "f_of_w w = f_of_nat (unat w)"

fun f_neg :: "f64 \<Rightarrow> f64" where
  "f_neg NaN = NaN"
| "f_neg PInf = NInf"
| "f_neg NInf = PInf"
| "f_neg (Num x) = Num (- x)"

fun f_add :: "f64 \<Rightarrow> f64 \<Rightarrow> f64" where
  "f_add NaN _ = NaN"
| "f_add _ NaN = NaN"
| "f_add PInf NInf = NaN"
| "f_add NInf PInf = NaN"
| "f_add PInf _ = PInf"
| "f_add NInf _ = NInf"
| "f_add _ PInf = PInf"
| "f_add _ NInf = NInf"
| "f_add (Num x) (Num y) = Num (rne (x + y))"

definition f_sub :: "f64 \<Rightarrow> f64 \<Rightarrow> f64" where
  "f_sub x y = f_add x (f_neg y)"

definition f_inf :: "rat \<Rightarrow> f64" where
  "f_inf s = (if s = 0 then NaN else if 0 < s then PInf else NInf)"

fun f_mul :: "f64 \<Rightarrow> f64 \<Rightarrow> f64" where
  "f_mul NaN _ = NaN"
| "f_mul _ NaN = NaN"
| "f_mul PInf PInf = PInf"
| "f_mul NInf NInf = PInf"
| "f_mul PInf NInf = NInf"
| "f_mul NInf PInf = NInf"
| "f_mul PInf (Num y) = f_inf y"
| "f_mul NInf (Num y) = f_inf (- y)"
| "f_mul (Num x) PInf = f_inf x"
| "f_mul (Num x) NInf = f_inf (- x)"
| "f_mul (Num x) (Num y) = Num (rne (x * y))"

fun f_div :: "f64 \<Rightarrow> f64 \<Rightarrow> f64" where
  "f_div NaN _ = NaN"
| "f_div _ NaN = NaN"
| "f_div (Num x) (Num y) = (if y = 0 then f_inf x else Num (rne (x / y)))"
| "f_div (Num x) _ = Num 0"
| "f_div PInf (Num y) = (if y < 0 then NInf else PInf)"
| "f_div NInf (Num y) = (if y < 0 then PInf else NInf)"
| "f_div _ _ = NaN"

text \<open>\<open><=\<close> on \<open>f64\<close>: false when an operand is NaN.\<close>

fun f_le :: "f64 \<Rightarrow> f64 \<Rightarrow> bool" where
  "f_le NaN _ = False"
| "f_le _ NaN = False"
| "f_le NInf _ = True"
| "f_le _ PInf = True"
| "f_le (Num x) (Num y) = (x \<le> y)"
| "f_le _ _ = False"

definition f_lt :: "f64 \<Rightarrow> f64 \<Rightarrow> bool" where
  "f_lt x y \<longleftrightarrow> x \<noteq> NaN \<and> y \<noteq> NaN \<and> \<not> f_le y x"

text \<open>\<open>f64::max\<close> and \<open>f64::min\<close> ignore a NaN operand; \<open>clamp\<close> keeps a NaN.\<close>

definition f_max :: "f64 \<Rightarrow> f64 \<Rightarrow> f64" where
  "f_max x y = (if x = NaN then y else if y = NaN then x else if f_le x y then y else x)"

definition f_min :: "f64 \<Rightarrow> f64 \<Rightarrow> f64" where
  "f_min x y = (if x = NaN then y else if y = NaN then x else if f_le x y then x else y)"

definition f_clamp :: "f64 \<Rightarrow> f64 \<Rightarrow> f64 \<Rightarrow> f64" where
  "f_clamp x lo hi = (if f_lt x lo then lo else if f_lt hi x then hi else x)"

fun f_ceil :: "f64 \<Rightarrow> f64" where
  "f_ceil (Num x) = Num (of_int \<lceil>x\<rceil>)"
| "f_ceil x = x"

fun f_floor :: "f64 \<Rightarrow> f64" where
  "f_floor (Num x) = Num (of_int \<lfloor>x\<rfloor>)"
| "f_floor x = x"

text \<open>\<open>x as uN\<close>: towards zero, saturating, NaN to 0.\<close>

fun f_to_w :: "f64 \<Rightarrow> 'a::len word" where
  "f_to_w NaN = 0"
| "f_to_w PInf = - 1"
| "f_to_w NInf = 0"
| "f_to_w (Num x) =
     (if x < 0 then 0 else if 2 ^ LENGTH('a) \<le> \<lfloor>x\<rfloor> then - 1 else word_of_int \<lfloor>x\<rfloor>)"

lemma unat_f_to_w_Num:
  "0 \<le> x \<Longrightarrow> unat (f_to_w (Num x) :: 'a::len word) = min (nat \<lfloor>x\<rfloor>) (2 ^ LENGTH('a) - 1)"
proof -
  assume x: "0 \<le> x"
  then have fl: "0 \<le> \<lfloor>x\<rfloor>" by simp
  show ?thesis
  proof (cases "2 ^ LENGTH('a) \<le> \<lfloor>x\<rfloor>")
    case True
    then have "2 ^ LENGTH('a) \<le> nat \<lfloor>x\<rfloor>" using fl by (simp add: le_nat_iff)
    moreover have "(f_to_w (Num x) :: 'a word) = - 1" using True x by simp
    ultimately show ?thesis by (metis (no_types) unat_max_word min.absorb2 diff_le_self order_trans)
  next
    case False
    then have lt: "nat \<lfloor>x\<rfloor> < 2 ^ LENGTH('a)" using fl by (simp add: nat_less_iff)
    have "(f_to_w (Num x) :: 'a word) = of_nat (nat \<lfloor>x\<rfloor>)" using x False fl by simp
    moreover have "unat (of_nat (nat \<lfloor>x\<rfloor>) :: 'a word) = nat \<lfloor>x\<rfloor>"
      using lt by (simp only: unat_of_nat mod_less)
    moreover have "nat \<lfloor>x\<rfloor> \<le> 2 ^ LENGTH('a) - 1" using lt by linarith
    ultimately show ?thesis by (metis (no_types) min.absorb1)
  qed
qed

lemma f_to_w_mono:
  "0 \<le> x \<Longrightarrow> x \<le> y \<Longrightarrow> (f_to_w (Num x) :: 'a::len word) \<le> f_to_w (Num y)"
  unfolding word_le_nat_alt
  by (simp only: unat_f_to_w_Num order_trans) (intro min.mono nat_mono floor_mono order_refl)

lemma rne_of_nat_exact [simp]: "n < 2 ^ 53 \<Longrightarrow> rne (of_nat n) = of_nat n"
  by (intro rne_exact f64_exact_nat)

lemma rne_0 [simp]: "rne 0 = 0"
  by (simp add: rne_def)

lemma rne_1 [simp]: "rne 1 = 1"
  using rne_of_nat_exact [of 1] by simp

lemma rne_numeral [simp]: "(numeral k :: nat) < 2 ^ 53 \<Longrightarrow> rne (numeral k) = numeral k"
  using rne_of_nat_exact [of "numeral k"] by simp

text \<open>The rounding of a number whose binary exponent is known.\<close>

lemma fexp_unique:
  assumes "2 powi e \<le> x" and "x < 2 powi (e + 1)"
  shows "fexp x = e"
proof -
  have x: "0 < x" using assms(1) powi2_pos [of e] by linarith
  have "(2::rat) powi fexp x < 2 powi (e + 1)" "(2::rat) powi e < 2 powi (fexp x + 1)"
    using fexp_bounds [OF x] assms by linarith+
  then have "fexp x < e + 1" "e < fexp x + 1" by (auto dest: powi2_less_imp)
  then show ?thesis by simp
qed

lemma rne_at:
  assumes "2 ^ k \<le> x" and "x < 2 ^ (k + 1)" and "52 \<le> k"
  shows "rne x = of_int (rne_int (x / 2 ^ (k - 52))) * 2 ^ (k - 52)"
proof -
  have "0 < x" using assms(1) zero_less_power [of "2::rat" k] by linarith
  moreover have "fexp x = int k"
    using assms(1,2) by (intro fexp_unique) (simp_all add: power_int_add)
  moreover have "(2::rat) powi (int k - 52) = 2 ^ (k - 52)"
    using assms(3) by (simp add: power_int_def nat_diff_distrib)
  ultimately show ?thesis by (simp add: rne_def rne_pos_def Let_def)
qed

text \<open>
  The only fact about \<open>log2\<close> the development ever assumes: on a positive number it is
  finite and lies between the two integers around the exact logarithm.
  \<open>log2_floor\<close> is a concrete function with that property, for the witnesses.
\<close>

definition log2_faithful :: "(f64 \<Rightarrow> f64) \<Rightarrow> bool" where
  "log2_faithful lg \<longleftrightarrow>
     (\<forall>x > 0. \<exists>y. lg (Num x) = Num y \<and> of_int (fexp x) \<le> y \<and> y \<le> of_int (fexp x + 1))"

fun log2_floor :: "f64 \<Rightarrow> f64" where
  "log2_floor (Num x) = (if 0 < x then Num (of_int (fexp x)) else if x = 0 then NInf else NaN)"
| "log2_floor PInf = PInf"
| "log2_floor _ = NaN"

lemma log2_floor_faithful: "log2_faithful log2_floor"
  by (simp add: log2_faithful_def)

lemma f_of_w_exact: "unat w < 2 ^ 53 \<Longrightarrow> f_of_w w = Num (of_nat (unat w))"
  by (simp only: f_of_w_def f_of_nat_def rne_of_nat_exact)

lemma f_of_w_Num: "f_of_w w = Num (rne (of_nat (unat w)))"
  by (simp only: f_of_w_def f_of_nat_def)

lemma rne_of_nat_pos: "0 < n \<Longrightarrow> 0 < rne (of_nat n)"
  by (simp add: rne_def rne_pos_pos)

text \<open>\<open>Duration::as_secs_f64\<close> of a duration in nanoseconds.\<close>

definition as_secs_f64 :: "nat \<Rightarrow> f64" where
  "as_secs_f64 d = f_add (f_of_nat (d div 10 ^ 9)) (f_div (f_of_nat (d mod 10 ^ 9)) (f_of_nat (10 ^ 9)))"

end
