(* ===== verification/Pow_Config.thy ===== *)
theory Pow_Config
  imports Prelude
begin

text \<open>
  The crate's error type and configuration (\<open>src/lib.rs\<close>). A fallible function of the
  crate that cannot panic has type \<open>'a pow_result\<close>; one that can also panic returns an
  option of it.
\<close>

datatype pow_error =
    InvalidDifficulty string
  | InvalidWorkProof
  | WorkProofVerificationFailed
  | DifficultyAdjustmentFailed string
  | PoolError string
  | RewardCalculationError string
  | InvalidBlock string
  | IoError string
  | SerializationError string
  | Internal string

type_synonym 'a pow_result = "pow_error + 'a"

record pow_config =
  target_block_time_ms :: u64
  difficulty_adjustment_interval :: u64
  initial_difficulty :: u64
  min_difficulty :: u64
  max_difficulty :: u64
  base_block_reward :: u128
  halving_interval :: u64
  mining_algorithm :: string

definition default_config :: pow_config where
  "default_config = \<lparr>
     target_block_time_ms = 30000,
     difficulty_adjustment_interval = 2016,
     initial_difficulty = 1000000,
     min_difficulty = 1000,
     max_difficulty = - 1,
     base_block_reward = 50000000000,
     halving_interval = 210000,
     mining_algorithm = ''SHA-512''\<rparr>"

text \<open>Seconds since the epoch, as \<open>SystemTime::now()\<close> gives them: an argument of each
  operation that reads the clock.\<close>

type_synonym time = u64

end
