(* ===== verification/Difficulty.thy ===== *)
theory Difficulty
  imports Float64 Pow_Config
begin

text \<open>
  The difficulty calculator (\<open>src/difficulty.rs\<close>): the average-based and the
  Kadena-style adjustment, the schedule check, the halving multiplier, the range check
  and the compact bits. The calculator's state is its configuration, passed as the first
  argument. The adjustments are computed in \<open>f64\<close>, as in the code.
\<close>

section \<open>The adjustment record\<close>

record difficulty_adjustment =
  da_chain_id :: u32
  da_current_difficulty :: u64
  da_previous_difficulty :: u64
  da_adjustment_factor :: f64
  da_block_height :: u64
  da_timestamp :: u64

definition new_difficulty_adjustment ::
    "u32 \<Rightarrow> u64 \<Rightarrow> u64 \<Rightarrow> u64 \<Rightarrow> u64 \<Rightarrow> difficulty_adjustment" where
  "new_difficulty_adjustment chain_id current_difficulty previous_difficulty block_height timestamp =
     (let adjustment_factor =
            (if previous_difficulty > 0
             then f_div (f_of_w current_difficulty) (f_of_w previous_difficulty) else Num 1)
      in \<lparr>da_chain_id = chain_id, da_current_difficulty = current_difficulty,
          da_previous_difficulty = previous_difficulty, da_adjustment_factor = adjustment_factor,
          da_block_height = block_height, da_timestamp = timestamp\<rparr>)"

section \<open>The calculator\<close>

definition calculate_difficulty ::
    "build \<Rightarrow> pow_config \<Rightarrow> u64 \<Rightarrow> u64 list \<Rightarrow> u64 \<Rightarrow> u64 pow_result option" where
  "calculate_difficulty b cfg current_difficulty actual_block_times block_height =
     (if actual_block_times = [] then Some (Inr current_difficulty)
      else do {
        total_time \<leftarrow> sum_w b actual_block_times;
        avg_block_time \<leftarrow> div_w total_time (of_nat (length actual_block_times));
        let target_time = target_block_time_ms cfg;
        let adjustment_ratio = f_div (f_of_w target_time) (f_of_w avg_block_time);
        let new_difficulty = (f_to_w (f_mul (f_of_w current_difficulty) adjustment_ratio) :: u64);
        Some (Inr (min (max new_difficulty (min_difficulty cfg)) (max_difficulty cfg)))
      })"

definition adjust_difficulty_kadena_style ::
    "build \<Rightarrow> pow_config \<Rightarrow> u64 \<Rightarrow> u64 \<Rightarrow> u64 \<Rightarrow> u64 pow_result option" where
  "adjust_difficulty_kadena_style b cfg current_difficulty blocks_in_period time_for_period_ms =
     (if blocks_in_period = 0 then Some (Inr current_difficulty)
      else do {
        expected_time_ms \<leftarrow> mul_w b blocks_in_period (target_block_time_ms cfg);
        if time_for_period_ms = 0 then Some (Inr current_difficulty)
        else do {
          let adjustment_ratio = f_div (f_of_w expected_time_ms) (f_of_w time_for_period_ms);
          let clamped_ratio = f_min (f_max adjustment_ratio (Num (1 / 4))) (Num 4);
          let new_difficulty = (f_to_w (f_mul (f_of_w current_difficulty) clamped_ratio) :: u64);
          Some (Inr (min (max new_difficulty (min_difficulty cfg)) (max_difficulty cfg)))
        }
      })"

definition should_adjust :: "pow_config \<Rightarrow> u64 \<Rightarrow> bool" where
  "should_adjust cfg block_height \<longleftrightarrow>
     is_multiple_of block_height (difficulty_adjustment_interval cfg) \<and> block_height > 0"

definition sat_pow :: "'a::len word \<Rightarrow> nat \<Rightarrow> 'a word" where
  "sat_pow x n = (if 2 ^ LENGTH('a) \<le> unat x ^ n then - 1 else x ^ n)"

definition get_difficulty_with_halving :: "pow_config \<Rightarrow> u64 \<Rightarrow> u64 \<Rightarrow> u64 option" where
  "get_difficulty_with_halving cfg base_difficulty block_height = do {
     halvings \<leftarrow> div_w block_height (halving_interval cfg);
     Some (sat_mul base_difficulty (sat_pow 2 (unat (ucast halvings :: u32))))
   }"

definition validate_difficulty :: "pow_config \<Rightarrow> u64 \<Rightarrow> unit pow_result" where
  "validate_difficulty cfg difficulty =
     (if difficulty < min_difficulty cfg
      then Inl (InvalidDifficulty (''Difficulty '' @ fmt_w difficulty @ '' below minimum '' @
                                   fmt_w (min_difficulty cfg)))
      else if difficulty > max_difficulty cfg
      then Inl (InvalidDifficulty (''Difficulty '' @ fmt_w difficulty @ '' exceeds maximum '' @
                                   fmt_w (max_difficulty cfg)))
      else Inr ())"

section \<open>Compact bits\<close>

text \<open>The constant \<open>MAX_TARGET_BITS\<close> is \<open>0x1d00ffff\<close>.\<close>

definition MAX_TARGET_BITS :: u32 where
  "MAX_TARGET_BITS = 0x1d00ffff"

definition calculate_difficulty_bits ::
    "(f64 \<Rightarrow> f64) \<Rightarrow> (f64 \<Rightarrow> f64 \<Rightarrow> f64) \<Rightarrow> u64 \<Rightarrow> u32" where
  "calculate_difficulty_bits lg powf difficulty =
     (if difficulty = 0 then 0
      else if difficulty = 1 then MAX_TARGET_BITS
      else
        let max_exponent = (ucast (ucast (drop_bit 24 MAX_TARGET_BITS) :: u8) :: u32);
            max_mantissa = MAX_TARGET_BITS AND 0xFFFFFF;
            log2_max_target = f_add (f_mul (f_sub (f_of_w max_exponent) (Num 3)) (Num 8))
                                    (lg (f_of_w max_mantissa));
            log2_difficulty = lg (f_of_w difficulty);
            log2_target = f_sub log2_max_target log2_difficulty;
            exponent_f64 = f_add (f_ceil (f_div (f_sub log2_target (Num 23)) (Num 8))) (Num 3);
            exponent = (f_to_w (f_clamp exponent_f64 (Num 3) (Num 30)) :: u32);
            mantissa_bits = f_sub log2_target (f_mul (Num 8) (f_sub (f_of_w exponent) (Num 3)));
            mantissa_f64 = powf (Num 2) mantissa_bits;
            mantissa = min (max (f_to_w mantissa_f64 :: u32) 1) 0xFFFFFF
        in push_bit 24 (exponent AND 0xFF) OR (mantissa AND 0xFFFFFF))"

definition bits_to_difficulty :: "(f64 \<Rightarrow> f64) \<Rightarrow> (f64 \<Rightarrow> f64 \<Rightarrow> f64) \<Rightarrow> u32 \<Rightarrow> u64" where
  "bits_to_difficulty lg powf bits =
     (if bits = 0 then 0
      else
        let exponent = (ucast (ucast (drop_bit 24 bits) :: u8) :: u32);
            mantissa = bits AND 0xFFFFFF
        in if \<not> (3 \<le> exponent \<and> exponent \<le> 30) then 0
           else if mantissa = 0 then 0
           else
             let target_bits = f_add (lg (f_of_w mantissa))
                                     (f_mul (Num 8) (f_sub (f_of_w exponent) (Num 3)));
                 max_exponent = (ucast (ucast (drop_bit 24 MAX_TARGET_BITS) :: u8) :: u32);
                 max_mantissa = MAX_TARGET_BITS AND 0xFFFFFF;
                 max_target_bits = f_add (lg (f_of_w max_mantissa))
                                         (f_mul (Num 8) (f_sub (f_of_w max_exponent) (Num 3)));
                 difficulty_f64 = powf (Num 2) (f_sub max_target_bits target_bits)
             in f_to_w difficulty_f64)"

lemma len64: "LENGTH(64) = 64"
  by simp

section \<open>The Kadena-style adjustment on rationals\<close>

text \<open>The clamped ratio and the unclamped new difficulty the code computes.\<close>

definition kadena_ratio :: "nat \<Rightarrow> nat \<Rightarrow> rat" where
  "kadena_ratio expected actual =
     min (max (rne (rne (of_nat expected) / rne (of_nat actual))) (1 / 4)) 4"

definition kadena_raw :: "u64 \<Rightarrow> rat \<Rightarrow> u64" where
  "kadena_raw current r = f_to_w (Num (rne (rne (of_nat (unat current)) * r)))"

lemma f_min_Num [simp]: "f_min (Num x) (Num y) = Num (min x y)"
  by (simp add: f_min_def min_def)

lemma f_max_Num [simp]: "f_max (Num x) (Num y) = Num (max x y)"
  by (simp add: f_max_def max_def)

lemma kadena_eq:
  assumes "blocks \<noteq> 0" and "time \<noteq> 0"
    and fits: "unat blocks * unat (target_block_time_ms cfg) < 2 ^ 64"
  shows "adjust_difficulty_kadena_style b cfg current blocks time =
         Some (Inr (min (max (kadena_raw current
             (kadena_ratio (unat blocks * unat (target_block_time_ms cfg)) (unat time)))
           (min_difficulty cfg)) (max_difficulty cfg)))"
proof -
  have "0 < unat time" using assms(2) by (simp add: unat_gt_0)
  then have t: "rne (of_nat (unat time)) \<noteq> 0" by (rule rne_of_nat_pos [THEN less_imp_neq, THEN not_sym])
  have m: "mul_w b blocks (target_block_time_ms cfg) = Some (blocks * target_block_time_ms cfg)"
    using fits by (intro mul_w_exact) simp
  have u: "unat (blocks * target_block_time_ms cfg) = unat blocks * unat (target_block_time_ms cfg)"
    using fits by (intro unat_mul_exact) simp
  have ratio: "f_div (f_of_w (blocks * target_block_time_ms cfg)) (f_of_w time) =
      Num (rne (rne (of_nat (unat blocks * unat (target_block_time_ms cfg))) /
                rne (of_nat (unat time))))"
    unfolding f_of_w_Num u f_div.simps using t by (rule if_not_P)
  show ?thesis
    unfolding adjust_difficulty_kadena_style_def m if_not_P [OF assms(1)] if_not_P [OF assms(2)]
      Let_def Option.bind_lunit ratio f_max_Num f_min_Num f_of_w_Num [of current] f_mul.simps
      kadena_ratio_def kadena_raw_def
    by (rule refl)
qed

lemma kadena_ratio_bounds: "1 / 4 \<le> kadena_ratio e t" "kadena_ratio e t \<le> 4"
  by (simp_all add: kadena_ratio_def)

lemma kadena_ratio_ge_1:
  assumes "t \<le> e" and "0 < t"
  shows "1 \<le> kadena_ratio e t"
proof -
  have "rne (of_nat t) \<le> rne (of_nat e)" using assms(1) by (intro rne_mono) simp
  then have "1 \<le> rne (of_nat e) / rne (of_nat t)" using rne_of_nat_pos [OF assms(2)] by simp
  from rne_mono [OF this] show ?thesis by (simp add: kadena_ratio_def)
qed

lemma kadena_ratio_le_1:
  assumes "e \<le> t" and "0 < t"
  shows "kadena_ratio e t \<le> 1"
proof -
  have "rne (of_nat e) \<le> rne (of_nat t)" using assms(1) by (intro rne_mono) simp
  then have "rne (of_nat e) / rne (of_nat t) \<le> 1" using rne_of_nat_pos [OF assms(2)] by simp
  from rne_mono [OF this] show ?thesis by (simp add: kadena_ratio_def)
qed

lemma kadena_ratio_mono:
  assumes "t \<le> t'" and "0 < t"
  shows "kadena_ratio e t' \<le> kadena_ratio e t"
proof -
  have "rne (of_nat t) \<le> rne (of_nat t')" using assms(1) by (intro rne_mono) simp
  then have "rne (of_nat e) / rne (of_nat t') \<le> rne (of_nat e) / rne (of_nat t)"
    using rne_of_nat_pos [OF assms(2)] rne_nonneg [of "of_nat e"] by (intro divide_left_mono) auto
  from rne_mono [OF this] show ?thesis by (auto simp: kadena_ratio_def)
qed

lemma kadena_raw_mono: "0 \<le> r \<Longrightarrow> r \<le> r' \<Longrightarrow> kadena_raw c r \<le> kadena_raw c r'"
  unfolding kadena_raw_def
  by (intro f_to_w_mono rne_mono rne_nonneg mult_left_mono mult_nonneg_nonneg of_nat_0_le_iff)
    assumption+

lemma kadena_raw_exact:
  assumes "unat c < 2 ^ 53"
  shows "kadena_raw c 1 = c" and "unat (kadena_raw c 4) = 4 * unat c"
    and "unat (kadena_raw c (1 / 4)) = unat c div 4"
proof -
  have e: "f64_exact (of_nat (unat c))" by (intro f64_exact_nat assms)
  have m: "min (unat c) (2 ^ 64 - 1) = unat c" using unat_lt_pow [of c] by simp
  have "unat (kadena_raw c 1) = unat c"
    using assms m unfolding kadena_raw_def
    by (simp only: mult_1_right rne_exact [OF e] unat_f_to_w_Num of_nat_0_le_iff floor_of_nat
        nat_int len64)
  then show "kadena_raw c 1 = c" by (simp add: word_unat_eq_iff)
  have "rne (of_nat (unat c) * 4) = of_nat (4 * unat c)"
    using rne_exact [OF f64_exact_scale [OF e, of 2]] by simp
  then have "kadena_raw c 4 = f_to_w (Num (of_nat (4 * unat c)))"
    by (simp only: kadena_raw_def rne_exact [OF e])
  then show "unat (kadena_raw c 4) = 4 * unat c"
    using assms by (simp only: unat_f_to_w_Num of_nat_0_le_iff floor_of_nat nat_int len64) simp
  have "rne (of_nat (unat c) * (1 / 4)) = of_nat (unat c) / of_nat 4"
    using rne_exact [OF f64_exact_scale [OF e, of "- 2"]] by (simp add: power_int_minus)
  then have "kadena_raw c (1 / 4) = f_to_w (Num (of_nat (unat c) / of_nat 4))"
    by (simp only: kadena_raw_def rne_exact [OF e])
  moreover have "\<lfloor>of_nat (unat c) / (of_nat 4 :: rat)\<rfloor> = int (unat c div 4)"
    by (rule floor_divide_of_nat_eq)
  moreover have "min (unat c div 4) (2 ^ 64 - 1) = unat c div 4" using assms by simp
  ultimately show "unat (kadena_raw c (1 / 4)) = unat c div 4"
    by (simp only: unat_f_to_w_Num of_nat_0_le_iff divide_nonneg_nonneg nat_int len64)
qed

section \<open>Properties\<close>

lemma clamp_bounds: "lo \<le> hi \<Longrightarrow> lo \<le> min (max d lo) hi \<and> min (max d lo) hi \<le> (hi :: 'a::linorder)"
  by (auto simp: min_def max_def)

lemma clamp_mono: "d \<le> d' \<Longrightarrow> min (max d lo) hi \<le> min (max d' lo) (hi :: 'a::linorder)"
  by (auto simp: min_def max_def)

lemma clamp_id: "lo \<le> d \<Longrightarrow> d \<le> hi \<Longrightarrow> min (max d lo) hi = (d :: 'a::linorder)"
  by (auto simp: min_def max_def)

lemma validate_difficulty_iff:
  "validate_difficulty cfg d = Inr () \<longleftrightarrow> min_difficulty cfg \<le> d \<and> d \<le> max_difficulty cfg"
  by (auto simp: validate_difficulty_def not_less)

lemma kadena_bounds:
  assumes "blocks \<noteq> 0" and "time \<noteq> 0" and "unat current < 2 ^ 53"
    and fits: "unat blocks * unat (target_block_time_ms cfg) < 2 ^ 64"
    and range: "min_difficulty cfg \<le> current" "current \<le> max_difficulty cfg"
  shows "\<exists>d. adjust_difficulty_kadena_style b cfg current blocks time = Some (Inr d) \<and>
             validate_difficulty cfg d = Inr () \<and>
             unat current div 4 \<le> unat d \<and> unat d \<le> 4 * unat current \<and>
             (unat time \<le> unat blocks * unat (target_block_time_ms cfg) \<longrightarrow> current \<le> d) \<and>
             (unat blocks * unat (target_block_time_ms cfg) \<le> unat time \<longrightarrow> d \<le> current)"
proof -
  let ?e = "unat blocks * unat (target_block_time_ms cfg)" and ?t = "unat time"
  let ?r = "kadena_ratio ?e ?t" and ?lo = "min_difficulty cfg" and ?hi = "max_difficulty cfg"
  let ?d = "min (max (kadena_raw current ?r) ?lo) ?hi"
  have t: "0 < ?t" using assms(2) by (simp add: unat_gt_0)
  note exact = kadena_raw_exact [OF assms(3)]
  have r0: "0 \<le> ?r" using kadena_ratio_bounds(1) [of ?e ?t] by simp
  have self: "min (max current ?lo) ?hi = current" using range by (rule clamp_id)
  have quarter: "unat current div 4 \<le> unat ?d"
  proof -
    have "kadena_raw current (1 / 4) \<le> kadena_raw current ?r"
      by (intro kadena_raw_mono kadena_ratio_bounds) simp
    then have "unat current div 4 \<le> unat (kadena_raw current ?r)"
      by (simp only: word_le_nat_alt exact)
    moreover have "unat current div 4 \<le> unat ?hi"
      using range(2) by (simp add: word_le_nat_alt)
    ultimately show ?thesis by (simp only: min_def max_def split: if_split) (auto simp: word_le_nat_alt)
  qed
  have four: "unat ?d \<le> 4 * unat current"
  proof -
    have "kadena_raw current ?r \<le> kadena_raw current 4"
      by (intro kadena_raw_mono kadena_ratio_bounds r0)
    then have "unat (kadena_raw current ?r) \<le> 4 * unat current"
      by (simp only: word_le_nat_alt exact)
    moreover have "unat ?lo \<le> 4 * unat current"
      using range(1) by (simp add: word_le_nat_alt)
    ultimately show ?thesis by (simp only: min_def max_def split: if_split) (auto simp: word_le_nat_alt)
  qed
  have up: "current \<le> ?d" if "?t \<le> ?e"
    using clamp_mono [OF kadena_raw_mono [OF _ kadena_ratio_ge_1 [OF that t]], of current ?lo ?hi]
    by (simp only: exact self zero_le_one)
  have down: "?d \<le> current" if "?e \<le> ?t"
    using clamp_mono [OF kadena_raw_mono [OF r0 kadena_ratio_le_1 [OF that t]], of current ?lo ?hi]
    by (simp only: exact self)
  have "validate_difficulty cfg ?d = Inr ()"
    using clamp_bounds [of ?lo ?hi] range by (simp add: validate_difficulty_iff)
  with quarter four up down kadena_eq [OF assms(1,2) fits, of b current] show ?thesis by blast
qed

text \<open>
  C17: A Kadena-style adjustment of a difficulty below \<open>2 ^ 53\<close> that lies in the configured
  range always returns, in either build, when the expected time fits in \<open>u64\<close>. The new
  difficulty passes \<open>validate_difficulty\<close>, is at least a quarter and at most four times the
  old one, does not fall when the period was at most as long as expected, and does not
  rise when it was at least as long.
\<close>
theorem kadena_adjustment:
  assumes "blocks \<noteq> 0" and "time \<noteq> 0" and "unat current < 2 ^ 53"
    and fits: "unat blocks * unat (target_block_time_ms cfg) < 2 ^ 64"
    and range: "min_difficulty cfg \<le> current" "current \<le> max_difficulty cfg"
  shows "\<exists>d. adjust_difficulty_kadena_style b cfg current blocks time = Some (Inr d) \<and>
             validate_difficulty cfg d = Inr () \<and>
             unat current div 4 \<le> unat d \<and> unat d \<le> 4 * unat current \<and>
             (unat time \<le> unat blocks * unat (target_block_time_ms cfg) \<longrightarrow> current \<le> d) \<and>
             (unat blocks * unat (target_block_time_ms cfg) \<le> unat time \<longrightarrow> d \<le> current)"
  using assms by (rule kadena_bounds)

theorem kadena_adjustment_witness:
  "\<exists>d. adjust_difficulty_kadena_style Debug default_config 1000000 2016 60480000 = Some (Inr d) \<and>
       validate_difficulty default_config d = Inr () \<and>
       unat (1000000 :: u64) div 4 \<le> unat d \<and> unat d \<le> 4 * unat (1000000 :: u64) \<and>
       d \<le> 1000000 \<and> 1000000 \<le> d"
  using kadena_adjustment [of 2016 60480000 1000000 default_config Debug]
  by (auto simp: default_config_def)

text \<open>
  Above \<open>2 ^ 53\<close> the fourfold limit is lost: the difficulty \<open>2 ^ 54 + 3\<close> is rounded to
  \<open>2 ^ 54 + 4\<close> before it is multiplied, and a period four times too short takes it to more
  than four times its value.
\<close>
theorem kadena_limit_exceeded:
  "adjust_difficulty_kadena_style Debug default_config 18014398509481987 1 7500 =
     Some (Inr 72057594037927952) \<and>
   4 * unat (18014398509481987 :: u64) < unat (72057594037927952 :: u64)"
proof -
  have "\<lfloor>18014398509481987 / (4 :: rat)\<rfloor> = 4503599627370496"
    by (simp add: floor_eq_iff)
  then have r: "rne 18014398509481987 = 18014398509481988"
    by (simp add: rne_at [where k = 54] rne_int_def Let_def)
  have r4: "rne 72057594037927952 = 72057594037927952"
    by (simp add: rne_at [where k = 56] rne_int_def Let_def)
  have "kadena_ratio 30000 7500 = 4" by (simp add: kadena_ratio_def)
  moreover have "kadena_raw 18014398509481987 4 = 72057594037927952"
    by (simp add: kadena_raw_def r r4)
  ultimately show ?thesis
    using kadena_eq [of 1 7500 default_config Debug 18014398509481987]
    by (simp add: default_config_def)
qed

text \<open>
  The average-based adjustment of a non-empty list of block times returns a difficulty
  in the configured range when the times sum to a \<open>u64\<close>. It has no limit per step: block
  times that are all zero take any positive difficulty to the maximum.
\<close>
theorem calculate_difficulty_range:
  assumes "ts \<noteq> []" and len: "length ts < 2 ^ 64"
    and sum: "sum_list (map unat ts) < 2 ^ 64"
    and le: "min_difficulty cfg \<le> max_difficulty cfg"
  shows "\<exists>d. calculate_difficulty b cfg current ts height = Some (Inr d) \<and>
             validate_difficulty cfg d = Inr () \<and>
             (set ts = {0} \<and> current > 0 \<and> target_block_time_ms cfg > 0 \<longrightarrow>
              d = max_difficulty cfg)"
proof -
  obtain s where s: "sum_w b ts = Some s" "unat s = sum_list (map unat ts)"
    using sum_w_exact [of ts b] sum by auto
  have n: "(of_nat (length ts) :: u64) \<noteq> 0"
  proof
    assume "(of_nat (length ts) :: u64) = 0"
    then have "unat (of_nat (length ts) :: u64) = 0" by simp
    moreover have "unat (of_nat (length ts) :: u64) = length ts"
      using len by (simp only: unat_of_nat len64 mod_less)
    ultimately show False using assms(1) by simp
  qed
  let ?ratio = "f_div (f_of_w (target_block_time_ms cfg)) (f_of_w (s div of_nat (length ts)))"
  let ?raw = "f_to_w (f_mul (f_of_w current) ?ratio) :: u64"
  let ?d = "min (max ?raw (min_difficulty cfg)) (max_difficulty cfg)"
  have eq: "calculate_difficulty b cfg current ts height = Some (Inr ?d)"
    using assms(1) by (simp add: calculate_difficulty_def s(1) div_w_exact n Let_def)
  have "?d = max_difficulty cfg"
    if zero: "set ts = {0}" and pos: "current > 0" "target_block_time_ms cfg > 0"
  proof -
    have "sum_list (map unat ts) = 0" using zero by simp
    with s(2) have "s = 0" by (simp only: unat_eq_zero)
    then have "f_of_w (s div of_nat (length ts)) = Num 0" by (simp add: f_of_w_def f_of_nat_def)
    moreover have "0 < rne (of_nat (unat current))"
      "0 < rne (of_nat (unat (target_block_time_ms cfg)))"
      using pos by (intro rne_of_nat_pos; simp add: unat_gt_0 word_neq_0_conv)+
    ultimately have "?raw = - 1"
      by (simp only: f_of_w_Num f_div.simps f_mul.simps f_inf_def f_to_w.simps if_True less_imp_neq
          [THEN not_sym] if_False refl)
    then show ?thesis
      using le word_order.extremum [of "max_difficulty cfg"]
        word_order.extremum [of "min_difficulty cfg"] by (simp add: max_absorb1 min_absorb2)
  qed
  moreover have "validate_difficulty cfg ?d = Inr ()"
    using clamp_bounds [OF le] by (simp add: validate_difficulty_iff)
  ultimately show ?thesis using eq by blast
qed

theorem calculate_difficulty_range_witness:
  "\<exists>d. calculate_difficulty Debug default_config 1000000 [0, 0] 100 = Some (Inr d) \<and>
       validate_difficulty default_config d = Inr () \<and> d = - 1"
  using calculate_difficulty_range [of "[0, 0]" default_config Debug 1000000 100]
  by (auto simp: default_config_def)

lemma unat_sat_pow2: "unat (sat_pow 2 n :: u64) = min (2 ^ n) (2 ^ 64 - 1)"
proof (cases "(2 :: nat) ^ 64 \<le> 2 ^ n")
  case True
  then show ?thesis by (simp add: sat_pow_def unat_max_word)
next
  case False
  then have lt: "(2 :: nat) ^ n < 2 ^ 64" by simp
  then have "n < 64" by (rule power_less_imp_less_exp [rotated]) simp
  then have "unat ((2 :: u64) ^ n) = 2 ^ n" by (simp add: unat_pow2)
  with lt show ?thesis by (simp add: sat_pow_def)
qed

text \<open>
  The difficulty at a height is the base difficulty doubled once per halving interval,
  saturating at \<open>u64::MAX\<close>, where the number of halvings is taken modulo \<open>2 ^ 32\<close> (the cast
  to \<open>u32\<close>); an interval of zero panics.
\<close>
theorem difficulty_with_halving:
  "map_option unat (get_difficulty_with_halving cfg base h) =
     (if halving_interval cfg = 0 then None
      else Some (min (unat base * 2 ^ (unat h div unat (halving_interval cfg) mod 2 ^ 32))
                     (2 ^ 64 - 1)))"
proof -
  let ?n = "unat h div unat (halving_interval cfg) mod 2 ^ 32"
  have n: "unat (ucast (h div halving_interval cfg) :: u32) = ?n"
    by (simp add: unat_ucast_mod unat_div)
  have "min (unat base * min (2 ^ ?n) (2 ^ 64 - 1)) (2 ^ 64 - 1) =
        min (unat base * 2 ^ ?n) (2 ^ 64 - 1 :: nat)"
  proof (cases "(2::nat) ^ ?n \<le> 2 ^ 64 - 1 \<or> unat base = 0")
    case False
    then have "(2 ^ 64 - 1 :: nat) \<le> 2 ^ ?n" "0 < unat base" by linarith+
    then have "(2 ^ 64 - 1 :: nat) \<le> unat base * (2 ^ 64 - 1)"
      "(2 ^ 64 - 1 :: nat) \<le> unat base * 2 ^ ?n"
      by (metis mult_le_mono nat_mult_1 Suc_leI One_nat_def order_refl)+
    with False show ?thesis by (simp only: min_def if_False de_Morgan_disj) (metis order_antisym)
  qed (auto simp: min_def)
  then show ?thesis
    by (simp only: get_difficulty_with_halving_def div_w_def Option.bind_lunit Option.bind_lzero
        option.map n unat_sat_mul unat_sat_pow2 len64 split: if_split) simp
qed

lemma f_to_u32_clamp:
  assumes "x = Num y"
  shows "3 \<le> (f_to_w (f_clamp x (Num 3) (Num 30)) :: u32) \<and>
         (f_to_w (f_clamp x (Num 3) (Num 30)) :: u32) \<le> 30"
proof -
  have "f_clamp x (Num 3) (Num 30) = Num (min (max y 3) 30)"
    by (simp add: assms f_clamp_def f_lt_def min_def max_def)
  moreover have "(f_to_w (Num 3) :: u32) \<le> f_to_w (Num (min (max y 3) 30))"
    "(f_to_w (Num (min (max y 3) 30)) :: u32) \<le> f_to_w (Num 30)"
    by (intro f_to_w_mono; simp add: le_max_iff_disj)+
  ultimately show ?thesis by simp
qed

lemma log2_faithful_Num: "log2_faithful lg \<Longrightarrow> 0 < n \<Longrightarrow> \<exists>y. lg (f_of_w (n :: 'a::len word)) = Num y"
proof -
  assume a: "log2_faithful lg" "0 < n"
  from a(2) have "0 < unat n" by (simp add: unat_gt_0 word_neq_0_conv)
  with a(1) show ?thesis using rne_of_nat_pos unfolding log2_faithful_def f_of_w_Num by blast
qed


text \<open>The two fields of the compact form.\<close>

lemma bits_fields:
  fixes e m :: u32
  assumes "e < 2 ^ 8" and "m < 2 ^ 24"
  shows "drop_bit 24 (push_bit 24 (e AND 0xFF) OR (m AND 0xFFFFFF)) = e"
    and "(push_bit 24 (e AND 0xFF) OR (m AND 0xFFFFFF)) AND 0xFFFFFF = m"
proof -
  have ff: "(0xFF :: u32) = mask 8" "(0xFFFFFF :: u32) = mask 24" by (simp_all add: mask_eq_exp_minus_1)
  have e: "take_bit 8 e = e" using assms(1)
    by (simp add: word_unat_eq_iff unsigned_take_bit_eq take_bit_nat_eq_self_iff word_less_nat_alt)
  have m: "take_bit 24 m = m" using assms(2)
    by (simp add: word_unat_eq_iff unsigned_take_bit_eq take_bit_nat_eq_self_iff word_less_nat_alt)
  have be: "bit e n \<Longrightarrow> n < 8" for n using e by (metis bit_take_bit_iff)
  have bm: "bit m n \<Longrightarrow> n < 24" for n using m by (metis bit_take_bit_iff)
  show "drop_bit 24 (push_bit 24 (e AND 0xFF) OR (m AND 0xFFFFFF)) = e"
    unfolding ff by (rule bit_word_eqI) (auto simp: bit_simps dest: be bm)
  show "(push_bit 24 (e AND 0xFF) OR (m AND 0xFFFFFF)) AND 0xFFFFFF = m"
    unfolding ff by (rule bit_word_eqI) (auto simp: bit_simps dest: be bm)
qed

lemma f_sub_Num [simp]: "f_sub (Num x) (Num y) = Num (rne (x - y))"
  by (simp add: f_sub_def)

lemma f_sub_of_w: "f_sub (f_of_w w) (Num x) = Num (rne (rne (of_nat (unat w)) - x))"
  by (simp only: f_of_w_Num f_sub_Num)

text \<open>
  The compact bits of every positive difficulty have an exponent byte from 3 to 30 and a
  non-zero mantissa, so \<open>bits_to_difficulty\<close> never rejects them, whatever \<open>powf\<close> returns.
\<close>
theorem difficulty_bits_wellformed:
  assumes "log2_faithful lg" and "0 < difficulty"
  shows "3 \<le> drop_bit 24 (calculate_difficulty_bits lg powf difficulty) \<and>
         drop_bit 24 (calculate_difficulty_bits lg powf difficulty) \<le> 30 \<and>
         calculate_difficulty_bits lg powf difficulty AND 0xFFFFFF \<noteq> 0"
proof (cases "difficulty = 1")
  case True
  then show ?thesis by (simp add: calculate_difficulty_bits_def MAX_TARGET_BITS_def)
next
  case False
  let ?mm = "MAX_TARGET_BITS AND 0xFFFFFF"
  have "0 < ?mm" by (simp add: MAX_TARGET_BITS_def)
  then obtain y1 where y1: "lg (f_of_w ?mm) = Num y1" using log2_faithful_Num assms(1) by blast
  obtain y2 where y2: "lg (f_of_w difficulty) = Num y2" using log2_faithful_Num assms by blast
  have fields: "3 \<le> drop_bit 24 bits \<and> drop_bit 24 bits \<le> 30 \<and> bits AND 0xFFFFFF \<noteq> 0"
    if "bits = push_bit 24 (e AND 0xFF) OR (m AND 0xFFFFFF)"
      and "e = f_to_w (f_clamp (Num y) (Num 3) (Num 30))" and "m = min (max m' 1) 0xFFFFFF"
    for bits e m m' :: u32 and y
  proof -
    have e: "3 \<le> e" "e \<le> 30" using f_to_u32_clamp [OF refl, of y] that(2) by auto
    have m: "1 \<le> m" "m \<le> 0xFFFFFF" unfolding that(3) by (auto simp: min_def max_def)
    have "e < 2 ^ 8" "m < 2 ^ 24" using e(2) m(2) by (auto simp: word_le_nat_alt word_less_nat_alt)
    from bits_fields [OF this] e m(1) show ?thesis unfolding that(1) by auto
  qed
  show ?thesis
    using assms(2) False
    by (intro fields)
       (simp_all only: calculate_difficulty_bits_def Let_def y1 y2 f_sub_of_w f_sub_Num f_mul.simps
          f_add.simps f_div.simps f_ceil.simps less_imp_neq [THEN not_sym] if_False
          zero_neq_numeral [THEN not_sym])
qed

theorem difficulty_bits_wellformed_witness:
  "3 \<le> drop_bit 24 (calculate_difficulty_bits log2_floor (\<lambda>_ _. NaN) 1000) \<and>
   drop_bit 24 (calculate_difficulty_bits log2_floor (\<lambda>_ _. NaN) 1000) \<le> 30 \<and>
   calculate_difficulty_bits log2_floor (\<lambda>_ _. NaN) 1000 AND 0xFFFFFF \<noteq> 0"
  using difficulty_bits_wellformed [OF log2_floor_faithful, of 1000 "\<lambda>_ _. NaN"] by simp

end
