(* ===== verification/Schedule.thy ===== *)
theory Schedule
  imports Prelude
begin

text \<open>
  Two contracts that several components share. A \<open>schedule\<close> is a test whether an event
  falls on a block height and the height of the next event; the difficulty manager and the
  two reward components each have one. A \<open>halving_reward\<close> is a block reward that halves once
  per interval and vanishes after 64 halvings; the reward calculator and the reward
  distribution manager each have one.
\<close>

lemma len_num64: "LENGTH(64) = 64"
  by simp

section \<open>Periodic events\<close>

text \<open>The expression \<open>((h / p) + 1) * p\<close>, which every provider of a schedule evaluates.\<close>

definition next_multiple :: "build \<Rightarrow> u64 \<Rightarrow> u64 \<Rightarrow> u64 option" where
  "next_multiple b p h = do { q \<leftarrow> div_w h p; q' \<leftarrow> add_w b q 1; mul_w b q' p }"

lemma next_multiple_0: "next_multiple b 0 h = None"
  by (simp add: next_multiple_def div_w_def)

lemma next_multiple_unat:
  assumes "p \<noteq> 0" and "unat h + unat p < 2 ^ 64"
  shows "map_option unat (next_multiple b p h) = Some ((unat h div unat p + 1) * unat p)"
proof -
  have p: "0 < unat p" using assms(1) by (simp add: unat_gt_0)
  have le: "(unat h div unat p + 1) * unat p \<le> unat h + unat p"
    by (simp add: distrib_right)
  have "(unat h div unat p + 1) * 1 \<le> (unat h div unat p + 1) * unat p"
    using p by (intro mult_left_mono) simp_all
  then have "unat h div unat p + 1 \<le> unat h + unat p"
    unfolding mult_1_right using le by (rule order_trans)
  from le_less_trans [OF this assms(2)] have "unat h div unat p + 1 < 2 ^ 64" .
  then have "unat (h div p) + unat (1 :: u64) < 2 ^ LENGTH(64)" by (simp add: unat_div)
  then have q: "add_w b (h div p) 1 = Some (h div p + 1)"
    and uq: "unat (h div p + 1) = unat h div unat p + 1"
    by (simp_all add: add_w_exact unat_add_exact unat_div)
  have "unat (h div p + 1) * unat p < 2 ^ LENGTH(64)"
    unfolding uq using le_less_trans [OF le assms(2)] by (simp only: len_num64)
  then have "mul_w b (h div p + 1) p = Some ((h div p + 1) * p)"
    and "unat ((h div p + 1) * p) = (unat h div unat p + 1) * unat p"
    by (simp_all add: mul_w_exact unat_mul_exact uq)
  with q assms(1) show ?thesis by (simp add: next_multiple_def div_w_exact)
qed

lemma is_multiple_of_dvd: "p \<noteq> 0 \<Longrightarrow> is_multiple_of h p \<longleftrightarrow> unat p dvd unat h"
  by (simp add: is_multiple_of_def dvd_eq_mod_eq_0 word_unat_eq_iff unat_mod)

locale schedule =
  fixes period :: u64
    and due :: "u64 \<Rightarrow> bool"
    and next_due :: "u64 \<Rightarrow> u64 option"
    and until_due :: "u64 \<Rightarrow> u64 option"
  assumes due_iff: "period \<noteq> 0 \<Longrightarrow> due h \<longleftrightarrow> 0 < unat h \<and> unat period dvd unat h"
    and next_due_eq: "period \<noteq> 0 \<Longrightarrow> unat h + unat period < 2 ^ 64 \<Longrightarrow>
          map_option unat (next_due h) = Some ((unat h div unat period + 1) * unat period)"
    and until_due_eq: "next_due h = Some n \<Longrightarrow> h \<le> n \<Longrightarrow> until_due h = Some (n - h)"
    and zero_period: "period = 0 \<Longrightarrow> next_due h = None"
begin

lemma next_due_bounds:
  assumes "period \<noteq> 0" and "unat h + unat period < 2 ^ 64"
  shows "\<exists>n. next_due h = Some n \<and> unat h < unat n \<and> unat n \<le> unat h + unat period \<and>
             unat period dvd unat n"
proof -
  obtain n where n: "next_due h = Some n"
    "unat n = (unat h div unat period + 1) * unat period"
    using next_due_eq [OF assms] by auto
  have p: "0 < unat period" using assms(1) by (simp add: unat_gt_0)
  have "unat h = unat h div unat period * unat period + unat h mod unat period" by simp
  moreover have "unat h mod unat period < unat period" using p by simp
  ultimately have "unat h < unat n" "unat n \<le> unat h + unat period"
    unfolding n(2) distrib_right by linarith+
  with n show ?thesis by auto
qed

text \<open>The next event is the least one above the height.\<close>

lemma next_due_least:
  assumes "period \<noteq> 0" and "unat h + unat period < 2 ^ 64"
  shows "\<exists>n. next_due h = Some n \<and> due n \<and> h < n \<and> (\<forall>k. h < k \<and> due k \<longrightarrow> n \<le> k) \<and>
             until_due h = Some (n - h) \<and> 0 < unat (n - h) \<and> unat (n - h) \<le> unat period"
proof -
  obtain n where n: "next_due h = Some n" "unat h < unat n" "unat n \<le> unat h + unat period"
    "unat period dvd unat n"
    using next_due_bounds [OF assms] by blast
  have p: "0 < unat period" using assms(1) by (simp add: unat_gt_0)
  have least: "n \<le> k" if "h < k" "due k" for k
  proof -
    obtain j where j: "unat k = unat period * j"
      using \<open>due k\<close> due_iff [OF assms(1)] by blast
    obtain i where i: "unat n = unat period * i" using n(4) by blast
    have "unat period * i < unat period * (j + 1)"
      using n(3) \<open>h < k\<close> i j by (simp add: word_less_nat_alt)
    then have "i < j + 1" using mult_less_cancel1 by blast
    then have "i \<le> j" by simp
    then show ?thesis by (simp add: word_le_nat_alt i j)
  qed
  have "h \<le> n" using n(2) by (simp add: word_le_nat_alt)
  moreover from this have "unat (n - h) = unat n - unat h"
    by (intro unat_sub_exact) (simp add: word_le_nat_alt)
  ultimately show ?thesis
    using n least due_iff [OF assms(1)] until_due_eq [OF n(1)]
    by (auto simp: word_less_nat_alt)
qed

end

section \<open>Halving rewards\<close>

locale halving_reward =
  fixes base :: u128
    and interval :: u64
    and reward :: "u64 \<Rightarrow> u128 option"
  assumes reward_eq: "interval \<noteq> 0 \<Longrightarrow>
      map_option unat (reward h) =
      Some (if 64 \<le> unat h div unat interval then 0
            else unat base div 2 ^ (unat h div unat interval))"
    and zero_interval: "interval = 0 \<Longrightarrow> reward h = None"
begin

definition reward_nat :: "nat \<Rightarrow> nat" where
  "reward_nat h = (if 64 \<le> h div unat interval then 0 else unat base div 2 ^ (h div unat interval))"

lemma reward_reward_nat: "interval \<noteq> 0 \<Longrightarrow> map_option unat (reward h) = Some (reward_nat (unat h))"
  by (simp add: reward_eq reward_nat_def)

lemma reward_nat_antimono: "h \<le> h' \<Longrightarrow> reward_nat h' \<le> reward_nat h"
proof -
  assume "h \<le> h'"
  then have e: "h div unat interval \<le> h' div unat interval" by (rule div_le_mono)
  show ?thesis
  proof (cases "64 \<le> h' div unat interval")
    case True
    then show ?thesis by (simp add: reward_nat_def)
  next
    case False
    with e have "\<not> 64 \<le> h div unat interval" by linarith
    moreover have "unat base div 2 ^ (h' div unat interval) \<le> unat base div 2 ^ (h div unat interval)"
      using e by (intro div_le_mono2 power_increasing) simp_all
    ultimately show ?thesis using False by (simp add: reward_nat_def)
  qed
qed

lemma reward_antimono:
  assumes "interval \<noteq> 0" and "h \<le> h'"
  shows "\<exists>r r'. reward h = Some r \<and> reward h' = Some r' \<and> r' \<le> r \<and> r \<le> base"
proof -
  obtain r r' where r: "reward h = Some r" "unat r = reward_nat (unat h)"
    "reward h' = Some r'" "unat r' = reward_nat (unat h')"
    using reward_reward_nat [OF assms(1), of h] reward_reward_nat [OF assms(1), of h'] by auto
  have "unat r' \<le> unat r"
    unfolding r(2,4) using assms(2) by (intro reward_nat_antimono) (simp add: word_le_nat_alt)
  moreover have "unat r \<le> unat base" unfolding r(2) by (simp add: reward_nat_def)
  ultimately show ?thesis using r(1,3) by (simp add: word_le_nat_alt)
qed

text \<open>The rewards of the first \<open>n\<close> blocks, and of any number of blocks.\<close>

lemma issuance_eras:
  assumes "interval \<noteq> 0"
  shows "(\<Sum>h < 64 * unat interval. reward_nat h) =
         unat interval * (\<Sum>e < 64. unat base div 2 ^ e)"
proof -
  have p: "0 < unat interval" using assms by (simp add: unat_gt_0)
  have "(\<Sum>h < 64 * unat interval. reward_nat h) =
        (\<Sum>e < 64. \<Sum>h \<in> {e * unat interval..<e * unat interval + unat interval}. reward_nat h)"
    by (simp only: sum.nat_group)
  also have "\<dots> = (\<Sum>e < 64. unat interval * (unat base div 2 ^ e))"
  proof (rule sum.cong)
    fix e :: nat
    assume e: "e \<in> {..<64}"
    have "reward_nat h = unat base div 2 ^ e"
      if "h \<in> {e * unat interval..<e * unat interval + unat interval}" for h
    proof -
      have "h div unat interval = e"
        using that p by (intro div_nat_eqI) (auto simp: algebra_simps)
      with e show ?thesis by (simp add: reward_nat_def)
    qed
    then show "(\<Sum>h \<in> {e * unat interval..<e * unat interval + unat interval}. reward_nat h) =
        unat interval * (unat base div 2 ^ e)" by simp
  qed simp
  finally show ?thesis by (simp add: sum_distrib_left)
qed

lemma issuance_le:
  assumes "interval \<noteq> 0"
  shows "(\<Sum>h < n. reward_nat h) \<le> unat interval * (\<Sum>e < 64. unat base div 2 ^ e)"
proof -
  have p: "0 < unat interval" using assms by (simp add: unat_gt_0)
  have zero: "reward_nat h = 0" if "64 * unat interval \<le> h" for h
    using that p by (simp add: reward_nat_def less_eq_div_iff_mult_less_eq)
  have "(\<Sum>h < n. reward_nat h) \<le> (\<Sum>h \<in> {..<n} \<union> {..<64 * unat interval}. reward_nat h)"
    by (intro sum_mono2) auto
  also have "\<dots> = (\<Sum>h < 64 * unat interval. reward_nat h)"
    by (rule sum.mono_neutral_right) (auto simp: zero)
  finally show ?thesis using issuance_eras [OF assms] by simp
qed

lemma issuance_lt_twice_base:
  assumes "interval \<noteq> 0" and "base \<noteq> 0"
  shows "(\<Sum>h < n. reward_nat h) < 2 * unat interval * unat base"
proof -
  have halves: "(\<Sum>e < k. x div 2 ^ e) + max 1 (2 * (x div 2 ^ k)) \<le> 2 * x" if "0 < x" for x k :: nat
  proof (induction k)
    case (Suc k)
    have "2 * (x div 2 ^ Suc k) \<le> x div 2 ^ k"
      by (simp add: div_mult2_eq mult.commute [of 2])
    with Suc show ?case by (cases "x div 2 ^ k = 0") (auto simp: max_def split: if_splits)
  qed (use that in simp)
  have "0 < unat base" "0 < unat interval" using assms by (simp_all add: unat_gt_0)
  with halves [of "unat base" 64] have "(\<Sum>e < 64. unat base div 2 ^ e) < 2 * unat base"
    by simp
  with \<open>0 < unat interval\<close> have "unat interval * (\<Sum>e < 64. unat base div 2 ^ e) <
      unat interval * (2 * unat base)"
    by (intro mult_strict_left_mono)
  with issuance_le [OF assms(1), of n] show ?thesis by (simp only: mult_ac)
qed

end

end
