(* ===== verification/Difficulty_Manager.thy ===== *)
theory Difficulty_Manager
  imports Difficulty Schedule
begin

text \<open>
  The difficulty adjustment manager (\<open>src/difficulty_adjustment.rs\<close>): a window of block
  times, the current difficulty and the history of adjustments. Its methods take and
  return the manager's state; the clock is the argument \<open>now\<close>. \<open>usize\<close> is 64 bits wide.
\<close>

section \<open>State\<close>

record difficulty_adjustment_record =
  dr_block_height :: u64
  dr_previous_difficulty :: u64
  dr_new_difficulty :: u64
  dr_adjustment_ratio :: f64
  dr_blocks_in_period :: u64
  dr_time_for_period_ms :: u64
  dr_expected_time_ms :: u64
  dr_timestamp :: u64

definition new_adjustment_record ::
    "time \<Rightarrow> u64 \<Rightarrow> u64 \<Rightarrow> u64 \<Rightarrow> f64 \<Rightarrow> u64 \<Rightarrow> u64 \<Rightarrow> u64 \<Rightarrow> difficulty_adjustment_record" where
  "new_adjustment_record now block_height previous_difficulty new_difficulty adjustment_ratio
     blocks_in_period time_for_period_ms expected_time_ms =
     \<lparr>dr_block_height = block_height, dr_previous_difficulty = previous_difficulty,
      dr_new_difficulty = new_difficulty, dr_adjustment_ratio = adjustment_ratio,
      dr_blocks_in_period = blocks_in_period, dr_time_for_period_ms = time_for_period_ms,
      dr_expected_time_ms = expected_time_ms, dr_timestamp = now\<rparr>"

record block_time_record =
  bt_height :: u64
  bt_timestamp :: u64

record difficulty_manager =
  dm_current_difficulty :: u64
  dm_block_times :: "block_time_record list"
  dm_adjustment_history :: "difficulty_adjustment_record list"
  dm_adjustment_interval :: u64
  dm_target_block_time_secs :: u64
  dm_min_difficulty :: u64
  dm_max_difficulty :: u64
  dm_max_adjustment_ratio :: f64

definition new_difficulty_manager :: "u64 \<Rightarrow> u64 \<Rightarrow> u64 \<Rightarrow> u64 \<Rightarrow> u64 \<Rightarrow> difficulty_manager" where
  "new_difficulty_manager initial adjustment_interval target_secs
     min_diff max_diff =
     \<lparr>dm_current_difficulty = initial, dm_block_times = [], dm_adjustment_history = [],
      dm_adjustment_interval = adjustment_interval,
      dm_target_block_time_secs = target_secs, dm_min_difficulty = min_diff,
      dm_max_difficulty = max_diff, dm_max_adjustment_ratio = Num 4\<rparr>"

section \<open>Operations\<close>

text \<open>The loop that pops from the front while the window is longer than \<open>n\<close>.\<close>

fun pop_front_to :: "nat \<Rightarrow> 'a list \<Rightarrow> 'a list" where
  "pop_front_to n [] = []"
| "pop_front_to n (x # xs) = (if length (x # xs) > n then pop_front_to n xs else x # xs)"

definition record_block_time ::
    "build \<Rightarrow> difficulty_manager \<Rightarrow> u64 \<Rightarrow> u64 \<Rightarrow> difficulty_manager option" where
  "record_block_time b m height timestamp = do {
     let times = dm_block_times m @ [\<lparr>bt_height = height, bt_timestamp = timestamp\<rparr>];
     keep \<leftarrow> add_w b (dm_adjustment_interval m) 1;
     Some (m\<lparr>dm_block_times := pop_front_to (unat keep) times\<rparr>)
   }"

definition calculate_new_difficulty ::
    "build \<Rightarrow> time \<Rightarrow> difficulty_manager \<Rightarrow> u64 \<Rightarrow> ((string + u64) \<times> difficulty_manager) option" where
  "calculate_new_difficulty b now m block_height =
     (let times = dm_block_times m in
      if length times < unat (dm_adjustment_interval m)
      then Some (Inr (dm_current_difficulty m), m)
      else if times = [] then Some (Inl ''No block times recorded'', m)
      else do {
        let first_block = hd times;
        let last_block = last times;
        blocks_in_period \<leftarrow> sub_w b (bt_height last_block) (bt_height first_block);
        time_for_period_secs \<leftarrow> sub_w b (bt_timestamp last_block) (bt_timestamp first_block);
        time_for_period_ms \<leftarrow> mul_w b time_for_period_secs 1000;
        if time_for_period_secs = 0 then Some (Inr (dm_current_difficulty m), m)
        else do {
          expected_time_secs \<leftarrow> mul_w b blocks_in_period (dm_target_block_time_secs m);
          expected_time_ms \<leftarrow> mul_w b expected_time_secs 1000;
          let adjustment_ratio = f_div (f_of_w expected_time_secs) (f_of_w time_for_period_secs);
          let min_ratio = f_div (Num 1) (dm_max_adjustment_ratio m);
          let max_ratio = dm_max_adjustment_ratio m;
          let clamped_ratio = f_clamp adjustment_ratio min_ratio max_ratio;
          let current_diff = dm_current_difficulty m;
          let new_difficulty_f64 = f_mul (f_of_w current_diff) clamped_ratio;
          let new_difficulty = (f_to_w new_difficulty_f64 :: u64);
          let final_difficulty = min (max new_difficulty (dm_min_difficulty m)) (dm_max_difficulty m);
          let record = new_adjustment_record now block_height current_diff final_difficulty
                         clamped_ratio blocks_in_period time_for_period_ms expected_time_ms;
          Some (Inr final_difficulty,
                m\<lparr>dm_adjustment_history := dm_adjustment_history m @ [record],
                  dm_current_difficulty := final_difficulty\<rparr>)
        }
      })"

definition set_difficulty :: "difficulty_manager \<Rightarrow> u64 \<Rightarrow> difficulty_manager" where
  "set_difficulty m difficulty = m\<lparr>dm_current_difficulty := difficulty\<rparr>"

definition dm_should_adjust :: "difficulty_manager \<Rightarrow> u64 \<Rightarrow> bool" where
  "dm_should_adjust m block_height \<longleftrightarrow>
     block_height > 0 \<and> is_multiple_of block_height (dm_adjustment_interval m)"

definition get_next_adjustment_height :: "build \<Rightarrow> difficulty_manager \<Rightarrow> u64 \<Rightarrow> u64 option" where
  "get_next_adjustment_height b m current_height =
     next_multiple b (dm_adjustment_interval m) current_height"

definition blocks_until_adjustment :: "build \<Rightarrow> difficulty_manager \<Rightarrow> u64 \<Rightarrow> u64 option" where
  "blocks_until_adjustment b m current_height = do {
     n \<leftarrow> get_next_adjustment_height b m current_height;
     sub_w b n current_height
   }"

definition get_recent_adjustments ::
    "difficulty_manager \<Rightarrow> nat \<Rightarrow> difficulty_adjustment_record list" where
  "get_recent_adjustments m count = rev (take count (rev (dm_adjustment_history m)))"

record difficulty_stats =
  ds_current_difficulty :: u64
  ds_min_difficulty :: u64
  ds_max_difficulty :: u64
  ds_avg_adjustment_ratio :: f64
  ds_total_adjustments :: nat
  ds_blocks_recorded :: nat
  ds_adjustment_interval :: u64
  ds_target_block_time_secs :: u64

text \<open>\<open>Iterator::min\<close> and \<open>max\<close> with \<open>unwrap_or\<close>.\<close>

definition min_or :: "'a::linorder \<Rightarrow> 'a list \<Rightarrow> 'a" where
  "min_or d xs = (if xs = [] then d else foldr min (tl xs) (hd xs))"

definition max_or :: "'a::linorder \<Rightarrow> 'a list \<Rightarrow> 'a" where
  "max_or d xs = (if xs = [] then d else foldr max (tl xs) (hd xs))"

definition difficulty_manager_stats :: "difficulty_manager \<Rightarrow> difficulty_stats" where
  "difficulty_manager_stats m =
     (let current = dm_current_difficulty m; history = dm_adjustment_history m
      in \<lparr>ds_current_difficulty = current,
          ds_min_difficulty = min_or current (map dr_new_difficulty history),
          ds_max_difficulty = max_or current (map dr_new_difficulty history),
          ds_avg_adjustment_ratio =
            (if history \<noteq> []
             then f_div (foldl f_add (Num 0) (map dr_adjustment_ratio history))
                        (f_of_nat (length history))
             else Num 1),
          ds_total_adjustments = length history,
          ds_blocks_recorded = length (dm_block_times m),
          ds_adjustment_interval = dm_adjustment_interval m,
          ds_target_block_time_secs = dm_target_block_time_secs m\<rparr>)"

section \<open>The adjustment schedule\<close>

interpretation dm: schedule "dm_adjustment_interval m" "dm_should_adjust m"
    "get_next_adjustment_height b m" "blocks_until_adjustment b m" for m b
proof unfold_locales
  fix h n
  show "dm_adjustment_interval m \<noteq> 0 \<Longrightarrow>
        dm_should_adjust m h \<longleftrightarrow> 0 < unat h \<and> unat (dm_adjustment_interval m) dvd unat h"
    by (auto simp: dm_should_adjust_def is_multiple_of_dvd unat_gt_0 word_neq_0_conv)
  show "dm_adjustment_interval m \<noteq> 0 \<Longrightarrow> unat h + unat (dm_adjustment_interval m) < 2 ^ 64 \<Longrightarrow>
        map_option unat (get_next_adjustment_height b m h) =
        Some ((unat h div unat (dm_adjustment_interval m) + 1) * unat (dm_adjustment_interval m))"
    unfolding get_next_adjustment_height_def by (rule next_multiple_unat)
  show "get_next_adjustment_height b m h = Some n \<Longrightarrow> h \<le> n \<Longrightarrow>
        blocks_until_adjustment b m h = Some (n - h)"
    by (simp add: blocks_until_adjustment_def sub_w_exact word_le_nat_alt)
  show "dm_adjustment_interval m = 0 \<Longrightarrow> get_next_adjustment_height b m h = None"
    by (simp add: get_next_adjustment_height_def next_multiple_0)
qed

section \<open>The window of block times\<close>

lemma pop_front_to_drop: "pop_front_to n xs = drop (length xs - n) xs"
  by (induction xs) (simp_all add: Suc_diff_le)

lemma calculate_keeps_times:
  "calculate_new_difficulty b now m h = Some (r, m') \<Longrightarrow>
   dm_block_times m' = dm_block_times m \<and> dm_adjustment_interval m' = dm_adjustment_interval m"
  by (auto simp: calculate_new_difficulty_def Let_def split: if_splits bind_splits)

text \<open>The operations of the manager as one step relation.\<close>

inductive dm_step :: "difficulty_manager \<Rightarrow> difficulty_manager \<Rightarrow> bool" where
  record_time: "record_block_time b m h t = Some m' \<Longrightarrow> dm_step m m'"
| recalculate: "calculate_new_difficulty b now m h = Some (r, m') \<Longrightarrow> dm_step m m'"
| override: "dm_step m (set_difficulty m d)"

definition window_ok :: "difficulty_manager \<Rightarrow> bool" where
  "window_ok m \<longleftrightarrow> length (dm_block_times m) \<le> unat (dm_adjustment_interval m) + 1"

lemma window_ok_step: "dm_step m m' \<Longrightarrow> window_ok m \<Longrightarrow> window_ok m'"
proof (induction rule: dm_step.induct)
  case (record_time b m h t m')
  then obtain keep where k: "add_w b (dm_adjustment_interval m) 1 = Some keep"
    and m': "m' = m\<lparr>dm_block_times := pop_front_to (unat keep)
                     (dm_block_times m @ [\<lparr>bt_height = h, bt_timestamp = t\<rparr>])\<rparr>"
    by (auto simp: record_block_time_def Let_def split: bind_splits)
  have "unat keep \<le> unat (dm_adjustment_interval m) + 1"
    using add_w_Some [OF k] by (simp add: unat_word_ariths)
  then show ?case by (simp add: m' window_ok_def pop_front_to_drop)
next
  case (recalculate b now m h r m')
  then show ?case using calculate_keeps_times [of b now m h r m'] by (simp add: window_ok_def)
next
  case (override m d)
  then show ?case by (simp add: window_ok_def set_difficulty_def)
qed

text \<open>
  Whatever sequence of operations runs on a new manager, in either build, the window
  holds at most \<open>adjustment_interval + 1\<close> block times.
\<close>
theorem window_bounded:
  assumes "dm_step\<^sup>*\<^sup>* (new_difficulty_manager d interval t lo hi) m"
  shows "length (dm_block_times m) \<le> unat (dm_adjustment_interval m) + 1"
proof -
  from assms have "window_ok m"
  proof (induction rule: rtranclp_induct)
    case base
    show ?case by (simp add: new_difficulty_manager_def window_ok_def)
  next
    case (step m m')
    then show ?case by (blast intro: window_ok_step)
  qed
  then show ?thesis by (simp add: window_ok_def)
qed

section \<open>Adjustments\<close>

lemma rne_quarter: "rne (1 / 4) = 1 / 4"
  using rne_exact [OF f64_exact_scale [OF f64_exact_nat [of 1], of "- 2"]]
  by (simp add: power_int_minus)

lemma f_clamp_Num:
  "lo \<le> hi \<Longrightarrow> f_clamp (Num x) (Num lo) (Num hi) = Num (min (max x lo) hi)"
  by (auto simp: f_clamp_def f_lt_def min_def max_def)

text \<open>The adjustment after the differences have been formed.\<close>

lemma calculate_new_eq:
  assumes len: "unat (dm_adjustment_interval m) \<le> length (dm_block_times m)"
    and ne: "dm_block_times m \<noteq> []"
    and blocks: "sub_w b (bt_height (last (dm_block_times m))) (bt_height (hd (dm_block_times m))) = Some blocks"
    and secs: "sub_w b (bt_timestamp (last (dm_block_times m)))
                 (bt_timestamp (hd (dm_block_times m))) = Some secs"
    and ms: "mul_w b secs 1000 = Some ms" and nz: "secs \<noteq> 0"
    and fits: "unat blocks * unat (dm_target_block_time_secs m) * 1000 < 2 ^ 64"
    and four: "dm_max_adjustment_ratio m = Num 4"
    and d: "d = min (max (kadena_raw (dm_current_difficulty m)
                  (kadena_ratio (unat blocks * unat (dm_target_block_time_secs m)) (unat secs)))
                (dm_min_difficulty m)) (dm_max_difficulty m)"
  shows "calculate_new_difficulty b now m h = Some (Inr d,
           m\<lparr>dm_adjustment_history := dm_adjustment_history m @
               [new_adjustment_record now h (dm_current_difficulty m) d
                  (Num (kadena_ratio (unat blocks * unat (dm_target_block_time_secs m)) (unat secs)))
                  blocks ms (blocks * dm_target_block_time_secs m * 1000)],
             dm_current_difficulty := d\<rparr>)"
proof -
  let ?e = "blocks * dm_target_block_time_secs m"
  have "unat blocks * unat (dm_target_block_time_secs m) < 2 ^ LENGTH(64)"
    using fits unfolding len_num64 by linarith
  then have e: "mul_w b blocks (dm_target_block_time_secs m) = Some ?e"
    and ue: "unat ?e = unat blocks * unat (dm_target_block_time_secs m)"
    by (rule mul_w_exact, rule unat_mul_exact)
  have "unat ?e * unat (1000 :: u64) < 2 ^ LENGTH(64)" unfolding ue using fits by simp
  then have e1000: "mul_w b ?e 1000 = Some (?e * 1000)" by (rule mul_w_exact)
  have "0 < unat secs" using nz by (simp add: unat_gt_0)
  then have t: "rne (of_nat (unat secs)) \<noteq> 0"
    by (rule rne_of_nat_pos [THEN less_imp_neq, THEN not_sym])
  have ratio: "f_div (f_of_w ?e) (f_of_w secs) =
      Num (rne (rne (of_nat (unat blocks * unat (dm_target_block_time_secs m))) /
                rne (of_nat (unat secs))))"
    unfolding f_of_w_Num ue f_div.simps using t by (rule if_not_P)
  have clamp: "f_clamp (f_div (f_of_w ?e) (f_of_w secs))
        (f_div (Num 1) (dm_max_adjustment_ratio m)) (dm_max_adjustment_ratio m) =
      Num (kadena_ratio (unat blocks * unat (dm_target_block_time_secs m)) (unat secs))"
    unfolding ratio four kadena_ratio_def by (simp add: rne_quarter f_clamp_Num)
  have raw: "(f_to_w (f_mul (f_of_w (dm_current_difficulty m)) (Num r)) :: u64) =
      kadena_raw (dm_current_difficulty m) r" for r
    by (simp only: f_of_w_Num f_mul.simps kadena_raw_def)
  show ?thesis
    using len ne nz
    by (simp add: calculate_new_difficulty_def Let_def blocks secs ms e e1000 clamp raw d)
qed

text \<open>Seconds and milliseconds give the same ratio as long as the products are exact.\<close>

lemma kadena_ratio_scale:
  assumes "1000 * e < 2 ^ 53" and "1000 * t < 2 ^ 53"
  shows "kadena_ratio (1000 * e) (1000 * t) = kadena_ratio e t"
proof -
  have "rne (of_nat (1000 * e)) = 1000 * of_nat e" "rne (of_nat (1000 * t)) = 1000 * of_nat t"
    using rne_of_nat_exact [OF assms(1)] rne_of_nat_exact [OF assms(2)]
    by (simp_all only: of_nat_mult of_nat_numeral)
  moreover have "rne (of_nat e) = of_nat e" "rne (of_nat t) = of_nat t"
    using assms by (simp_all add: rne_of_nat_exact)
  ultimately show ?thesis by (simp only: kadena_ratio_def mult_divide_mult_cancel_left_if) simp
qed

definition same_limits :: "difficulty_manager \<Rightarrow> pow_config \<Rightarrow> bool" where
  "same_limits m cfg \<longleftrightarrow>
     min_difficulty cfg = dm_min_difficulty m \<and> max_difficulty cfg = dm_max_difficulty m \<and>
     target_block_time_ms cfg = 1000 * dm_target_block_time_secs m \<and>
     unat (dm_target_block_time_secs m) * 1000 < 2 ^ 64 \<and> dm_max_adjustment_ratio m = Num 4"

text \<open>
  C30: On a full window whose heights and timestamps increase, the manager computes the
  difficulty that the stateless Kadena-style calculator computes from the same period, in
  seconds where the calculator uses milliseconds, and records it: the current difficulty
  is replaced and one record is appended to the history.
\<close>
theorem manager_agrees_with_calculator:
  assumes len: "unat (dm_adjustment_interval m) \<le> length (dm_block_times m)"
    and win: "dm_block_times m \<noteq> []" "first = hd (dm_block_times m)" "latest = last (dm_block_times m)"
    and inc: "bt_height first < bt_height latest" "bt_timestamp first < bt_timestamp latest"
    and exact_t: "1000 * (unat (bt_timestamp latest) - unat (bt_timestamp first)) < 2 ^ 53"
    and exact_e: "1000 * ((unat (bt_height latest) - unat (bt_height first)) *
                          unat (dm_target_block_time_secs m)) < 2 ^ 53"
    and cfg: "same_limits m cfg"
  shows "\<exists>d m'. calculate_new_difficulty b now m h = Some (Inr d, m') \<and>
           adjust_difficulty_kadena_style b cfg (dm_current_difficulty m)
             (bt_height latest - bt_height first)
             (1000 * (bt_timestamp latest - bt_timestamp first)) = Some (Inr d) \<and>
           dm_current_difficulty m' = d \<and> dm_block_times m' = dm_block_times m \<and>
           length (dm_adjustment_history m') = length (dm_adjustment_history m) + 1"
proof -
  let ?n = "bt_height latest - bt_height first" and ?s = "bt_timestamp latest - bt_timestamp first"
  let ?t = "dm_target_block_time_secs m"
  have le: "unat (bt_height first) \<le> unat (bt_height latest)"
    "unat (bt_timestamp first) \<le> unat (bt_timestamp latest)"
    using inc by (simp_all add: word_less_nat_alt)
  note u = unat_sub_exact [OF le(1)] unat_sub_exact [OF le(2)]
  have nz: "?n \<noteq> 0" "?s \<noteq> 0" using inc by auto
  have s1000: "1000 * unat ?s < 2 ^ 53" using exact_t by (simp only: u)
  have e1000: "1000 * (unat ?n * unat ?t) < 2 ^ 53" using exact_e by (simp only: u)
  have ms: "mul_w b ?s 1000 = Some (?s * 1000)"
    using s1000 by (intro mul_w_exact) simp
  have ums: "unat (1000 * ?s) = 1000 * unat ?s"
    using s1000 by (subst unat_mul_exact) simp_all
  have ums0: "1000 * ?s \<noteq> 0"
  proof
    assume "1000 * ?s = 0"
    then have "1000 * unat ?s = 0" using ums by (metis unat_0)
    with nz(2) show False by (simp add: unat_eq_zero)
  qed
  have ut: "unat (target_block_time_ms cfg) = 1000 * unat ?t"
    using cfg by (simp add: same_limits_def unat_mul_exact)
  have lims: "min_difficulty cfg = dm_min_difficulty m" "max_difficulty cfg = dm_max_difficulty m"
    "dm_max_adjustment_ratio m = Num 4"
    using cfg by (simp_all add: same_limits_def)
  have ratio: "kadena_ratio (unat ?n * unat (target_block_time_ms cfg)) (unat (1000 * ?s)) =
      kadena_ratio (unat ?n * unat ?t) (unat ?s)"
    using kadena_ratio_scale [OF e1000 s1000] by (simp only: ut ums mult.left_commute)
  have "unat ?n * unat (target_block_time_ms cfg) < 2 ^ 64"
    using e1000 by (simp add: ut mult.left_commute)
  note calc = kadena_eq [OF nz(1) ums0 this, of b "dm_current_difficulty m", unfolded ratio lims]
  have "unat ?n * unat ?t * 1000 < 2 ^ 64" using e1000 by simp
  from calculate_new_eq [OF len win(1) sub_w_exact [OF le(1) [unfolded win(2,3)]]
      sub_w_exact [OF le(2) [unfolded win(2,3)]] ms [unfolded win(2,3)] nz(2) [unfolded win(2,3)]
      this [unfolded win(2,3)] lims(3) refl, of now h]
  show ?thesis using calc by (simp add: win(2,3))
qed

definition sample_manager :: difficulty_manager where
  "sample_manager = (new_difficulty_manager 1000000 2 30 1000 (- 1))
     \<lparr>dm_block_times := [\<lparr>bt_height = 1, bt_timestamp = 1000\<rparr>, \<lparr>bt_height = 2, bt_timestamp = 1010\<rparr>,
                         \<lparr>bt_height = 3, bt_timestamp = 1060\<rparr>]\<rparr>"

definition reordered_manager :: difficulty_manager where
  "reordered_manager = (new_difficulty_manager 1000000 2 30 1000 (- 1))
     \<lparr>dm_block_times := [\<lparr>bt_height = 1, bt_timestamp = 1000\<rparr>, \<lparr>bt_height = 2, bt_timestamp = 1010\<rparr>,
                         \<lparr>bt_height = 3, bt_timestamp = 999\<rparr>]\<rparr>"

theorem manager_agrees_with_calculator_witness:
  "\<exists>d m'. calculate_new_difficulty Debug 2000 sample_manager 3 = Some (Inr d, m') \<and>
     adjust_difficulty_kadena_style Debug default_config (dm_current_difficulty sample_manager)
       (bt_height (last (dm_block_times sample_manager)) - bt_height (hd (dm_block_times sample_manager)))
       (1000 * (bt_timestamp (last (dm_block_times sample_manager)) -
                bt_timestamp (hd (dm_block_times sample_manager)))) = Some (Inr d) \<and>
     dm_current_difficulty m' = d \<and> dm_block_times m' = dm_block_times sample_manager \<and>
     length (dm_adjustment_history m') = length (dm_adjustment_history sample_manager) + 1"
  by (rule manager_agrees_with_calculator)
     (simp_all add: sample_manager_def new_difficulty_manager_def same_limits_def default_config_def)

theorem window_bounded_witness:
  "length (dm_block_times (set_difficulty (new_difficulty_manager 5 2 30 1 9) 7)) \<le>
   unat (dm_adjustment_interval (set_difficulty (new_difficulty_manager 5 2 30 1 9) 7)) + 1"
  by (rule window_bounded [OF r_into_rtranclp [of dm_step, OF dm_step.override]])

lemma kadena_ratio_quarter:
  assumes "e \<le> 2 ^ 61" and "2 ^ 63 \<le> t"
  shows "kadena_ratio e t = 1 / 4"
proof -
  have p: "rne (of_nat (2 ^ k)) = 2 ^ k" for k
    using rne_exact [OF f64_exact_pow2 [of k]] by simp
  have "rne (of_nat e) \<le> rne (of_nat (2 ^ 61))" "rne (of_nat (2 ^ 63)) \<le> rne (of_nat t)"
    using assms by (simp_all only: rne_mono of_nat_le_iff)
  then have le: "rne (of_nat e) \<le> 2 ^ 61" "2 ^ 63 \<le> rne (of_nat t)"
    by (simp_all only: p)
  have "rne (of_nat e) / rne (of_nat t) \<le> 2 ^ 61 / 2 ^ 63"
    using le by (intro frac_le) simp_all
  then have "rne (rne (of_nat e) / rne (of_nat t)) \<le> 1 / 4"
    using rne_mono [of "rne (of_nat e) / rne (of_nat t)" "1 / 4"] rne_quarter by simp
  then show ?thesis by (simp add: kadena_ratio_def)
qed

text \<open>
  When the last timestamp of the window lies before the first one, which nothing in the
  manager rules out, the unguarded subtraction panics in a debug build, and in a release
  build it wraps to an enormous period, so that the difficulty falls to a quarter (limited
  by the configured range).
\<close>
theorem reordered_timestamps:
  assumes len: "unat (dm_adjustment_interval m) \<le> length (dm_block_times m)"
    and win: "dm_block_times m \<noteq> []" "first = hd (dm_block_times m)" "latest = last (dm_block_times m)"
    and bk: "bt_height first \<le> bt_height latest" "bt_timestamp latest < bt_timestamp first"
      "unat (bt_timestamp first) - unat (bt_timestamp latest) \<le> 2 ^ 63"
    and fits: "1000 * ((unat (bt_height latest) - unat (bt_height first)) *
                 unat (dm_target_block_time_secs m)) < 2 ^ 61"
    and cur: "unat (dm_current_difficulty m) < 2 ^ 53" and four: "dm_max_adjustment_ratio m = Num 4"
  shows "calculate_new_difficulty Debug now m h = None \<and>
         (\<exists>m'. calculate_new_difficulty Release now m h =
            Some (Inr (min (max (dm_current_difficulty m div 4) (dm_min_difficulty m))
                           (dm_max_difficulty m)), m'))"
proof
  let ?n = "bt_height latest - bt_height first" and ?s = "bt_timestamp latest - bt_timestamp first"
  have h: "unat (bt_height first) \<le> unat (bt_height latest)"
    and t: "unat (bt_timestamp latest) < unat (bt_timestamp first)"
    using bk by (simp_all add: word_le_nat_alt word_less_nat_alt)
  show "calculate_new_difficulty Debug now m h = None"
    using len win(1) sub_w_exact [OF h, of Debug] t
    by (simp add: calculate_new_difficulty_def Let_def win(2,3) sub_w_def)
  have n: "unat ?n = unat (bt_height latest) - unat (bt_height first)" by (rule unat_sub_exact [OF h])
  have "unat ?s = 2 ^ 64 + unat (bt_timestamp latest) - unat (bt_timestamp first)"
    using t by (simp add: unat_sub_if' not_le)
  with bk(3) t have s: "2 ^ 63 \<le> unat ?s" by simp
  then have "?s \<noteq> 0" by (metis not_numeral_le_zero power_eq_0_iff unat_0 le_zero_eq zero_neq_numeral)
  have e: "unat ?n * unat (dm_target_block_time_secs m) * 1000 < 2 ^ 64"
    "unat ?n * unat (dm_target_block_time_secs m) \<le> 2 ^ 61"
    using fits unfolding n by (simp_all add: mult.commute)
  have "kadena_raw (dm_current_difficulty m) (1 / 4) = dm_current_difficulty m div 4"
    using kadena_raw_exact(3) [OF cur] by (simp add: word_unat_eq_iff unat_div)
  then show "\<exists>m'. calculate_new_difficulty Release now m h =
      Some (Inr (min (max (dm_current_difficulty m div 4) (dm_min_difficulty m))
                     (dm_max_difficulty m)), m')"
    using calculate_new_eq [OF len win(1) sub_w_Release sub_w_Release mul_w_Release
        \<open>?s \<noteq> 0\<close> [unfolded win(2,3)] e(1) [unfolded win(2,3)] four refl, of now h,
        folded win(2,3), unfolded kadena_ratio_quarter [OF e(2) s]]
    by simp
qed

theorem reordered_timestamps_witness:
  "calculate_new_difficulty Debug 2000 reordered_manager 3 = None \<and>
   (\<exists>m'. calculate_new_difficulty Release 2000 reordered_manager 3 =
      Some (Inr (min (max (dm_current_difficulty reordered_manager div 4)
                          (dm_min_difficulty reordered_manager))
                     (dm_max_difficulty reordered_manager)), m'))"
  by (rule reordered_timestamps [OF _ _ refl refl])
     (simp_all add: reordered_manager_def new_difficulty_manager_def)

text \<open>
  The next adjustment height is the least multiple of the interval above the current
  height, \<open>should_adjust\<close> holds there and at no height before it, and
  \<open>blocks_until_adjustment\<close> is the positive distance to it, at most one interval.
\<close>
theorem next_adjustment_least:
  assumes "dm_adjustment_interval m \<noteq> 0" and "unat h + unat (dm_adjustment_interval m) < 2 ^ 64"
  shows "\<exists>n. get_next_adjustment_height b m h = Some n \<and> dm_should_adjust m n \<and> h < n \<and>
             (\<forall>k. h < k \<and> dm_should_adjust m k \<longrightarrow> n \<le> k) \<and>
             blocks_until_adjustment b m h = Some (n - h) \<and> 0 < unat (n - h) \<and>
             unat (n - h) \<le> unat (dm_adjustment_interval m)"
  using assms by (rule dm.next_due_least)

theorem next_adjustment_least_witness:
  "\<exists>n. get_next_adjustment_height Debug sample_manager 3 = Some n \<and> dm_should_adjust sample_manager n \<and>
       3 < n \<and> blocks_until_adjustment Debug sample_manager 3 = Some (n - 3)"
  using next_adjustment_least [of sample_manager 3 Debug]
  by (auto simp: sample_manager_def new_difficulty_manager_def)

end
