(* ===== verification/Hash_Map.thy ===== *)
theory Hash_Map
  imports Prelude "HOL-Library.AList"
begin

text \<open>
  Rust's \<open>HashMap\<close>, as far as the crate uses it. The interface is the locale
  \<open>hash_map\<close>: lookups, the entries as a list with distinct keys in some order (the
  iteration order, which Rust leaves open), and the laws of \<open>insert\<close> and \<open>remove\<close>. The
  lemmas about sums over the values are proved once from those laws. The model's maps are
  association lists (\<open>hmap\<close>), for which the locale is interpreted at the end.
\<close>

locale hash_map =
  fixes lookup :: "'m \<Rightarrow> 'k \<Rightarrow> 'v option"
    and insert :: "'k \<Rightarrow> 'v \<Rightarrow> 'm \<Rightarrow> 'm"
    and remove :: "'k \<Rightarrow> 'm \<Rightarrow> 'm"
    and entries :: "'m \<Rightarrow> ('k \<times> 'v) list"
    and invar :: "'m \<Rightarrow> bool"
  assumes lookup_insert: "invar m \<Longrightarrow> lookup (insert k v m) = (lookup m)(k \<mapsto> v)"
    and lookup_remove: "invar m \<Longrightarrow> lookup (remove k m) = (lookup m)(k := None)"
    and lookup_entries: "invar m \<Longrightarrow> lookup m = map_of (entries m)"
    and distinct_entries: "invar m \<Longrightarrow> distinct (map fst (entries m))"
    and invar_insert: "invar m \<Longrightarrow> invar (insert k v m)"
    and invar_remove: "invar m \<Longrightarrow> invar (remove k m)"
begin

text \<open>The sum of a measure of the values, as the code's \<open>values().map(f).sum()\<close>.\<close>

lemma entries_set: "invar m \<Longrightarrow> (k, v) \<in> set (entries m) \<longleftrightarrow> lookup m k = Some v"
  using distinct_entries [of m] by (simp add: lookup_entries)

lemma total_as_sum:
  fixes f :: "'v \<Rightarrow> 'b::comm_monoid_add"
  assumes "invar m"
  shows "(\<Sum>(k, v) \<leftarrow> entries m. f v) = (\<Sum>k \<in> dom (lookup m). f (the (lookup m k)))"
proof -
  have d: "distinct (map fst (entries m))" using assms by (rule distinct_entries)
  then have "distinct (entries m)" by (simp add: distinct_map)
  then have "(\<Sum>(k, v) \<leftarrow> entries m. f v) = (\<Sum>(k, v) \<in> set (entries m). f v)"
    by (simp add: sum_list_distinct_conv_sum_set)
  also have "\<dots> = (\<Sum>k \<in> fst ` set (entries m). f (the (lookup m k)))"
  proof (subst sum.reindex)
    show "inj_on fst (set (entries m))" using d by (simp add: distinct_map)
    show "(\<Sum>(k, v) \<in> set (entries m). f v) =
          sum ((\<lambda>k. f (the (lookup m k))) \<circ> fst) (set (entries m))"
      by (rule sum.cong) (auto simp: entries_set [OF assms])
  qed
  also have "fst ` set (entries m) = dom (lookup m)"
    using assms by (simp add: lookup_entries dom_map_of_conv_image_fst)
  finally show ?thesis .
qed

lemma finite_dom: "invar m \<Longrightarrow> finite (dom (lookup m))"
  by (simp add: lookup_entries finite_dom_map_of)

lemma total_insert:
  fixes f :: "'v \<Rightarrow> 'b::comm_monoid_add"
  assumes "invar m"
  shows "(\<Sum>(k', v') \<leftarrow> entries (insert k v m). f v') +
           (case lookup m k of None \<Rightarrow> 0 | Some w \<Rightarrow> f w) =
         (\<Sum>(k', v') \<leftarrow> entries m. f v') + f v"
proof -
  let ?old = "\<lambda>k. f (the (lookup m k))"
  let ?rest = "dom (lookup m) - {k}"
  have fin: "finite (dom (lookup m))" using assms by (rule finite_dom)
  have "(\<Sum>(k', v') \<leftarrow> entries (insert k v m). f v') =
        (\<Sum>k' \<in> Set.insert k (dom (lookup m)). f (the (((lookup m)(k \<mapsto> v)) k')))"
    using assms by (simp add: total_as_sum invar_insert lookup_insert)
  also have "\<dots> = f v + (\<Sum>k' \<in> ?rest. f (the (((lookup m)(k \<mapsto> v)) k')))"
    using fin by (subst sum.insert_remove) auto
  also have "(\<Sum>k' \<in> ?rest. f (the (((lookup m)(k \<mapsto> v)) k'))) = sum ?old ?rest"
    by (rule sum.cong) auto
  finally have new: "(\<Sum>(k', v') \<leftarrow> entries (insert k v m). f v') = f v + sum ?old ?rest" .
  have "(\<Sum>(k', v') \<leftarrow> entries m. f v') =
        (case lookup m k of None \<Rightarrow> 0 | Some w \<Rightarrow> f w) + sum ?old ?rest"
  proof (cases "lookup m k")
    case None
    then have "?rest = dom (lookup m)" by auto
    with None assms show ?thesis by (simp add: total_as_sum)
  next
    case (Some w)
    then have "k \<in> dom (lookup m)" by auto
    with fin have "sum ?old (dom (lookup m)) = ?old k + sum ?old ?rest" by (rule sum.remove)
    with Some assms show ?thesis by (simp add: total_as_sum)
  qed
  with new show ?thesis by (simp add: ac_simps)
qed

lemma length_insert:
  assumes "invar m"
  shows "length (entries (insert k v m)) =
         (if lookup m k = None then Suc (length (entries m)) else length (entries m))"
proof -
  have len: "length (entries x) = (\<Sum>(k, v) \<leftarrow> entries x. (1::nat))" for x
    by (simp add: case_prod_beta' sum_list_triv)
  have "length (entries (insert k v m)) + (case lookup m k of None \<Rightarrow> 0 | Some w \<Rightarrow> 1) =
        length (entries m) + 1"
    using total_insert [OF assms, of "\<lambda>_. 1::nat" k v] by (simp only: len)
  then show ?thesis by (auto split: option.splits)
qed

lemma length_remove_le: "invar m \<Longrightarrow> length (entries (remove k m)) \<le> length (entries m)"
proof -
  assume inv: "invar m"
  have len: "length (entries x) = card (dom (lookup x))" if "invar x" for x
    using distinct_card [OF distinct_entries [OF that]] that
    by (simp add: lookup_entries dom_map_of_conv_image_fst)
  have "dom (lookup (remove k m)) \<subseteq> dom (lookup m)" using inv by (auto simp: lookup_remove)
  then show ?thesis using inv finite_dom by (simp add: len invar_remove card_mono)
qed

end

section \<open>The model's maps\<close>

type_synonym ('k, 'v) hmap = "('k \<times> 'v) list"

abbreviation hm_get :: "('k, 'v) hmap \<Rightarrow> 'k \<Rightarrow> 'v option" where
  "hm_get \<equiv> map_of"

abbreviation hm_insert :: "'k \<Rightarrow> 'v \<Rightarrow> ('k, 'v) hmap \<Rightarrow> ('k, 'v) hmap" where
  "hm_insert \<equiv> AList.update"

abbreviation hm_remove :: "'k \<Rightarrow> ('k, 'v) hmap \<Rightarrow> ('k, 'v) hmap" where
  "hm_remove \<equiv> AList.delete"

abbreviation hm_contains :: "('k, 'v) hmap \<Rightarrow> 'k \<Rightarrow> bool" where
  "hm_contains m k \<equiv> map_of m k \<noteq> None"

abbreviation hm_values :: "('k, 'v) hmap \<Rightarrow> 'v list" where
  "hm_values \<equiv> map snd"

definition hm_invar :: "('k, 'v) hmap \<Rightarrow> bool" where
  "hm_invar m \<longleftrightarrow> distinct (map fst m)"

lemma hm_get_insert: "hm_get (hm_insert k v m) = (hm_get m)(k \<mapsto> v)"
  by (rule update_conv')

lemma hm_get_remove: "hm_get (hm_remove k m) = (hm_get m)(k := None)"
  by (rule delete_conv')

interpretation hm: hash_map map_of AList.update AList.delete "\<lambda>m. m" hm_invar
  by unfold_locales
     (simp_all add: hm_invar_def hm_get_insert hm_get_remove distinct_update distinct_delete)

lemma hm_invar_empty [simp]: "hm_invar []"
  by (simp add: hm_invar_def)

lemma hm_invar_insert [simp]: "hm_invar m \<Longrightarrow> hm_invar (hm_insert k v m)"
  by (rule hm.invar_insert)

lemma hm_invar_remove [simp]: "hm_invar m \<Longrightarrow> hm_invar (hm_remove k m)"
  by (rule hm.invar_remove)

lemma hm_total_insert:
  fixes f :: "'v \<Rightarrow> nat"
  assumes "hm_invar m"
  shows "sum_list (map f (hm_values (hm_insert k v m))) +
           (case hm_get m k of None \<Rightarrow> 0 | Some w \<Rightarrow> f w) =
         sum_list (map f (hm_values m)) + f v"
  using hm.total_insert [OF assms, of f k v] by (simp add: case_prod_beta' comp_def)

lemma hm_values_in: "hm_get m k = Some v \<Longrightarrow> v \<in> set (hm_values m)"
  by (force dest: map_of_SomeD)

lemma hm_in_values: "hm_invar m \<Longrightarrow> v \<in> set (hm_values m) \<Longrightarrow> \<exists>k. hm_get m k = Some v"
  by (auto simp: hm_invar_def)

lemma hm_value_le_total:
  fixes f :: "'v \<Rightarrow> nat"
  assumes "hm_get m k = Some v"
  shows "f v \<le> sum_list (map f (hm_values m))"
  using hm_values_in [OF assms] by (intro member_le_sum_list) auto

end
