(* ===== verification/Rewards.thy ===== *)
theory Rewards
  imports Pow_Config Schedule
begin

text \<open>
  The block reward calculator (\<open>src/rewards.rs\<close>): the halving reward, the total with fees
  and the halving schedule. Its only state is the configuration.
\<close>

record block_reward =
  rw_block_height :: u64
  rw_base_reward :: u128
  rw_transaction_fees :: u128
  rw_total_miner_reward :: u128

definition new_block_reward :: "build \<Rightarrow> u64 \<Rightarrow> u128 \<Rightarrow> u128 \<Rightarrow> block_reward pow_result option" where
  "new_block_reward b block_height base_reward transaction_fees = do {
     total_miner_reward \<leftarrow> add_w b base_reward transaction_fees;
     Some (Inr \<lparr>rw_block_height = block_height, rw_base_reward = base_reward,
                rw_transaction_fees = transaction_fees,
                rw_total_miner_reward = total_miner_reward\<rparr>)
   }"

definition get_miner_reward :: "block_reward \<Rightarrow> u128" where
  "get_miner_reward r = rw_total_miner_reward r"

text \<open>The halving expression, with the division that panics for an interval of zero.\<close>

definition calculate_base_reward :: "pow_config \<Rightarrow> u64 \<Rightarrow> u128 option" where
  "calculate_base_reward cfg block_height = do {
     halvings \<leftarrow> div_w block_height (halving_interval cfg);
     Some (if halvings \<ge> 64 then 0 else drop_bit (unat halvings) (base_block_reward cfg))
   }"

definition calculate_total_reward ::
    "build \<Rightarrow> pow_config \<Rightarrow> u64 \<Rightarrow> u128 \<Rightarrow> block_reward pow_result option" where
  "calculate_total_reward b cfg block_height transaction_fees = do {
     base_reward \<leftarrow> calculate_base_reward cfg block_height;
     new_block_reward b block_height base_reward transaction_fees
   }"

definition calculate_miner_reward ::
    "build \<Rightarrow> pow_config \<Rightarrow> u64 \<Rightarrow> u128 \<Rightarrow> u128 pow_result option" where
  "calculate_miner_reward b cfg block_height transaction_fees = do {
     reward \<leftarrow> calculate_total_reward b cfg block_height transaction_fees;
     Some (case reward of Inl e \<Rightarrow> Inl e | Inr r \<Rightarrow> Inr (get_miner_reward r))
   }"

definition is_halving_block :: "pow_config \<Rightarrow> u64 \<Rightarrow> bool" where
  "is_halving_block cfg block_height \<longleftrightarrow>
     block_height > 0 \<and> is_multiple_of block_height (halving_interval cfg)"

definition get_next_halving_height :: "build \<Rightarrow> pow_config \<Rightarrow> u64 \<Rightarrow> u64 option" where
  "get_next_halving_height b cfg current_height =
     next_multiple b (halving_interval cfg) current_height"

definition blocks_until_halving :: "build \<Rightarrow> pow_config \<Rightarrow> u64 \<Rightarrow> u64 option" where
  "blocks_until_halving b cfg current_height = do {
     n \<leftarrow> get_next_halving_height b cfg current_height;
     sub_w b n current_height
   }"

section \<open>The two contracts\<close>

lemma unat_shift_reward:
  "unat (if 64 \<le> (q :: u64) then 0 else drop_bit (unat q) base :: u128) =
   (if 64 \<le> unat q then 0 else unat base div 2 ^ unat q)"
  using unat_drop_bit_eq [of "unat q" base]
  by (simp add: word_le_nat_alt drop_bit_eq_div [where 'a = nat] del: drop_bit_eq_div)

interpretation rc: halving_reward "base_block_reward cfg" "halving_interval cfg"
    "calculate_base_reward cfg" for cfg
proof unfold_locales
  fix h
  show "halving_interval cfg \<noteq> 0 \<Longrightarrow> map_option unat (calculate_base_reward cfg h) =
      Some (if 64 \<le> unat h div unat (halving_interval cfg) then 0
            else unat (base_block_reward cfg) div 2 ^ (unat h div unat (halving_interval cfg)))"
    using unat_shift_reward [of "h div halving_interval cfg" "base_block_reward cfg"]
    by (simp add: calculate_base_reward_def div_w_exact unat_div)
  show "halving_interval cfg = 0 \<Longrightarrow> calculate_base_reward cfg h = None"
    by (simp add: calculate_base_reward_def div_w_def)
qed

interpretation rs: schedule "halving_interval cfg" "is_halving_block cfg"
    "get_next_halving_height b cfg" "blocks_until_halving b cfg" for cfg b
proof unfold_locales
  fix h n
  show "halving_interval cfg \<noteq> 0 \<Longrightarrow>
        is_halving_block cfg h \<longleftrightarrow> 0 < unat h \<and> unat (halving_interval cfg) dvd unat h"
    by (auto simp: is_halving_block_def is_multiple_of_dvd unat_gt_0 word_neq_0_conv)
  show "halving_interval cfg \<noteq> 0 \<Longrightarrow> unat h + unat (halving_interval cfg) < 2 ^ 64 \<Longrightarrow>
        map_option unat (get_next_halving_height b cfg h) =
        Some ((unat h div unat (halving_interval cfg) + 1) * unat (halving_interval cfg))"
    unfolding get_next_halving_height_def by (rule next_multiple_unat)
  show "get_next_halving_height b cfg h = Some n \<Longrightarrow> h \<le> n \<Longrightarrow>
        blocks_until_halving b cfg h = Some (n - h)"
    by (simp add: blocks_until_halving_def sub_w_exact word_le_nat_alt)
  show "halving_interval cfg = 0 \<Longrightarrow> get_next_halving_height b cfg h = None"
    by (simp add: get_next_halving_height_def next_multiple_0)
qed

section \<open>Properties\<close>

text \<open>The rewards of the blocks below a height, added up as the chain pays them.\<close>

definition issued_below :: "pow_config \<Rightarrow> nat \<Rightarrow> nat" where
  "issued_below cfg n = (\<Sum>h < n. unat (the (calculate_base_reward cfg (of_nat h))))"

lemma issued_below_eq:
  assumes "halving_interval cfg \<noteq> 0" and "n \<le> 2 ^ 64"
  shows "issued_below cfg n = (\<Sum>h < n. rc.reward_nat cfg h)"
  unfolding issued_below_def
proof (rule sum.cong)
  fix h assume "h \<in> {..<n}"
  with assms(2) have "unat (of_nat h :: u64) = h" by (simp add: unat_of_nat)
  with rc.reward_reward_nat [OF assms(1), of "of_nat h"]
  show "unat (the (calculate_base_reward cfg (of_nat h))) = rc.reward_nat cfg h" by auto
qed simp

text \<open>
  C32: With a non-zero halving interval the base reward never increases with the height, and
  however many blocks are mined the rewards issued stay below twice the base reward times
  the interval.
\<close>
theorem issuance_bounded:
  assumes "halving_interval cfg \<noteq> 0" and "base_block_reward cfg \<noteq> 0" and "n \<le> 2 ^ 64"
  shows "issued_below cfg n < 2 * unat (halving_interval cfg) * unat (base_block_reward cfg) \<and>
         (\<forall>h h'. h \<le> h' \<longrightarrow> (\<exists>r r'. calculate_base_reward cfg h = Some r \<and>
            calculate_base_reward cfg h' = Some r' \<and> r' \<le> r \<and> r \<le> base_block_reward cfg))"
  using rc.issuance_lt_twice_base [OF assms(1,2)] rc.reward_antimono [OF assms(1)]
  by (simp add: issued_below_eq [OF assms(1,3)])

theorem issuance_bounded_witness:
  "issued_below default_config 100 <
     2 * unat (halving_interval default_config) * unat (base_block_reward default_config) \<and>
   (\<exists>r r'. calculate_base_reward default_config 0 = Some r \<and>
      calculate_base_reward default_config 210000 = Some r' \<and> r' \<le> r \<and>
      r \<le> base_block_reward default_config)"
proof -
  have "issued_below default_config 100 <
     2 * unat (halving_interval default_config) * unat (base_block_reward default_config) \<and>
   (\<forall>h h'. h \<le> h' \<longrightarrow> (\<exists>r r'. calculate_base_reward default_config h = Some r \<and>
      calculate_base_reward default_config h' = Some r' \<and> r' \<le> r \<and>
      r \<le> base_block_reward default_config))"
    by (rule issuance_bounded) (simp_all add: default_config_def)
  then show ?thesis using word_zero_le by blast
qed

text \<open>
  Under the default configuration the chain issues exactly 20999999996850000 units in its
  first 64 halving intervals and nothing after them.
\<close>
theorem default_issuance:
  "issued_below default_config (64 * 210000) = 20999999996850000 \<and>
   (\<forall>h. 64 * 210000 \<le> unat h \<longrightarrow> calculate_base_reward default_config h = Some 0)"
proof
  have iv: "halving_interval default_config \<noteq> 0"
    "unat (halving_interval default_config) = 210000"
    "unat (base_block_reward default_config) = 50000000000"
    by (simp_all add: default_config_def)
  have "(\<Sum>h < 64 * 210000. rc.reward_nat default_config h) =
        210000 * (\<Sum>e < 64. 50000000000 div 2 ^ e)"
    using rc.issuance_eras [OF iv(1)] by (simp only: iv(2,3))
  also have "(\<Sum>e < 64. (50000000000 :: nat) div 2 ^ e) = 99999999985"
    unfolding lessThan_atLeast0 atLeastLessThan_upt
    by (subst sum_set_upt_conv_sum_list_nat) (simp add: upt_rec)
  finally show "issued_below default_config (64 * 210000) = 20999999996850000"
    by (simp add: issued_below_eq [OF iv(1)])
  show "\<forall>h. 64 * 210000 \<le> unat h \<longrightarrow> calculate_base_reward default_config h = Some 0"
  proof (intro allI impI)
    fix h :: u64
    assume "64 * 210000 \<le> unat h"
    then have "64 \<le> unat h div 210000" by (simp add: less_eq_div_iff_mult_less_eq)
    then show "calculate_base_reward default_config h = Some 0"
      using rc.reward_eq [OF iv(1), of h] by (auto simp: iv(2) unat_eq_zero)
  qed
qed

theorem default_issuance_witness: "calculate_base_reward default_config 13440000 = Some 0"
  by (rule default_issuance [THEN conjunct2, rule_format]) simp

end
