(* ===== verification/Reward_Distribution.thy ===== *)
theory Reward_Distribution
  imports Hash_Map Rewards
begin

text \<open>
  The reward distribution manager (\<open>src/reward_distribution.rs\<close>): one account per miner, the
  history of block rewards and the total paid out. Methods take and return the manager;
  the clock is the argument \<open>now\<close>. A \<open>Result<_, String>\<close> is a sum with the error text.
\<close>

section \<open>Accounts\<close>

record miner_reward_account =
  ra_address :: string
  ra_total_rewards :: u128
  ra_pending_rewards :: u128
  ra_paid_rewards :: u128
  ra_blocks_found :: u64
  ra_last_reward_time :: u64
  ra_created_at :: u64

definition new_reward_account :: "time \<Rightarrow> string \<Rightarrow> miner_reward_account" where
  "new_reward_account now address =
     \<lparr>ra_address = address, ra_total_rewards = 0, ra_pending_rewards = 0, ra_paid_rewards = 0,
      ra_blocks_found = 0, ra_last_reward_time = now, ra_created_at = now\<rparr>"

definition add_reward :: "time \<Rightarrow> miner_reward_account \<Rightarrow> u128 \<Rightarrow> miner_reward_account" where
  "add_reward now a amount =
     a\<lparr>ra_total_rewards := sat_add (ra_total_rewards a) amount,
       ra_pending_rewards := sat_add (ra_pending_rewards a) amount,
       ra_blocks_found := sat_add (ra_blocks_found a) 1,
       ra_last_reward_time := now\<rparr>"

definition mark_paid :: "miner_reward_account \<Rightarrow> u128 \<Rightarrow> (string + unit) \<times> miner_reward_account" where
  "mark_paid a amount =
     (if ra_pending_rewards a < amount
      then (Inl (''Insufficient pending rewards: '' @ fmt_w (ra_pending_rewards a) @ '' < '' @
                 fmt_w amount), a)
      else (Inr (), a\<lparr>ra_pending_rewards := sat_sub (ra_pending_rewards a) amount,
                      ra_paid_rewards := sat_add (ra_paid_rewards a) amount\<rparr>))"

definition balance :: "miner_reward_account \<Rightarrow> u128" where
  "balance a = sat_sub (ra_total_rewards a) (ra_paid_rewards a)"

section \<open>The manager\<close>

record block_reward_record =
  br_block_height :: u64
  br_block_hash :: string
  br_miner_address :: string
  br_base_reward :: u128
  br_transaction_fees :: u128
  br_total_reward :: u128
  br_timestamp :: u64

definition new_block_reward_record ::
    "time \<Rightarrow> u64 \<Rightarrow> string \<Rightarrow> string \<Rightarrow> u128 \<Rightarrow> u128 \<Rightarrow> block_reward_record" where
  "new_block_reward_record now block_height block_hash miner_address base_reward transaction_fees =
     \<lparr>br_block_height = block_height, br_block_hash = block_hash,
      br_miner_address = miner_address, br_base_reward = base_reward,
      br_transaction_fees = transaction_fees,
      br_total_reward = sat_add base_reward transaction_fees, br_timestamp = now\<rparr>"

record reward_manager =
  rm_accounts :: "(string, miner_reward_account) hmap"
  rm_reward_history :: "block_reward_record list"
  rm_total_distributed :: u128
  rm_halving_interval :: u64
  rm_base_block_reward :: u128

definition new_reward_manager :: "u64 \<Rightarrow> u128 \<Rightarrow> reward_manager" where
  "new_reward_manager interval base =
     \<lparr>rm_accounts = [], rm_reward_history = [], rm_total_distributed = 0,
      rm_halving_interval = interval, rm_base_block_reward = base\<rparr>"

definition calculate_block_reward :: "reward_manager \<Rightarrow> u64 \<Rightarrow> u128 option" where
  "calculate_block_reward m block_height = do {
     halvings \<leftarrow> div_w block_height (rm_halving_interval m);
     Some (if halvings \<ge> 64 then 0 else drop_bit (unat halvings) (rm_base_block_reward m))
   }"

definition record_block_reward ::
    "time \<Rightarrow> reward_manager \<Rightarrow> u64 \<Rightarrow> string \<Rightarrow> string \<Rightarrow> u128 \<Rightarrow>
     ((string + block_reward_record) \<times> reward_manager) option" where
  "record_block_reward now m block_height block_hash miner_address transaction_fees = do {
     base_reward \<leftarrow> calculate_block_reward m block_height;
     let record = new_block_reward_record now block_height block_hash miner_address base_reward
                    transaction_fees;
     let account = (case hm_get (rm_accounts m) miner_address of
                      Some a \<Rightarrow> a | None \<Rightarrow> new_reward_account now miner_address);
     let account' = add_reward now account (br_total_reward record);
     Some (Inr record,
           m\<lparr>rm_accounts := hm_insert miner_address account' (rm_accounts m),
             rm_reward_history := rm_reward_history m @ [record]\<rparr>)
   }"

definition get_miner_account :: "reward_manager \<Rightarrow> string \<Rightarrow> miner_reward_account option" where
  "get_miner_account m address = hm_get (rm_accounts m) address"

definition get_miner_balance :: "reward_manager \<Rightarrow> string \<Rightarrow> u128" where
  "get_miner_balance m address =
     (case hm_get (rm_accounts m) address of Some a \<Rightarrow> balance a | None \<Rightarrow> 0)"

definition get_all_accounts :: "reward_manager \<Rightarrow> miner_reward_account list" where
  "get_all_accounts m = hm_values (rm_accounts m)"

definition process_payout ::
    "reward_manager \<Rightarrow> string \<Rightarrow> u128 \<Rightarrow> (string + unit) \<times> reward_manager" where
  "process_payout m miner_address amount =
     (case hm_get (rm_accounts m) miner_address of
        None \<Rightarrow> (Inl (''Miner account not found: '' @ miner_address), m)
      | Some account \<Rightarrow>
          if balance account < amount
          then (Inl (''Insufficient balance: '' @ fmt_w (balance account) @ '' < '' @ fmt_w amount), m)
          else (case mark_paid account amount of
                  (Inl e, account') \<Rightarrow>
                    (Inl e, m\<lparr>rm_accounts := hm_insert miner_address account' (rm_accounts m)\<rparr>)
                | (Inr _, account') \<Rightarrow>
                    (Inr (), m\<lparr>rm_accounts := hm_insert miner_address account' (rm_accounts m),
                               rm_total_distributed := sat_add (rm_total_distributed m) amount\<rparr>)))"

definition get_miner_reward_history :: "reward_manager \<Rightarrow> string \<Rightarrow> block_reward_record list" where
  "get_miner_reward_history m miner_address =
     filter (\<lambda>r. br_miner_address r = miner_address) (rm_reward_history m)"

record reward_stats =
  rt_total_miners :: nat
  rt_total_blocks_mined :: u64
  rt_total_rewards_earned :: u128
  rt_total_rewards_pending :: u128
  rt_total_rewards_distributed :: u128
  rt_reward_history_size :: nat

definition reward_manager_stats :: "build \<Rightarrow> reward_manager \<Rightarrow> reward_stats option" where
  "reward_manager_stats b m = do {
     total_rewards \<leftarrow> sum_w b (map ra_total_rewards (hm_values (rm_accounts m)));
     total_pending \<leftarrow> sum_w b (map ra_pending_rewards (hm_values (rm_accounts m)));
     total_blocks \<leftarrow> sum_w b (map ra_blocks_found (hm_values (rm_accounts m)));
     Some \<lparr>rt_total_miners = length (rm_accounts m), rt_total_blocks_mined = total_blocks,
           rt_total_rewards_earned = total_rewards, rt_total_rewards_pending = total_pending,
           rt_total_rewards_distributed = rm_total_distributed m,
           rt_reward_history_size = length (rm_reward_history m)\<rparr>
   }"

definition rm_is_halving_block :: "reward_manager \<Rightarrow> u64 \<Rightarrow> bool" where
  "rm_is_halving_block m block_height \<longleftrightarrow>
     block_height > 0 \<and> is_multiple_of block_height (rm_halving_interval m)"

definition rm_get_next_halving_height :: "build \<Rightarrow> reward_manager \<Rightarrow> u64 \<Rightarrow> u64 option" where
  "rm_get_next_halving_height b m current_height =
     next_multiple b (rm_halving_interval m) current_height"

definition rm_blocks_until_halving :: "build \<Rightarrow> reward_manager \<Rightarrow> u64 \<Rightarrow> u64 option" where
  "rm_blocks_until_halving b m current_height = do {
     n \<leftarrow> rm_get_next_halving_height b m current_height;
     sub_w b n current_height
   }"

section \<open>The two contracts\<close>

interpretation rm: halving_reward "rm_base_block_reward m" "rm_halving_interval m"
    "calculate_block_reward m" for m
proof unfold_locales
  fix h
  show "rm_halving_interval m \<noteq> 0 \<Longrightarrow> map_option unat (calculate_block_reward m h) =
      Some (if 64 \<le> unat h div unat (rm_halving_interval m) then 0
            else unat (rm_base_block_reward m) div 2 ^ (unat h div unat (rm_halving_interval m)))"
    using unat_shift_reward [of "h div rm_halving_interval m" "rm_base_block_reward m"]
    by (simp add: calculate_block_reward_def div_w_exact unat_div)
  show "rm_halving_interval m = 0 \<Longrightarrow> calculate_block_reward m h = None"
    by (simp add: calculate_block_reward_def div_w_def)
qed

interpretation rms: schedule "rm_halving_interval m" "rm_is_halving_block m"
    "rm_get_next_halving_height b m" "rm_blocks_until_halving b m" for m b
proof unfold_locales
  fix h n
  show "rm_halving_interval m \<noteq> 0 \<Longrightarrow>
        rm_is_halving_block m h \<longleftrightarrow> 0 < unat h \<and> unat (rm_halving_interval m) dvd unat h"
    by (auto simp: rm_is_halving_block_def is_multiple_of_dvd unat_gt_0 word_neq_0_conv)
  show "rm_halving_interval m \<noteq> 0 \<Longrightarrow> unat h + unat (rm_halving_interval m) < 2 ^ 64 \<Longrightarrow>
        map_option unat (rm_get_next_halving_height b m h) =
        Some ((unat h div unat (rm_halving_interval m) + 1) * unat (rm_halving_interval m))"
    unfolding rm_get_next_halving_height_def by (rule next_multiple_unat)
  show "rm_get_next_halving_height b m h = Some n \<Longrightarrow> h \<le> n \<Longrightarrow>
        rm_blocks_until_halving b m h = Some (n - h)"
    by (simp add: rm_blocks_until_halving_def sub_w_exact word_le_nat_alt)
  show "rm_halving_interval m = 0 \<Longrightarrow> rm_get_next_halving_height b m h = None"
    by (simp add: rm_get_next_halving_height_def next_multiple_0)
qed

section \<open>The ledger invariant\<close>

definition recorded :: "reward_manager \<Rightarrow> nat" where
  "recorded m = sum_list (map (\<lambda>r. unat (br_total_reward r)) (rm_reward_history m))"

definition recorded_for :: "reward_manager \<Rightarrow> string \<Rightarrow> nat" where
  "recorded_for m a = sum_list (map (\<lambda>r. unat (br_total_reward r)) (get_miner_reward_history m a))"

definition total_over :: "(miner_reward_account \<Rightarrow> u128) \<Rightarrow> reward_manager \<Rightarrow> nat" where
  "total_over f m = sum_list (map (\<lambda>a. unat (f a)) (hm_values (rm_accounts m)))"

definition account_ok :: "reward_manager \<Rightarrow> string \<Rightarrow> miner_reward_account \<Rightarrow> bool" where
  "account_ok m a acc \<longleftrightarrow> unat (ra_total_rewards acc) = recorded_for m a \<and>
     unat (ra_pending_rewards acc) + unat (ra_paid_rewards acc) = unat (ra_total_rewards acc)"

definition ledger_ok :: "reward_manager \<Rightarrow> bool" where
  "ledger_ok m \<longleftrightarrow> hm_invar (rm_accounts m) \<and>
     (\<forall>a acc. hm_get (rm_accounts m) a = Some acc \<longrightarrow> account_ok m a acc) \<and>
     (\<forall>a. hm_get (rm_accounts m) a = None \<longrightarrow> recorded_for m a = 0) \<and>
     total_over ra_total_rewards m = recorded m \<and>
     total_over ra_paid_rewards m = unat (rm_total_distributed m)"

lemma account_okD:
  assumes "ledger_ok m" and "hm_get (rm_accounts m) a = Some acc"
  shows "unat (ra_total_rewards acc) = recorded_for m a"
    and "unat (ra_pending_rewards acc) + unat (ra_paid_rewards acc) = unat (ra_total_rewards acc)"
    and "unat (ra_paid_rewards acc) \<le> unat (ra_total_rewards acc)"
    and "balance acc = ra_pending_rewards acc"
proof -
  show t: "unat (ra_total_rewards acc) = recorded_for m a"
    and s: "unat (ra_pending_rewards acc) + unat (ra_paid_rewards acc) = unat (ra_total_rewards acc)"
    using assms by (simp_all add: ledger_ok_def account_ok_def)
  show "unat (ra_paid_rewards acc) \<le> unat (ra_total_rewards acc)" using s by linarith
  show "balance acc = ra_pending_rewards acc"
    using s by (simp only: word_unat_eq_iff balance_def unat_sat_sub)
qed

inductive rm_step :: "reward_manager \<Rightarrow> reward_manager \<Rightarrow> bool" where
  earn: "record_block_reward now m h hash a fees = Some (r, m') \<Longrightarrow> rm_step m m'"
| pay: "process_payout m a n = (r, m') \<Longrightarrow> rm_step m m'"

lemma recorded_for_le: "recorded_for m a \<le> recorded m"
  unfolding recorded_for_def recorded_def get_miner_reward_history_def
  by (induction "rm_reward_history m" arbitrary: m) (auto intro: sum_list_filter_le_nat)

lemma total_over_insert:
  "hm_invar (rm_accounts m) \<Longrightarrow>
   total_over f (m\<lparr>rm_accounts := hm_insert a acc (rm_accounts m)\<rparr>) +
     (case hm_get (rm_accounts m) a of None \<Rightarrow> 0 | Some acc0 \<Rightarrow> unat (f acc0)) =
   total_over f m + unat (f acc)"
  using hm_total_insert [of "rm_accounts m" "\<lambda>a. unat (f a)" a acc] by (simp add: total_over_def)

lemma total_over_cong [simp]:
  "total_over f (m\<lparr>rm_reward_history := h\<rparr>) = total_over f m"
  "total_over f (m\<lparr>rm_total_distributed := d\<rparr>) = total_over f m"
  by (simp_all add: total_over_def)

lemma record_block_reward_Some:
  assumes "record_block_reward now m h hash a fees = Some (r, m')"
  obtains base rcd acc0 where
    "calculate_block_reward m h = Some base"
    "rcd = new_block_reward_record now h hash a base fees" "r = Inr rcd"
    "acc0 = (case hm_get (rm_accounts m) a of Some x \<Rightarrow> x | None \<Rightarrow> new_reward_account now a)"
    "m' = m\<lparr>rm_accounts := hm_insert a (add_reward now acc0 (br_total_reward rcd)) (rm_accounts m),
            rm_reward_history := rm_reward_history m @ [rcd]\<rparr>"
  using assms unfolding record_block_reward_def Let_def by (auto split: bind_splits)

lemma ledger_ok_earn:
  assumes step: "record_block_reward now m h hash a fees = Some (r, m')"
    and ok: "ledger_ok m" and fits: "recorded m' < 2 ^ 128"
  shows "ledger_ok m'"
proof -
  obtain base rcd acc0 where e:
    "rcd = new_block_reward_record now h hash a base fees"
    "acc0 = (case hm_get (rm_accounts m) a of Some x \<Rightarrow> x | None \<Rightarrow> new_reward_account now a)"
    "m' = m\<lparr>rm_accounts := hm_insert a (add_reward now acc0 (br_total_reward rcd)) (rm_accounts m),
            rm_reward_history := rm_reward_history m @ [rcd]\<rparr>"
    using step by (rule record_block_reward_Some)
  let ?w = "br_total_reward rcd" and ?acc = "add_reward now acc0 (br_total_reward rcd)"
  have rec: "recorded m' = recorded m + unat ?w" by (simp add: e(3) recorded_def)
  have rec_for: "recorded_for m' c = recorded_for m c + (if c = a then unat ?w else 0)" for c
    by (simp add: e recorded_for_def get_miner_reward_history_def new_block_reward_record_def)
  have inv: "hm_invar (rm_accounts m)" using ok by (simp add: ledger_ok_def)
  have acc0: "unat (ra_total_rewards acc0) = recorded_for m a"
    "unat (ra_pending_rewards acc0) + unat (ra_paid_rewards acc0) = unat (ra_total_rewards acc0)"
    using ok by (auto simp: e(2) ledger_ok_def account_ok_def new_reward_account_def split: option.splits)
  have small: "unat (ra_total_rewards acc0) + unat ?w < 2 ^ 128"
    using fits recorded_for_le [of m a] unfolding rec acc0(1) by linarith
  have new: "unat (ra_total_rewards ?acc) = unat (ra_total_rewards acc0) + unat ?w"
    "unat (ra_pending_rewards ?acc) = unat (ra_pending_rewards acc0) + unat ?w"
    "ra_paid_rewards ?acc = ra_paid_rewards acc0"
    using small acc0(2) by (simp_all add: add_reward_def unat_sat_add)
  have "account_ok m' a ?acc" using acc0 new by (simp add: account_ok_def rec_for)
  moreover have "account_ok m' c acc" if "c \<noteq> a" "account_ok m c acc" for c acc
    using that by (simp add: account_ok_def rec_for)
  moreover have ins: "total_over f m' + unat (f acc0) = total_over f m + unat (f ?acc)"
    if "\<And>x. unat (f (new_reward_account now x)) = 0" for f
    using total_over_insert [OF inv, of f a ?acc] that
    by (simp add: e(2,3) split: option.splits)
  moreover have "total_over ra_total_rewards m' = recorded m'"
    using ins [of ra_total_rewards] ok new(1)
    by (simp add: rec ledger_ok_def new_reward_account_def)
  moreover have "total_over ra_paid_rewards m' = unat (rm_total_distributed m')"
    using ins [of ra_paid_rewards] ok new(3)
    by (simp add: e(3) ledger_ok_def new_reward_account_def)
  ultimately show ?thesis
    using ok inv rec_for unfolding ledger_ok_def
    by (simp add: e(3) hm_get_insert)
qed

lemma payout_Some:
  assumes "ledger_ok m" and "hm_get (rm_accounts m) a = Some acc"
  shows "process_payout m a n =
    (if ra_pending_rewards acc < n
     then (Inl (''Insufficient balance: '' @ fmt_w (ra_pending_rewards acc) @ '' < '' @ fmt_w n), m)
     else (Inr (), m\<lparr>rm_accounts := hm_insert a
             (acc\<lparr>ra_pending_rewards := ra_pending_rewards acc - n,
                  ra_paid_rewards := ra_paid_rewards acc + n\<rparr>) (rm_accounts m),
             rm_total_distributed := sat_add (rm_total_distributed m) n\<rparr>))"
proof -
  have ok: "unat (ra_total_rewards acc) = unat (ra_pending_rewards acc) + unat (ra_paid_rewards acc)"
    using assms by (metis ledger_ok_def account_ok_def)
  have bal: "balance acc = ra_pending_rewards acc"
    by (simp add: word_unat_eq_iff balance_def unat_sat_sub ok)
  have "unat (ra_paid_rewards acc) + unat n < 2 ^ LENGTH(128)" if "\<not> ra_pending_rewards acc < n"
    using that ok unat_lt_pow [of "ra_total_rewards acc"] by (simp add: word_less_nat_alt)
  moreover have "sat_sub (ra_pending_rewards acc) n = ra_pending_rewards acc - n"
    if "\<not> ra_pending_rewards acc < n" using that by (simp add: sat_sub_def word_less_nat_alt)
  ultimately show ?thesis
    by (simp add: process_payout_def assms(2) bal mark_paid_def sat_add_exact)
qed

lemma account_ok_cong [simp]:
  "account_ok (m\<lparr>rm_accounts := x, rm_total_distributed := d\<rparr>) a acc = account_ok m a acc"
  "recorded (m\<lparr>rm_accounts := x, rm_total_distributed := d\<rparr>) = recorded m"
  "recorded_for (m\<lparr>rm_accounts := x, rm_total_distributed := d\<rparr>) a = recorded_for m a"
  by (simp_all add: account_ok_def recorded_for_def recorded_def get_miner_reward_history_def)

lemma payout_paid:
  assumes ok: "ledger_ok m" and fits: "recorded m < 2 ^ 128"
    and acc: "hm_get (rm_accounts m) a = Some acc" and n: "\<not> ra_pending_rewards acc < n"
    and acc': "acc' = acc\<lparr>ra_pending_rewards := ra_pending_rewards acc - n,
                           ra_paid_rewards := ra_paid_rewards acc + n\<rparr>"
    and m': "m' = m\<lparr>rm_accounts := hm_insert a acc' (rm_accounts m),
                     rm_total_distributed := sat_add (rm_total_distributed m) n\<rparr>"
  shows "ledger_ok m'" and "unat (rm_total_distributed m') = unat (rm_total_distributed m) + unat n"
proof -
  have inv: "hm_invar (rm_accounts m)" using ok by (simp add: ledger_ok_def)
  have sum: "unat (ra_pending_rewards acc) + unat (ra_paid_rewards acc) = unat (ra_total_rewards acc)"
    and rec: "unat (ra_total_rewards acc) = recorded_for m a"
    using ok acc by (auto simp: ledger_ok_def account_ok_def)
  have n': "unat n \<le> unat (ra_pending_rewards acc)" using n by (simp add: word_less_nat_alt)
  have "unat (ra_paid_rewards acc) + unat n < 2 ^ 128"
    using n' sum rec fits recorded_for_le [of m a] by linarith
  then have new: "unat (ra_pending_rewards acc') = unat (ra_pending_rewards acc) - unat n"
    "unat (ra_paid_rewards acc') = unat (ra_paid_rewards acc) + unat n"
    "ra_total_rewards acc' = ra_total_rewards acc"
    using n' by (simp_all add: acc' unat_sub_exact unat_add_exact)
  have ins: "total_over f m' + unat (f acc) = total_over f m + unat (f acc')" for f
    using total_over_insert [OF inv, of f a acc'] acc by (simp add: m')
  have paid: "total_over ra_paid_rewards m' = total_over ra_paid_rewards m + unat n"
    using ins [of ra_paid_rewards] new(2) by simp
  have le: "total_over ra_paid_rewards m' \<le> total_over ra_total_rewards m'"
    unfolding total_over_def
  proof (rule sum_list_mono)
    fix x assume "x \<in> set (hm_values (rm_accounts m'))"
    then obtain c where "hm_get (rm_accounts m') c = Some x"
      using hm_in_values [of "rm_accounts m'" x] inv by (auto simp: m')
    then have "x = acc' \<or> hm_get (rm_accounts m) c = Some x"
      by (auto simp: m' hm_get_insert split: if_splits)
    then show "unat (ra_paid_rewards x) \<le> unat (ra_total_rewards x)"
      using account_okD(3) [OF ok, of c x] new sum n' by auto
  qed
  have total: "total_over ra_total_rewards m' = recorded m"
    using ins [of ra_total_rewards] new(3) ok by (simp add: ledger_ok_def)
  have "unat (rm_total_distributed m) + unat n < 2 ^ LENGTH(128)"
    using le fits total paid ok by (simp add: ledger_ok_def)
  then show dist: "unat (rm_total_distributed m') = unat (rm_total_distributed m) + unat n"
    by (simp add: m' sat_add_exact unat_add_exact)
  have "account_ok m a acc'" using sum rec new n' by (simp add: account_ok_def)
  with ok inv total paid dist show "ledger_ok m'"
    unfolding ledger_ok_def by (auto simp: m' hm_get_insert)
qed

lemma process_payout_history: "process_payout m a n = (r, m') \<Longrightarrow> rm_reward_history m' = rm_reward_history m"
  by (auto simp: process_payout_def split: option.splits if_splits prod.splits sum.splits)

lemma ledger_ok_pay:
  assumes "process_payout m a n = (r, m')" and "ledger_ok m" and "recorded m < 2 ^ 128"
  shows "ledger_ok m'"
proof (cases "hm_get (rm_accounts m) a")
  case None
  with assms show ?thesis by (simp add: process_payout_def)
next
  case (Some acc)
  show ?thesis
    using assms(1) payout_Some [OF assms(2) Some, of n]
      payout_paid(1) [OF assms(2,3) Some _ refl refl, of n] assms(2)
    by (auto split: if_splits)
qed

lemma ledger_ok_new: "ledger_ok (new_reward_manager i b)"
  by (simp add: ledger_ok_def new_reward_manager_def recorded_def recorded_for_def
      get_miner_reward_history_def total_over_def)

lemma recorded_step: "rm_step m m' \<Longrightarrow> recorded m \<le> recorded m'"
  by (induction rule: rm_step.induct)
     (auto simp: recorded_def process_payout_history elim!: record_block_reward_Some)

lemma ledger_ok_reachable:
  "rm_step\<^sup>*\<^sup>* (new_reward_manager i b) m \<Longrightarrow> recorded m < 2 ^ 128 \<Longrightarrow> ledger_ok m"
proof (induction rule: rtranclp_induct)
  case base
  show ?case by (rule ledger_ok_new)
next
  case (step m m')
  then have "recorded m < 2 ^ 128" using recorded_step [of m m'] by linarith
  with step show ?case by (auto elim!: rm_step.cases intro: ledger_ok_earn ledger_ok_pay)
qed

section \<open>Properties\<close>

text \<open>
  C16: In every state that block rewards and payouts can reach, as long as the rewards ever
  recorded sum to less than \<open>2 ^ 128\<close>, each account's total is the sum of its rewards in the
  history and splits into pending and paid rewards, its balance is its pending rewards, the
  account totals sum to the recorded rewards, and the paid rewards to the distributed total.
\<close>
theorem reward_ledger:
  assumes "rm_step\<^sup>*\<^sup>* (new_reward_manager i b) m" and "recorded m < 2 ^ 128"
  shows "(\<forall>a acc. get_miner_account m a = Some acc \<longrightarrow>
            unat (ra_total_rewards acc) = recorded_for m a \<and>
            unat (ra_pending_rewards acc) + unat (ra_paid_rewards acc) = unat (ra_total_rewards acc) \<and>
            get_miner_balance m a = ra_pending_rewards acc) \<and>
         total_over ra_total_rewards m = recorded m \<and>
         total_over ra_paid_rewards m = unat (rm_total_distributed m)"
proof -
  have ok: "ledger_ok m" using assms by (rule ledger_ok_reachable)
  show ?thesis
    using account_okD [OF ok] ok
    by (simp add: ledger_ok_def get_miner_account_def get_miner_balance_def)
qed

text \<open>What a miner is owed, and the withdrawal the payout is meant to be.\<close>

definition owed :: "reward_manager \<Rightarrow> string \<Rightarrow> nat option" where
  "owed m a = map_option (\<lambda>acc. unat (ra_pending_rewards acc)) (get_miner_account m a)"

definition withdraw :: "(string \<Rightarrow> nat option) \<Rightarrow> string \<Rightarrow> nat \<Rightarrow> (string \<Rightarrow> nat option) option" where
  "withdraw f a n = (case f a of None \<Rightarrow> None | Some p \<Rightarrow> if n \<le> p then Some (f(a \<mapsto> p - n)) else None)"

text \<open>
  C28: A payout implements the withdrawal from what the miner is owed: it succeeds exactly
  when the withdrawal is possible and then updates the balances as the withdrawal does and
  the distributed total by the amount; otherwise it returns an error and changes nothing.
\<close>
theorem payout_refines_withdraw:
  assumes "rm_step\<^sup>*\<^sup>* (new_reward_manager i b) m" and "recorded m < 2 ^ 128"
    and "process_payout m a n = (r, m')"
  shows "(case withdraw (owed m) a (unat n) of
            None \<Rightarrow> m' = m \<and> (\<exists>e. r = Inl e)
          | Some f \<Rightarrow> r = Inr () \<and> owed m' = f \<and>
              unat (rm_total_distributed m') = unat (rm_total_distributed m) + unat n)"
proof (cases "hm_get (rm_accounts m) a")
  case None
  with assms(3) show ?thesis
    by (auto simp: process_payout_def withdraw_def owed_def get_miner_account_def)
next
  case (Some acc)
  have ok: "ledger_ok m" using assms(1,2) by (rule ledger_ok_reachable)
  have le: "ra_pending_rewards acc < n \<longleftrightarrow> \<not> unat n \<le> unat (ra_pending_rewards acc)"
    by (simp only: word_less_nat_alt not_le)
  show ?thesis
    using assms(3) payout_Some [OF ok Some, of n]
      payout_paid(2) [OF ok assms(2) Some _ refl refl, of n]
    by (auto simp: withdraw_def owed_def get_miner_account_def Some le hm_get_insert unat_sub_exact
        fun_eq_iff split: if_splits)
qed

text \<open>One reward of 5000 with fees of 7.\<close>

definition sample_rewards :: reward_manager where
  "sample_rewards = (new_reward_manager 210000 5000)
     \<lparr>rm_accounts := [(''alice'', \<lparr>ra_address = ''alice'', ra_total_rewards = 5007,
        ra_pending_rewards = 5007, ra_paid_rewards = 0, ra_blocks_found = 1,
        ra_last_reward_time = 5, ra_created_at = 5\<rparr>)],
      rm_reward_history := [\<lparr>br_block_height = 1, br_block_hash = ''h1'', br_miner_address = ''alice'',
        br_base_reward = 5000, br_transaction_fees = 7, br_total_reward = 5007, br_timestamp = 5\<rparr>]\<rparr>"

lemma sample_rewards_step: "rm_step\<^sup>*\<^sup>* (new_reward_manager 210000 5000) sample_rewards"
proof -
  have "record_block_reward 5 (new_reward_manager 210000 5000) 1 ''h1'' ''alice'' 7 =
        Some (Inr (hd (rm_reward_history sample_rewards)), sample_rewards)"
    by (simp add: record_block_reward_def calculate_block_reward_def new_reward_manager_def div_w_def
        new_block_reward_record_def new_reward_account_def add_reward_def sat_add_def Let_def
        sample_rewards_def)
  then show ?thesis by (intro r_into_rtranclp rm_step.earn)
qed

lemma sample_rewards_recorded: "recorded sample_rewards < 2 ^ 128"
  by (simp add: recorded_def sample_rewards_def)

theorem reward_ledger_witness:
  "get_miner_balance sample_rewards ''alice'' = 5007 \<and>
   total_over ra_paid_rewards sample_rewards = unat (rm_total_distributed sample_rewards)"
  using reward_ledger [OF sample_rewards_step sample_rewards_recorded]
  by (auto simp: sample_rewards_def get_miner_account_def)

theorem payout_refines_withdraw_witness:
  "case withdraw (owed sample_rewards) ''alice'' (unat (7 :: u128)) of
     None \<Rightarrow> snd (process_payout sample_rewards ''alice'' 7) = sample_rewards \<and>
             (\<exists>e. fst (process_payout sample_rewards ''alice'' 7) = Inl e)
   | Some f \<Rightarrow> fst (process_payout sample_rewards ''alice'' 7) = Inr () \<and>
       owed (snd (process_payout sample_rewards ''alice'' 7)) = f \<and>
       unat (rm_total_distributed (snd (process_payout sample_rewards ''alice'' 7))) =
       unat (rm_total_distributed sample_rewards) + unat (7 :: u128)"
  by (rule payout_refines_withdraw [OF sample_rewards_step sample_rewards_recorded]) simp

end
