(* ===== verification/Work.thy ===== *)
theory Work
  imports Pow_Config
begin

text \<open>
  Work packages and proofs of work (\<open>src/work.rs\<close>). SHA-512 is the crate \<open>sha2\<close>, so it is
  the argument \<open>sha\<close> of the functions that hash; what the code relies on is only that a
  digest has 64 bytes (\<open>sha512_like\<close>). Hashes and targets are byte lists, compared with
  the order of Rust slices.
\<close>

definition sha512_like :: "(bytes \<Rightarrow> bytes) \<Rightarrow> bool" where
  "sha512_like sha \<longleftrightarrow> (\<forall>x. length (sha x) = 64)"

section \<open>Work packages\<close>

record work_package =
  wp_work_id :: bytes
  wp_chain_id :: u32
  wp_block_height :: u64
  wp_block_hash :: bytes
  wp_parent_hash :: bytes
  wp_merkle_root :: bytes
  wp_timestamp :: u64
  wp_difficulty :: u64
  wp_target :: bytes
  wp_version :: u32
  wp_extra_nonce :: u64

text \<open>\<open>calculate_target_from_difficulty\<close>, whose loop zeroes \<open>bytes_to_zero\<close> bytes after
  skipping the first \<open>64 - bytes_to_zero\<close>.\<close>

definition calculate_target_from_difficulty :: "u64 \<Rightarrow> bytes pow_result" where
  "calculate_target_from_difficulty difficulty =
     (if difficulty = 0 then Inl (InvalidDifficulty ''Difficulty cannot be zero'')
      else
        let target = replicate 64 0xFF in
        if difficulty > 1 then
          let bits_to_shift = 64 - ilog2 (unat difficulty);
              bytes_to_zero = bits_to_shift div 8
          in if bytes_to_zero < 64 then
               let target = take (64 - bytes_to_zero) target @ replicate bytes_to_zero 0
               in if bytes_to_zero > 0 \<and> bytes_to_zero < 64 then
                    let bit_shift = bits_to_shift mod 8
                    in if bit_shift > 0
                       then Inr (target[64 - bytes_to_zero - 1 :=
                              drop_bit bit_shift (target ! (64 - bytes_to_zero - 1))])
                       else Inr target
                  else Inr target
             else Inr ((replicate 64 0)[0 := 1])
        else Inr target)"

definition new_work_package ::
    "(bytes \<Rightarrow> bytes) \<Rightarrow> u32 \<Rightarrow> u64 \<Rightarrow> bytes \<Rightarrow> bytes \<Rightarrow> bytes \<Rightarrow> u64 \<Rightarrow> u64 \<Rightarrow> work_package pow_result" where
  "new_work_package sha chain_id block_height block_hash parent_hash merkle_root timestamp difficulty =
     (if difficulty = 0 then Inl (InvalidDifficulty ''Difficulty cannot be zero'')
      else if chain_id \<ge> 20 then Inl (InvalidDifficulty ''Invalid chain ID'')
      else if length block_hash \<noteq> 64
      then Inl (InvalidDifficulty ''Block hash must be 64 bytes (SHA-512)'')
      else if length parent_hash \<noteq> 64
      then Inl (InvalidDifficulty ''Parent hash must be 64 bytes (SHA-512)'')
      else if length merkle_root \<noteq> 64
      then Inl (InvalidDifficulty ''Merkle root must be 64 bytes (SHA-512)'')
      else case calculate_target_from_difficulty difficulty of
             Inl e \<Rightarrow> Inl e
           | Inr target \<Rightarrow>
               let work_id = sha (to_le_bytes chain_id @ to_le_bytes block_height @ block_hash @
                                  to_le_bytes timestamp)
               in Inr \<lparr>wp_work_id = work_id, wp_chain_id = chain_id, wp_block_height = block_height,
                       wp_block_hash = block_hash, wp_parent_hash = parent_hash,
                       wp_merkle_root = merkle_root, wp_timestamp = timestamp,
                       wp_difficulty = difficulty, wp_target = target, wp_version = 1,
                       wp_extra_nonce = 0\<rparr>)"

definition wp_header_for_hashing :: "work_package \<Rightarrow> bytes" where
  "wp_header_for_hashing w =
     to_le_bytes (wp_version w) @ wp_parent_hash w @ wp_merkle_root w @
     to_le_bytes (wp_timestamp w) @ to_le_bytes (wp_difficulty w) @
     to_le_bytes (wp_chain_id w) @ to_le_bytes (wp_block_height w)"

definition calculate_sha512_hash :: "(bytes \<Rightarrow> bytes) \<Rightarrow> bytes \<Rightarrow> bytes" where
  "calculate_sha512_hash sha dat = sha dat"

definition calculate_double_sha512_hash :: "(bytes \<Rightarrow> bytes) \<Rightarrow> bytes \<Rightarrow> bytes" where
  "calculate_double_sha512_hash sha dat =
     (let first_hash = calculate_sha512_hash sha dat in calculate_sha512_hash sha first_hash)"

section \<open>Proofs of work\<close>

record work_proof =
  pf_work_id :: bytes
  pf_chain_id :: u32
  pf_block_height :: u64
  pf_nonce :: u64
  pf_extra_nonce :: u64
  pf_block_hash :: bytes
  pf_hash_result :: bytes
  pf_timestamp :: u64
  pf_miner_address :: bytes
  pf_difficulty_achieved :: u64

definition verify_proof :: "work_proof \<Rightarrow> bytes \<Rightarrow> bool pow_result" where
  "verify_proof p target =
     (if length (pf_hash_result p) \<noteq> 64 then Inl InvalidWorkProof
      else if length target \<noteq> 64 then Inl InvalidWorkProof
      else Inr (slice_le (pf_hash_result p) target))"

text \<open>The loop that counts leading zero bits and stops at the first non-zero byte.\<close>

fun count_leading_zeros :: "bytes \<Rightarrow> nat" where
  "count_leading_zeros [] = 0"
| "count_leading_zeros (x # xs) = (if x = 0 then 8 + count_leading_zeros xs else lz8 x)"

definition get_difficulty_from_hash :: "bytes \<Rightarrow> u64 pow_result" where
  "get_difficulty_from_hash hash =
     (if length hash \<noteq> 64 then Inl InvalidWorkProof
      else let leading_zeros = count_leading_zeros hash
           in if leading_zeros \<ge> 64 then Inr (- 1) else Inr (push_bit leading_zeros 1))"

definition verify_timestamp :: "build \<Rightarrow> time \<Rightarrow> work_proof \<Rightarrow> u64 \<Rightarrow> bool pow_result option" where
  "verify_timestamp b now p max_age_seconds =
     (if now < pf_timestamp p then Some (Inl InvalidWorkProof)
      else do { age \<leftarrow> sub_w b now (pf_timestamp p); Some (Inr (age \<le> max_age_seconds)) })"

section \<open>The proof builder\<close>

record work_proof_builder =
  pb_work_id :: bytes
  pb_chain_id :: u32
  pb_block_height :: u64
  pb_nonce :: u64
  pb_extra_nonce :: u64
  pb_block_hash :: bytes
  pb_hash_result :: bytes
  pb_timestamp :: u64
  pb_miner_address :: bytes

definition proof_builder ::
    "time \<Rightarrow> bytes \<Rightarrow> u32 \<Rightarrow> bytes \<Rightarrow> bytes \<Rightarrow> bytes \<Rightarrow> work_proof_builder" where
  "proof_builder now work_id chain_id block_hash hash_result miner_address =
     \<lparr>pb_work_id = work_id, pb_chain_id = chain_id, pb_block_height = 0, pb_nonce = 0,
      pb_extra_nonce = 0, pb_block_hash = block_hash, pb_hash_result = hash_result,
      pb_timestamp = now, pb_miner_address = miner_address\<rparr>"

definition with_block_height :: "u64 \<Rightarrow> work_proof_builder \<Rightarrow> work_proof_builder" where
  "with_block_height height p = p\<lparr>pb_block_height := height\<rparr>"

definition with_nonce :: "u64 \<Rightarrow> work_proof_builder \<Rightarrow> work_proof_builder" where
  "with_nonce nonce p = p\<lparr>pb_nonce := nonce\<rparr>"

definition with_extra_nonce :: "u64 \<Rightarrow> work_proof_builder \<Rightarrow> work_proof_builder" where
  "with_extra_nonce extra_nonce p = p\<lparr>pb_extra_nonce := extra_nonce\<rparr>"

definition with_timestamp :: "u64 \<Rightarrow> work_proof_builder \<Rightarrow> work_proof_builder" where
  "with_timestamp timestamp p = p\<lparr>pb_timestamp := timestamp\<rparr>"

definition build_proof :: "work_proof_builder \<Rightarrow> work_proof pow_result" where
  "build_proof p =
     (if length (pb_hash_result p) \<noteq> 64 then Inl InvalidWorkProof
      else if pb_miner_address p = [] then Inl InvalidWorkProof
      else case get_difficulty_from_hash (pb_hash_result p) of
             Inl e \<Rightarrow> Inl e
           | Inr difficulty_achieved \<Rightarrow>
               Inr \<lparr>pf_work_id = pb_work_id p, pf_chain_id = pb_chain_id p,
                    pf_block_height = pb_block_height p, pf_nonce = pb_nonce p,
                    pf_extra_nonce = pb_extra_nonce p, pf_block_hash = pb_block_hash p,
                    pf_hash_result = pb_hash_result p, pf_timestamp = pb_timestamp p,
                    pf_miner_address = pb_miner_address p,
                    pf_difficulty_achieved = difficulty_achieved\<rparr>)"

section \<open>Leading zeros and magnitude\<close>

lemma lz8_bounds: "x \<noteq> 0 \<Longrightarrow> 2 ^ (7 - lz8 x) \<le> unat x \<and> unat x < 2 ^ (8 - lz8 x) \<and> lz8 x < 8"
proof -
  assume "x \<noteq> 0"
  then have x: "0 < unat x" by (simp add: unat_gt_0)
  have "ilog2 (unat x) < 8" using x unat_u8_lt [of x] by (intro ilog2_less) simp_all
  moreover from this have "7 - (7 - ilog2 (unat x)) = ilog2 (unat x)"
    "8 - (7 - ilog2 (unat x)) = Suc (ilog2 (unat x))" by simp_all
  ultimately show ?thesis using ilog2_bounds [OF x] \<open>x \<noteq> 0\<close> by (simp add: lz8_def)
qed

lemma count_leading_zeros_le: "count_leading_zeros xs \<le> 8 * length xs"
  by (induction xs) (auto simp: lz8_def)

lemma be_nat_less_lz: "be_nat xs < 2 ^ (8 * length xs - count_leading_zeros xs)"
proof (induction xs)
  case (Cons x xs)
  show ?case
  proof (cases "x = 0")
    case True
    with Cons show ?thesis by simp
  next
    case False
    from lz8_bounds [OF False] have b: "unat x + 1 \<le> 2 ^ (8 - lz8 x)" "lz8 x < 8" by simp_all
    have p: "(256 :: nat) ^ length xs = 2 ^ (8 * length xs)" by (simp add: power_mult)
    have "be_nat (x # xs) < (unat x + 1) * 2 ^ (8 * length xs)"
      using be_nat_lt [of xs] by (simp add: p)
    also have "\<dots> \<le> 2 ^ (8 - lz8 x) * 2 ^ (8 * length xs)" using b(1) by (rule mult_right_mono) simp
    also have "\<dots> = 2 ^ (8 * length (x # xs) - count_leading_zeros (x # xs))"
      using False b(2) by (simp flip: power_add)
    finally show ?thesis .
  qed
qed simp

lemma be_nat_ge_lz:
  "be_nat xs \<noteq> 0 \<Longrightarrow> 2 ^ (8 * length xs - count_leading_zeros xs - 1) \<le> be_nat xs"
proof (induction xs)
  case (Cons x xs)
  show ?case
  proof (cases "x = 0")
    case True
    with Cons show ?thesis by simp
  next
    case False
    from lz8_bounds [OF False] have b: "2 ^ (7 - lz8 x) \<le> unat x" "lz8 x < 8" by simp_all
    have p: "(256 :: nat) ^ length xs = 2 ^ (8 * length xs)" by (simp add: power_mult)
    have "2 ^ (8 * length (x # xs) - count_leading_zeros (x # xs) - 1) =
          (2 ^ (7 - lz8 x) * 2 ^ (8 * length xs) :: nat)"
      using False b(2) by (simp flip: power_add)
    also have "\<dots> \<le> unat x * 2 ^ (8 * length xs)" using b(1) by (rule mult_right_mono) simp
    also have "\<dots> \<le> be_nat (x # xs)" by (simp add: p)
    finally show ?thesis .
  qed
qed simp

lemma leading_zeros_iff:
  assumes "k \<le> 8 * length xs"
  shows "k \<le> count_leading_zeros xs \<longleftrightarrow> be_nat xs < 2 ^ (8 * length xs - k)"
proof
  assume "k \<le> count_leading_zeros xs"
  then have "(2::nat) ^ (8 * length xs - count_leading_zeros xs) \<le> 2 ^ (8 * length xs - k)"
    by (intro power_increasing) simp_all
  with be_nat_less_lz [of xs] show "be_nat xs < 2 ^ (8 * length xs - k)" by linarith
next
  assume lt: "be_nat xs < 2 ^ (8 * length xs - k)"
  show "k \<le> count_leading_zeros xs"
  proof (rule ccontr)
    assume n: "\<not> k \<le> count_leading_zeros xs"
    then have "(2::nat) ^ (8 * length xs - k) \<le> 2 ^ (8 * length xs - count_leading_zeros xs - 1)"
      by (intro power_increasing) simp_all
    with lt be_nat_ge_lz [of xs] have z: "be_nat xs = 0" by linarith
    have "count_leading_zeros ys = 8 * length ys" if "be_nat ys = 0" for ys
      using that by (induction ys) (auto simp: unat_eq_zero)
    with z n assms show False by simp
  qed
qed

lemma leading_zeros_ilog2:
  "be_nat xs \<noteq> 0 \<Longrightarrow> count_leading_zeros xs + ilog2 (be_nat xs) + 1 = 8 * length xs"
proof -
  assume nz: "be_nat xs \<noteq> 0"
  have "count_leading_zeros xs < 8 * length xs"
  proof (rule ccontr)
    assume "\<not> count_leading_zeros xs < 8 * length xs"
    then have "8 * length xs - count_leading_zeros xs = 0" by simp
    with be_nat_less_lz [of xs] nz show False by simp
  qed
  moreover have "ilog2 (be_nat xs) = 8 * length xs - count_leading_zeros xs - 1"
    using be_nat_ge_lz [OF nz] be_nat_less_lz [of xs] calculation
    by (intro ilog2_unique) (simp_all add: Suc_diff_Suc)
  ultimately show ?thesis by simp
qed

section \<open>Properties\<close>

text \<open>
  The difficulty achieved by a 64-byte hash is two to the number of its leading zero bits,
  which for a big-endian value \<open>h\<close> of at least \<open>2 ^ 448\<close> is \<open>511 - ilog2 h\<close>, and
  \<open>u64::MAX\<close> for a smaller value; a hash of any other length is an error.
\<close>
theorem difficulty_of_hash:
  "get_difficulty_from_hash hash =
     (if length hash \<noteq> 64 then Inl InvalidWorkProof
      else if be_nat hash < 2 ^ 448 then Inr (- 1)
      else Inr (2 ^ (511 - ilog2 (be_nat hash))))"
proof (cases "length hash = 64")
  case True
  have ge: "64 \<le> count_leading_zeros hash \<longleftrightarrow> be_nat hash < 2 ^ 448"
    using leading_zeros_iff [of 64 hash] True by simp
  have "count_leading_zeros hash = 511 - ilog2 (be_nat hash)" if "\<not> be_nat hash < 2 ^ 448"
  proof -
    from that have "be_nat hash \<noteq> 0" by (metis zero_less_numeral zero_less_power)
    from leading_zeros_ilog2 [OF this] True show ?thesis by simp
  qed
  with True ge show ?thesis
    by (cases "be_nat hash < 2 ^ 448") (simp_all only: get_difficulty_from_hash_def Let_def
        push_bit_eq_mult mult_1_left simp_thms if_True if_False)
qed (simp add: get_difficulty_from_hash_def)

section \<open>What the target of a work package checks\<close>

text \<open>The target depends on the difficulty only through its logarithm.\<close>

definition target_of_log :: "nat \<Rightarrow> bytes" where
  "target_of_log l =
     (let s = 64 - l; k = s div 8; t = take (64 - k) (replicate 64 0xFF) @ replicate k 0
      in if 0 < k \<and> 0 < s mod 8 then t[64 - k - 1 := drop_bit (s mod 8) (t ! (64 - k - 1))] else t)"

lemma work_target_eq:
  assumes "1 < difficulty"
  shows "calculate_target_from_difficulty difficulty = Inr (target_of_log (ilog2 (unat difficulty)))"
proof -
  have "(64 - ilog2 (unat difficulty)) div 8 < 64" by simp
  moreover have "difficulty \<noteq> 0" using assms by auto
  ultimately show ?thesis
    using assms by (simp add: calculate_target_from_difficulty_def target_of_log_def Let_def)
qed

lemma work_target_total:
  assumes "difficulty \<noteq> 0"
  obtains target where "calculate_target_from_difficulty difficulty = Inr target"
proof (cases "1 < difficulty")
  case True
  then show ?thesis using work_target_eq that by blast
next
  case False
  with assms have "calculate_target_from_difficulty difficulty = Inr (replicate 64 0xFF)"
    by (simp add: calculate_target_from_difficulty_def)
  then show ?thesis by (rule that)
qed

lemma ilog2_u64: "ilog2 (unat (d :: u64)) < 64"
  using unat_lt_pow [of d] ilog2_less [of "unat d" 64] by (cases "unat d = 0") simp_all

lemma target_of_log_prefix:
  "length (target_of_log l) = 64" "l < 64 \<Longrightarrow> 1 \<le> l \<Longrightarrow> take 56 (target_of_log l) = replicate 56 0xFF"
proof -
  show "length (target_of_log l) = 64" by (simp add: target_of_log_def Let_def)
  assume l: "l < 64" "1 \<le> l"
  define k where "k = (64 - l) div 8"
  have k: "k \<le> 7" using l by (simp add: k_def)
  have "take 56 (take (64 - k) (replicate 64 (0xFF :: u8)) @ replicate k 0) = replicate 56 0xFF"
    using k by (simp add: min_def)
  then show "take 56 (target_of_log l) = replicate 56 0xFF"
    using k by (simp add: target_of_log_def Let_def flip: k_def)
qed

lemma work_target_prefix_accepts:
  assumes "1 < difficulty" and "length (pf_hash_result p) = 64" and "hd (pf_hash_result p) \<noteq> 0xFF"
  shows "\<exists>target. calculate_target_from_difficulty difficulty = Inr target \<and>
           length target = 64 \<and> take 56 target = replicate 56 0xFF \<and>
           verify_proof p target = Inr True"
proof -
  let ?t = "target_of_log (ilog2 (unat difficulty))"
  have "2 \<le> unat difficulty" using assms(1) by (simp add: word_less_nat_alt)
  then have l: "1 \<le> ilog2 (unat difficulty)" using ilog2_ge [of 1 "unat difficulty"] by simp
  note pre = target_of_log_prefix(2) [OF ilog2_u64 l]
  have "hd ?t = hd (take 56 ?t)" using target_of_log_prefix(1) by (metis hd_take zero_less_numeral)
  then have hd: "hd ?t = 0xFF" unfolding pre by simp
  obtain x xs where h: "pf_hash_result p = x # xs" using assms(2) by (cases "pf_hash_result p") auto
  obtain y ys where t: "?t = y # ys" using target_of_log_prefix(1) by (metis list.exhaust list.size(3) zero_neq_numeral)
  have "y = 0xFF" "x \<noteq> 0xFF" using hd assms(3) by (simp_all add: h t)
  moreover have "x \<le> - 1" by (rule word_order.extremum)
  moreover have "(- 1 :: u8) = 0xFF" by simp
  ultimately have "x < y" by (simp add: less_le)
  then have "slice_le (pf_hash_result p) ?t" by (simp add: h t)
  with pre show ?thesis
    using assms(2) target_of_log_prefix(1)
    by (auto simp: work_target_eq [OF assms(1)] verify_proof_def)
qed

text \<open>
  The target of a work package never restricts the leading bytes. For every difficulty
  from two to \<open>u64::MAX\<close> its first 56 bytes are all ones, so every 64-byte hash whose first
  byte is not \<open>0xFF\<close> verifies, whatever the difficulty.
\<close>
theorem work_target_not_restrictive:
  assumes "1 < difficulty" and "length (pf_hash_result p) = 64" and "hd (pf_hash_result p) \<noteq> 0xFF"
  shows "\<exists>target. calculate_target_from_difficulty difficulty = Inr target \<and>
           length target = 64 \<and> take 56 target = replicate 56 0xFF \<and>
           verify_proof p target = Inr True"
  using assms by (rule work_target_prefix_accepts)

definition sample_proof :: work_proof where
  "sample_proof = \<lparr>pf_work_id = [], pf_chain_id = 0, pf_block_height = 0, pf_nonce = 0,
     pf_extra_nonce = 0, pf_block_hash = [], pf_hash_result = replicate 64 0xFE, pf_timestamp = 0,
     pf_miner_address = [1], pf_difficulty_achieved = 1\<rparr>"

theorem work_target_not_restrictive_witness:
  "\<exists>target. calculate_target_from_difficulty (- 1) = Inr target \<and>
     length target = 64 \<and> take 56 target = replicate 56 0xFF \<and>
     verify_proof sample_proof target = Inr True"
  by (rule work_target_not_restrictive)
     (simp_all add: sample_proof_def word_less_nat_alt unat_max_word)

text \<open>From two on, a higher difficulty gives a higher target, and from \<open>2 ^ 57\<close> on the highest.\<close>

lemma slice_le_append [simp]: "slice_le (xs @ ys) (xs @ zs) = slice_le ys zs"
  by (induction xs) auto

lemma replicate_upto_8:
  "replicate 1 x = [x]" "replicate 2 x = [x, x]" "replicate 3 x = [x, x, x]"
  "replicate 4 x = [x, x, x, x]" "replicate 5 x = [x, x, x, x, x]"
  "replicate 6 x = [x, x, x, x, x, x]" "replicate 7 x = [x, x, x, x, x, x, x]"
  "replicate 8 x = [x, x, x, x, x, x, x, x]"
  by (simp_all add: numeral_eq_Suc)

lemma target_of_log_steps:
  "list_all (\<lambda>l. slice_le (drop 56 (target_of_log l)) (drop 56 (target_of_log (Suc l)))) [1..<63]"
  by (simp add: upt_rec target_of_log_def Let_def drop_update_swap nth_append replicate_upto_8)

lemma target_of_log_Suc:
  "1 \<le> l \<Longrightarrow> l < 63 \<Longrightarrow> slice_le (target_of_log l) (target_of_log (Suc l))"
proof -
  assume l: "1 \<le> l" "l < 63"
  have "slice_le (drop 56 (target_of_log l)) (drop 56 (target_of_log (Suc l)))"
    using target_of_log_steps l by (simp only: list_all_iff set_upt) auto
  then have "slice_le (replicate 56 255 @ drop 56 (target_of_log l))
      (replicate 56 255 @ drop 56 (target_of_log (Suc l)))" by simp
  moreover have "replicate 56 255 @ drop 56 (target_of_log k) = target_of_log k"
    if "1 \<le> k" "k < 64" for k
    using append_take_drop_id [of 56 "target_of_log k"] target_of_log_prefix(2) [OF that(2,1)] by simp
  ultimately show ?thesis using l by simp
qed

lemma target_of_log_mono:
  "1 \<le> l \<Longrightarrow> l \<le> l' \<Longrightarrow> l' < 64 \<Longrightarrow> slice_le (target_of_log l) (target_of_log l')"
proof (induction l')
  case (Suc k)
  show ?case
  proof (cases "l = Suc k")
    case False
    with Suc have "slice_le (target_of_log l) (target_of_log k)"
      "slice_le (target_of_log k) (target_of_log (Suc k))"
      by (simp_all add: target_of_log_Suc)
    then show ?thesis by (rule slice_le_trans)
  qed simp
qed simp

text \<open>
  The target moves the wrong way: between difficulties from two on, the higher difficulty
  has the higher or equal target, so that every proof that verifies against the lower
  difficulty verifies against the higher one, and from \<open>2 ^ 57\<close> on every 64-byte hash
  verifies.
\<close>
theorem work_target_increases:
  assumes "1 < d" and "d \<le> d'"
    and "calculate_target_from_difficulty d = Inr t" and "calculate_target_from_difficulty d' = Inr t'"
  shows "slice_le t t' \<and> (verify_proof p t = Inr True \<longrightarrow> verify_proof p t' = Inr True) \<and>
         (2 ^ 57 \<le> unat d' \<longrightarrow> t' = replicate 64 0xFF)"
proof -
  have d': "1 < d'" using assms(1,2) by simp
  have t: "t = target_of_log (ilog2 (unat d))" "t' = target_of_log (ilog2 (unat d'))"
    using assms(3,4) work_target_eq [OF assms(1)] work_target_eq [OF d'] by simp_all
  have "2 \<le> unat d" using assms(1) by (simp add: word_less_nat_alt)
  then have "1 \<le> ilog2 (unat d)" using ilog2_ge [of 1 "unat d"] by simp
  moreover have "ilog2 (unat d) \<le> ilog2 (unat d')"
    using assms(2) by (intro ilog2_mono) (simp add: word_le_nat_alt)
  ultimately have le: "slice_le t t'" unfolding t using ilog2_u64 by (rule target_of_log_mono)
  have "t' = replicate 64 0xFF" if "2 ^ 57 \<le> unat d'"
  proof -
    have "57 \<le> ilog2 (unat d')" using that by (rule ilog2_ge)
    then have "(64 - ilog2 (unat d')) div 8 = 0" using ilog2_u64 [of d'] by simp
    then show ?thesis unfolding t by (simp add: target_of_log_def)
  qed
  with le show ?thesis
    using target_of_log_prefix(1) slice_le_trans by (auto simp: verify_proof_def t split: if_splits)
qed

theorem work_target_increases_witness:
  "\<exists>t t'. calculate_target_from_difficulty 2 = Inr t \<and>
     calculate_target_from_difficulty (- 1) = Inr t' \<and> slice_le t t' \<and>
     t' = replicate 64 0xFF"
proof -
  have e: "calculate_target_from_difficulty 2 = Inr (target_of_log (ilog2 (unat (2 :: u64))))"
    "calculate_target_from_difficulty (- 1) = Inr (target_of_log (ilog2 (unat (- 1 :: u64))))"
    by (rule work_target_eq; simp add: word_less_nat_alt unat_max_word)+
  have "(1 :: u64) < 2" "(2 :: u64) \<le> - 1" by (simp_all add: word_less_nat_alt)
  moreover have "2 ^ 57 \<le> unat (- 1 :: u64)" by (simp add: unat_max_word)
  ultimately show ?thesis using work_target_increases [OF _ _ e, of sample_proof] e by blast
qed

end
