(* ===== verification/Block_Validator.thy ===== *)
theory Block_Validator
  imports Difficulty Work
begin

text \<open>
  Block headers and their validation (\<open>src/block_validator.rs\<close>). SHA-512 and \<open>log2\<close> are
  arguments; the validator's state is its configuration.
\<close>

section \<open>Headers\<close>

record block_header =
  bh_version :: u32
  bh_parent_hash :: bytes
  bh_merkle_root :: bytes
  bh_timestamp :: u64
  bh_difficulty :: u64
  bh_chain_id :: u32
  bh_block_height :: u64
  bh_nonce :: u64
  bh_extra_nonce :: u64

definition bh_header_for_hashing :: "block_header \<Rightarrow> bytes" where
  "bh_header_for_hashing h =
     to_le_bytes (bh_version h) @ bh_parent_hash h @ bh_merkle_root h @
     to_le_bytes (bh_timestamp h) @ to_le_bytes (bh_difficulty h) @
     to_le_bytes (bh_chain_id h) @ to_le_bytes (bh_block_height h)"

definition bh_hash :: "(bytes \<Rightarrow> bytes) \<Rightarrow> block_header \<Rightarrow> bytes" where
  "bh_hash sha h =
     sha (to_le_bytes (bh_version h) @ bh_parent_hash h @ bh_merkle_root h @
          to_le_bytes (bh_timestamp h) @ to_le_bytes (bh_difficulty h) @
          to_le_bytes (bh_chain_id h) @ to_le_bytes (bh_block_height h) @
          to_le_bytes (bh_nonce h) @ to_le_bytes (bh_extra_nonce h))"

section \<open>The header builder\<close>

record block_header_builder =
  hb_version :: u32
  hb_parent_hash :: bytes
  hb_merkle_root :: bytes
  hb_timestamp :: u64
  hb_difficulty :: u64
  hb_chain_id :: u32
  hb_block_height :: u64
  hb_nonce :: u64
  hb_extra_nonce :: u64

definition header_builder :: "u32 \<Rightarrow> bytes \<Rightarrow> bytes \<Rightarrow> u64 \<Rightarrow> block_header_builder" where
  "header_builder version parent_hash merkle_root timestamp =
     \<lparr>hb_version = version, hb_parent_hash = parent_hash, hb_merkle_root = merkle_root,
      hb_timestamp = timestamp, hb_difficulty = 1, hb_chain_id = 0, hb_block_height = 0,
      hb_nonce = 0, hb_extra_nonce = 0\<rparr>"

definition hb_with_difficulty :: "u64 \<Rightarrow> block_header_builder \<Rightarrow> block_header_builder" where
  "hb_with_difficulty difficulty h = h\<lparr>hb_difficulty := difficulty\<rparr>"

definition hb_with_chain_id :: "u32 \<Rightarrow> block_header_builder \<Rightarrow> block_header_builder" where
  "hb_with_chain_id chain_id h = h\<lparr>hb_chain_id := chain_id\<rparr>"

definition hb_with_block_height :: "u64 \<Rightarrow> block_header_builder \<Rightarrow> block_header_builder" where
  "hb_with_block_height height h = h\<lparr>hb_block_height := height\<rparr>"

definition hb_with_nonce :: "u64 \<Rightarrow> block_header_builder \<Rightarrow> block_header_builder" where
  "hb_with_nonce nonce h = h\<lparr>hb_nonce := nonce\<rparr>"

definition hb_with_extra_nonce :: "u64 \<Rightarrow> block_header_builder \<Rightarrow> block_header_builder" where
  "hb_with_extra_nonce extra_nonce h = h\<lparr>hb_extra_nonce := extra_nonce\<rparr>"

definition build_header :: "block_header_builder \<Rightarrow> block_header pow_result" where
  "build_header h =
     (if length (hb_parent_hash h) \<noteq> 32 then Inl (InvalidBlock ''Invalid parent hash length'')
      else if length (hb_merkle_root h) \<noteq> 32 then Inl (InvalidBlock ''Invalid merkle root length'')
      else if hb_difficulty h = 0 then Inl (InvalidBlock ''Difficulty cannot be zero'')
      else Inr \<lparr>bh_version = hb_version h, bh_parent_hash = hb_parent_hash h,
                bh_merkle_root = hb_merkle_root h, bh_timestamp = hb_timestamp h,
                bh_difficulty = hb_difficulty h, bh_chain_id = hb_chain_id h,
                bh_block_height = hb_block_height h, bh_nonce = hb_nonce h,
                bh_extra_nonce = hb_extra_nonce h\<rparr>)"

section \<open>The validator\<close>

definition validate_header :: "build \<Rightarrow> time \<Rightarrow> pow_config \<Rightarrow> block_header \<Rightarrow> unit pow_result option" where
  "validate_header b now cfg header =
     (if bh_difficulty header < min_difficulty cfg
      then Some (Inl (InvalidBlock (''Difficulty '' @ fmt_w (bh_difficulty header) @ '' below minimum'')))
      else if bh_difficulty header > max_difficulty cfg
      then Some (Inl (InvalidBlock (''Difficulty '' @ fmt_w (bh_difficulty header) @ '' exceeds maximum'')))
      else do {
        limit \<leftarrow> add_w b now 7200;
        if bh_timestamp header > limit
        then Some (Inl (InvalidBlock ''Block timestamp too far in future''))
        else if bh_chain_id header \<ge> 20 then Some (Inl (InvalidBlock ''Invalid chain ID''))
        else if bh_version header = 0 then Some (Inl (InvalidBlock ''Invalid block version''))
        else Some (Inr ())
      })"

definition validator_target :: "(f64 \<Rightarrow> f64) \<Rightarrow> u64 \<Rightarrow> bytes pow_result" where
  "validator_target lg difficulty =
     (if difficulty = 0 then Inl (InvalidDifficulty ''Difficulty cannot be zero'')
      else
        let log2_difficulty = lg (f_of_w difficulty);
            leading_zero_bits = (f_to_w log2_difficulty :: u32);
            leading_zero_bytes = unat (leading_zero_bits div 8);
            remaining_bits = leading_zero_bits mod 8;
            target = replicate (min leading_zero_bytes 64) 0 @
                     replicate (64 - min leading_zero_bytes 64) 0xFF
        in if remaining_bits > 0 \<and> leading_zero_bytes < 64
           then let mask = push_bit (unat (8 - remaining_bits)) (1 :: u8) - 1
                in Inr (target[leading_zero_bytes := mask])
           else Inr target)"

definition validate_proof_of_work ::
    "(bytes \<Rightarrow> bytes) \<Rightarrow> (f64 \<Rightarrow> f64) \<Rightarrow> block_header \<Rightarrow> work_proof \<Rightarrow> bool pow_result" where
  "validate_proof_of_work sha lg header proof =
     (if pf_nonce proof \<noteq> bh_nonce header \<or> pf_extra_nonce proof \<noteq> bh_extra_nonce header
      then Inl (InvalidBlock ''Nonce mismatch'')
      else if pf_chain_id proof \<noteq> bh_chain_id header then Inl (InvalidBlock ''Chain ID mismatch'')
      else if pf_block_height proof \<noteq> bh_block_height header
      then Inl (InvalidBlock ''Block height mismatch'')
      else case validator_target lg (bh_difficulty header) of
             Inl e \<Rightarrow> Inl e
           | Inr target \<Rightarrow>
               if \<not> slice_le (pf_hash_result proof) target then Inl WorkProofVerificationFailed
               else
                 let calculated_hash = sha (bh_header_for_hashing header @
                       to_le_bytes (bh_nonce header) @ to_le_bytes (bh_extra_nonce header))
                 in if calculated_hash \<noteq> pf_hash_result proof then Inl WorkProofVerificationFailed
                    else Inr True)"

definition validate_block_height_sequence :: "build \<Rightarrow> u64 \<Rightarrow> u64 \<Rightarrow> unit pow_result option" where
  "validate_block_height_sequence b previous_height current_height = do {
     expected \<leftarrow> add_w b previous_height 1;
     Some (if current_height \<noteq> expected
           then Inl (InvalidBlock (''Invalid block height sequence: '' @ fmt_w previous_height @
                                   '' -> '' @ fmt_w current_height))
           else Inr ())
   }"

definition validate_timestamp_sequence :: "u64 \<Rightarrow> u64 \<Rightarrow> unit pow_result" where
  "validate_timestamp_sequence previous_timestamp current_timestamp =
     (if current_timestamp \<le> previous_timestamp
      then Inl (InvalidBlock ''Block timestamp must be greater than previous block'')
      else Inr ())"

definition validate_difficulty_adjustment :: "u64 \<Rightarrow> u64 \<Rightarrow> unit pow_result" where
  "validate_difficulty_adjustment previous_difficulty current_difficulty =
     (let max_increase = sat_mul previous_difficulty 4;
          min_decrease = previous_difficulty div 4
      in if current_difficulty > max_increase
         then Inl (InvalidBlock (''Difficulty increase too large: '' @ fmt_w previous_difficulty @
                                 '' -> '' @ fmt_w current_difficulty))
         else if current_difficulty < min_decrease
         then Inl (InvalidBlock (''Difficulty decrease too large: '' @ fmt_w previous_difficulty @
                                 '' -> '' @ fmt_w current_difficulty))
         else Inr ())"

section \<open>The validator's target\<close>

text \<open>The number of leading zero bits the validator asks for.\<close>

definition required_bits :: "(f64 \<Rightarrow> f64) \<Rightarrow> u64 \<Rightarrow> nat" where
  "required_bits lg d = unat (f_to_w (lg (f_of_w d)) :: u32)"

lemma unat_low_mask: "r < 8 \<Longrightarrow> 0 < r \<Longrightarrow> unat (push_bit (8 - r) (1 :: u8) - 1) = 2 ^ (8 - r) - 1"
proof -
  assume r: "r < 8" "0 < r"
  then have u: "unat (2 ^ (8 - r) :: u8) = 2 ^ (8 - r)" by (intro unat_pow2) simp
  have "1 \<le> (2::nat) ^ (8 - r)" by simp
  then have "unat (2 ^ (8 - r) - 1 :: u8) = 2 ^ (8 - r) - 1"
    using u by (subst unat_sub_exact) simp_all
  then show ?thesis by (simp add: push_bit_eq_mult)
qed

lemma validator_target_be:
  assumes d: "d \<noteq> 0" and bits: "required_bits lg d \<le> 512"
  shows "\<exists>t. validator_target lg d = Inr t \<and> length t = 64 \<and>
             be_nat t = 2 ^ (512 - required_bits lg d) - 1"
proof -
  let ?w = "f_to_w (lg (f_of_w d)) :: u32"
  define n where "n = required_bits lg d"
  define k where "k = n div 8"
  define r where "r = n mod 8"
  have n: "n = 8 * k + r" "r < 8" by (simp_all add: k_def r_def)
  have wn: "unat ?w = n" by (simp add: n_def required_bits_def)
  have wk: "unat (?w div 8) = k" by (simp add: unat_div wn k_def)
  have wr: "unat (?w mod 8) = r" by (simp add: unat_mod wn r_def)
  have k: "k \<le> 64" using bits by (simp add: k_def flip: n_def)
  have p256: "(256 :: nat) ^ i = 2 ^ (8 * i)" for i by (simp add: power_mult)
  show ?thesis
  proof (cases "r = 0")
    case True
    then have "?w mod 8 = 0" using wr by (simp only: unat_eq_zero)
    then have "validator_target lg d = Inr (replicate k 0 @ replicate (64 - k) 0xFF)"
      using d k by (simp add: validator_target_def Let_def wk)
    moreover have "512 - n = 8 * (64 - k)" using True n by simp
    ultimately show ?thesis
      using k by (simp add: be_nat_append be_nat_zeros be_nat_ones p256 flip: n_def)
  next
    case False
    then have k64: "k < 64" using bits n by (simp flip: n_def)
    have w0: "?w mod 8 > 0" using False wr by (metis unat_0 word_neq_0_conv)
    have "unat (8 - ?w mod 8) = 8 - r"
      using n(2) wr by (subst unat_sub_exact) simp_all
    then have "validator_target lg d =
        Inr ((replicate k 0 @ replicate (64 - k) 0xFF)[k := push_bit (8 - r) 1 - 1])"
      using d k64 w0 by (simp add: validator_target_def Let_def wk)
    also have "(replicate k 0 @ replicate (64 - k) 0xFF)[k := push_bit (8 - r) 1 - 1] =
        replicate k 0 @ (push_bit (8 - r) 1 - 1) # replicate (63 - k) (0xFF :: u8)"
    proof -
      have "64 - k = Suc (63 - k)" using k64 by simp
      then show ?thesis by (simp add: list_update_append)
    qed
    finally have t: "validator_target lg d =
        Inr (replicate k 0 @ (push_bit (8 - r) 1 - 1) # replicate (63 - k) 0xFF)" .
    have "be_nat (replicate k 0 @ (push_bit (8 - r) 1 - 1) # replicate (63 - k) 0xFF) =
        (2 ^ (8 - r) - 1) * 2 ^ (8 * (63 - k)) + (2 ^ (8 * (63 - k)) - 1)"
      using unat_low_mask [OF n(2)] False
      by (simp add: be_nat_append be_nat_zeros be_nat_ones p256)
    also have "\<dots> = 2 ^ (8 - r) * 2 ^ (8 * (63 - k)) - 1"
      by (simp add: diff_mult_distrib)
    also have "2 ^ (8 - r) * 2 ^ (8 * (63 - k)) = (2 ^ (512 - n) :: nat)"
      using n k64 by (simp flip: power_add)
    finally show ?thesis using t k64 by (simp flip: n_def)
  qed
qed

lemma fexp_of_nat: "0 < n \<Longrightarrow> fexp (of_nat n) = int (ilog2 n)"
  by (simp add: fexp_def)

text \<open>Rounding a difficulty never lowers its logarithm, and raises it by at most one.\<close>

lemma fexp_rne_u64:
  assumes "0 < unat (d :: u64)"
  shows "int (ilog2 (unat d)) \<le> fexp (rne (of_nat (unat d)))" and "fexp (rne (of_nat (unat d))) \<le> 64"
proof -
  let ?n = "unat d"
  have "(2::nat) ^ ilog2 ?n \<le> ?n" using ilog2_bounds [OF assms] by simp
  then have "of_nat (2 ^ ilog2 ?n) \<le> (of_nat ?n :: rat)" by (simp only: of_nat_le_iff)
  then have "rne (2 ^ ilog2 ?n) \<le> rne (of_nat ?n)" by (intro rne_mono) simp
  then have le: "2 ^ ilog2 ?n \<le> rne (of_nat ?n)" using rne_exact [OF f64_exact_pow2] by simp
  then have "fexp (of_nat (2 ^ ilog2 ?n)) \<le> fexp (rne (of_nat ?n))" by (intro fexp_mono) simp_all
  moreover have "ilog2 (2 ^ ilog2 ?n) = ilog2 ?n" by (rule ilog2_unique) simp_all
  ultimately show "int (ilog2 ?n) \<le> fexp (rne (of_nat ?n))" by (simp add: fexp_of_nat del: of_nat_power)
  have "?n \<le> 2 ^ 64" using unat_lt_pow [of d] by simp
  then have "of_nat ?n \<le> (of_nat (2 ^ 64) :: rat)" by (simp only: of_nat_le_iff)
  then have "rne (of_nat ?n) \<le> rne (2 ^ 64)" by (intro rne_mono) simp
  then have "rne (of_nat ?n) \<le> of_nat (2 ^ 64)" using rne_exact [OF f64_exact_pow2 [of 64]] by simp
  then have "fexp (rne (of_nat ?n)) \<le> fexp (of_nat (2 ^ 64))"
    using rne_of_nat_pos [OF assms] by (intro fexp_mono)
  moreover have "ilog2 (2 ^ 64) = 64" by (rule ilog2_unique) simp_all
  then have "fexp (of_nat (2 ^ 64)) = 64" using fexp_of_nat [of "2 ^ 64"] by (simp only:) simp
  ultimately show "fexp (rne (of_nat ?n)) \<le> 64" by (simp only:)
qed

lemma required_bits_bounds:
  assumes "log2_faithful lg" and "d \<noteq> 0"
  shows "ilog2 (unat d) \<le> required_bits lg d" and "required_bits lg d \<le> 65"
proof -
  have d: "0 < unat d" using assms(2) by (simp add: unat_gt_0)
  let ?e = "fexp (rne (of_nat (unat d)))"
  obtain y where y: "lg (f_of_w d) = Num y" "of_int ?e \<le> y" "y \<le> of_int (?e + 1)"
    using assms(1) rne_of_nat_pos [OF d] unfolding log2_faithful_def f_of_w_Num by blast
  have e: "0 \<le> ?e" "?e \<le> 64" using fexp_rne_u64 [OF d] by linarith+
  have fl: "?e \<le> \<lfloor>y\<rfloor>" "\<lfloor>y\<rfloor> \<le> ?e + 1" using y(2,3) by linarith+
  have "0 \<le> y" using fl(1) e(1) by linarith
  then have "required_bits lg d = min (nat \<lfloor>y\<rfloor>) (2 ^ 32 - 1)"
    unfolding required_bits_def y(1) by (subst unat_f_to_w_Num) simp_all
  also have "\<dots> = nat \<lfloor>y\<rfloor>" using fl(2) e(2) by simp
  finally have r: "required_bits lg d = nat \<lfloor>y\<rfloor>" .
  show "ilog2 (unat d) \<le> required_bits lg d" "required_bits lg d \<le> 65"
    unfolding r using fl e fexp_rne_u64(1) [OF d] by linarith+
qed

lemma required_bits_upper:
  assumes "log2_faithful lg" and "d \<noteq> 0" and "unat d < 2 ^ 53"
  shows "required_bits lg d \<le> ilog2 (unat d) + 1"
proof -
  have d: "0 < unat d" using assms(2) by (simp add: unat_gt_0)
  let ?e = "int (ilog2 (unat d))"
  have "f_of_w d = Num (of_nat (unat d))" by (rule f_of_w_exact [OF assms(3)])
  moreover have "fexp (of_nat (unat d)) = ?e" by (rule fexp_of_nat [OF d])
  moreover have "(0 :: rat) < of_nat (unat d)" using d by (simp only: of_nat_0_less_iff)
  ultimately obtain y where y: "lg (f_of_w d) = Num y" "of_int ?e \<le> y" "y \<le> of_int (?e + 1)"
    using assms(1) unfolding log2_faithful_def by metis
  have "0 \<le> y" using y(2) by simp
  then have "required_bits lg d \<le> nat \<lfloor>y\<rfloor>"
    unfolding required_bits_def y(1) by (subst unat_f_to_w_Num) simp_all
  moreover have "\<lfloor>y\<rfloor> \<le> ?e + 1" using y(3) by linarith
  ultimately show ?thesis by linarith
qed

section \<open>Properties\<close>

text \<open>The fields a proof shares with the header it is for.\<close>

definition same_block :: "block_header \<Rightarrow> work_proof \<Rightarrow> bool" where
  "same_block header proof \<longleftrightarrow> pf_nonce proof = bh_nonce header \<and>
     pf_extra_nonce proof = bh_extra_nonce header \<and> pf_chain_id proof = bh_chain_id header \<and>
     pf_block_height proof = bh_block_height header"

text \<open>The digest of a header with its nonces.\<close>

definition header_digest :: "(bytes \<Rightarrow> bytes) \<Rightarrow> block_header \<Rightarrow> bytes" where
  "header_digest sha header =
     sha (bh_header_for_hashing header @ to_le_bytes (bh_nonce header) @
          to_le_bytes (bh_extra_nonce header))"

lemma validate_proof_iff:
  assumes sha: "sha512_like sha" and lg: "log2_faithful lg" and d: "bh_difficulty header \<noteq> 0"
  shows "validate_proof_of_work sha lg header p = Inr True \<longleftrightarrow>
      same_block header p \<and> pf_hash_result p = header_digest sha header \<and>
      required_bits lg (bh_difficulty header) \<le> count_leading_zeros (pf_hash_result p)"
    and "validate_proof_of_work sha lg header p \<noteq> Inr False"
    and "same_block header p \<Longrightarrow> validate_proof_of_work sha lg header p \<noteq> Inr True \<Longrightarrow>
      validate_proof_of_work sha lg header p = Inl WorkProofVerificationFailed"
proof -
  let ?d = "bh_difficulty header" and ?h = "pf_hash_result p"
  note b = required_bits_bounds [OF lg d]
  obtain t where t: "validator_target lg ?d = Inr t" "length t = 64"
    "be_nat t = 2 ^ (512 - required_bits lg ?d) - 1"
    using validator_target_be [OF d, of lg] b(2) by auto
  have le: "slice_le ?h t \<longleftrightarrow> required_bits lg ?d \<le> count_leading_zeros ?h" if "length ?h = 64"
  proof -
    have "slice_le ?h t \<longleftrightarrow> be_nat ?h \<le> 2 ^ (512 - required_bits lg ?d) - 1"
      using slice_le_be_nat [of ?h t] that t by simp
    also have "\<dots> \<longleftrightarrow> be_nat ?h < 2 ^ (512 - required_bits lg ?d)"
      by (metis One_nat_def Suc_pred less_Suc_eq_le pos2 zero_less_power)
    finally show ?thesis using leading_zeros_iff [of "required_bits lg ?d" ?h] that b(2) by simp
  qed
  have len: "length (header_digest sha header) = 64" using sha by (simp add: header_digest_def sha512_like_def)
  show "validate_proof_of_work sha lg header p = Inr True \<longleftrightarrow>
      same_block header p \<and> ?h = header_digest sha header \<and>
      required_bits lg ?d \<le> count_leading_zeros ?h"
    using le len
    by (auto simp: validate_proof_of_work_def t(1) same_block_def header_digest_def Let_def)
  show "validate_proof_of_work sha lg header p \<noteq> Inr False"
    by (simp add: validate_proof_of_work_def t(1) Let_def)
  show "same_block header p \<Longrightarrow> validate_proof_of_work sha lg header p \<noteq> Inr True \<Longrightarrow>
      validate_proof_of_work sha lg header p = Inl WorkProofVerificationFailed"
    by (auto simp: validate_proof_of_work_def t(1) same_block_def Let_def split: if_splits)
qed

text \<open>
  C18: The validator accepts a proof for a header of positive difficulty exactly when the
  proof names the header's nonces, chain and height, its hash is the digest of the header
  with the nonces, and that digest has the required number of leading zero bits. The
  required number is at least the integer logarithm of the difficulty, so that an accepted
  digest is below \<open>2 ^ (512 - ilog2 difficulty)\<close>; the validator never answers \<open>Ok(false)\<close>.
\<close>
theorem validator_accepts_iff:
  assumes sha: "sha512_like sha" and lg: "log2_faithful lg" and d: "bh_difficulty header \<noteq> 0"
  shows "(validate_proof_of_work sha lg header p = Inr True \<longleftrightarrow>
            same_block header p \<and> pf_hash_result p = header_digest sha header \<and>
            required_bits lg (bh_difficulty header) \<le> count_leading_zeros (pf_hash_result p)) \<and>
         ilog2 (unat (bh_difficulty header)) \<le> required_bits lg (bh_difficulty header) \<and>
         (validate_proof_of_work sha lg header p = Inr True \<longrightarrow>
            be_nat (pf_hash_result p) < 2 ^ (512 - ilog2 (unat (bh_difficulty header)))) \<and>
         validate_proof_of_work sha lg header p \<noteq> Inr False"
proof -
  let ?d = "bh_difficulty header" and ?h = "pf_hash_result p"
  note b = required_bits_bounds [OF lg d]
  note iff = validate_proof_iff(1) [OF sha lg d, of p]
  have "be_nat ?h < 2 ^ (512 - ilog2 (unat ?d))" if "validate_proof_of_work sha lg header p = Inr True"
  proof -
    have "length (header_digest sha header) = 64" using sha by (simp add: header_digest_def sha512_like_def)
    then have "length ?h = 64" "ilog2 (unat ?d) \<le> count_leading_zeros ?h"
      using that iff b(1) by (metis, metis order_trans)
    with leading_zeros_iff [of "ilog2 (unat ?d)" ?h] b show ?thesis by simp
  qed
  with iff validate_proof_iff(2) [OF sha lg d, of p] b(1) show ?thesis by blast
qed

text \<open>A digest function and a header with a proof that it accepts.\<close>

definition zero_digest :: "bytes \<Rightarrow> bytes" where
  "zero_digest x = replicate 64 0"

definition sample_header :: block_header where
  "sample_header = \<lparr>bh_version = 1, bh_parent_hash = replicate 32 1, bh_merkle_root = replicate 32 2,
     bh_timestamp = 1000, bh_difficulty = 1000, bh_chain_id = 0, bh_block_height = 7, bh_nonce = 5,
     bh_extra_nonce = 0\<rparr>"

definition zero_proof :: work_proof where
  "zero_proof = sample_proof\<lparr>pf_nonce := 5, pf_block_height := 7, pf_hash_result := replicate 64 0\<rparr>"

lemma zero_digest_sha: "sha512_like zero_digest"
  by (simp add: sha512_like_def zero_digest_def)

theorem validator_accepts_iff_witness:
  "validate_proof_of_work zero_digest log2_floor sample_header zero_proof = Inr True"
proof -
  have "count_leading_zeros (replicate n 0) = 8 * n" for n by (induction n) simp_all
  then have "required_bits log2_floor 1000 \<le> count_leading_zeros (replicate 64 0)"
    using required_bits_bounds(2) [OF log2_floor_faithful, of 1000] by simp
  then show ?thesis
    using validator_accepts_iff [OF zero_digest_sha log2_floor_faithful, of sample_header zero_proof]
    by (simp add: sample_header_def zero_proof_def sample_proof_def same_block_def header_digest_def
        zero_digest_def)
qed

text \<open>
  The two target functions disagree. For a difficulty of at least 256, a hash whose first
  byte is neither 0 nor \<open>0xFF\<close> verifies against the target of the work package and is
  rejected by the validator, so a proof the miner's side accepts need not be a proof the
  validator accepts.
\<close>
theorem targets_disagree:
  assumes lg: "log2_faithful lg" and d: "256 \<le> unat (bh_difficulty header)"
    and h: "length (pf_hash_result p) = 64" "hd (pf_hash_result p) \<noteq> 0" "hd (pf_hash_result p) \<noteq> 0xFF"
    and sb: "same_block header p"
  shows "(\<exists>t. calculate_target_from_difficulty (bh_difficulty header) = Inr t \<and>
              verify_proof p t = Inr True) \<and>
         validate_proof_of_work sha lg header p = Inl WorkProofVerificationFailed"
proof
  have "1 < bh_difficulty header" using d by (simp add: word_less_nat_alt)
  then show "\<exists>t. calculate_target_from_difficulty (bh_difficulty header) = Inr t \<and>
              verify_proof p t = Inr True"
    using work_target_prefix_accepts [OF _ h(1,3)] by blast
  have nz: "bh_difficulty header \<noteq> 0" using d by auto
  note b = required_bits_bounds [OF lg nz]
  have "8 \<le> ilog2 (unat (bh_difficulty header))" using d by (intro ilog2_ge) simp
  with b have b8: "8 \<le> required_bits lg (bh_difficulty header)" by linarith
  obtain x xs where x: "pf_hash_result p = x # xs" using h(1) by (cases "pf_hash_result p") auto
  have "count_leading_zeros (pf_hash_result p) < 8"
    using h(2) lz8_bounds [of x] by (simp add: x)
  with b8 have lt: "\<not> required_bits lg (bh_difficulty header) \<le> count_leading_zeros (pf_hash_result p)"
    by linarith
  obtain t where t: "validator_target lg (bh_difficulty header) = Inr t" "length t = 64"
    "be_nat t = 2 ^ (512 - required_bits lg (bh_difficulty header)) - 1"
    using validator_target_be [OF nz, of lg] b(2) by auto
  have "\<not> be_nat (pf_hash_result p) < 2 ^ (512 - required_bits lg (bh_difficulty header))"
    using lt leading_zeros_iff [of "required_bits lg (bh_difficulty header)" "pf_hash_result p"] b(2) h(1)
    by simp
  then have "\<not> slice_le (pf_hash_result p) t"
    using slice_le_be_nat [of "pf_hash_result p" t] h(1) t(2,3) by auto
  then show "validate_proof_of_work sha lg header p = Inl WorkProofVerificationFailed"
    using sb by (simp add: validate_proof_of_work_def same_block_def t(1))
qed

theorem targets_disagree_witness:
  "(\<exists>t. calculate_target_from_difficulty (bh_difficulty sample_header) = Inr t \<and>
        verify_proof (zero_proof\<lparr>pf_hash_result := replicate 64 0xFE\<rparr>) t = Inr True) \<and>
   validate_proof_of_work zero_digest log2_floor sample_header
     (zero_proof\<lparr>pf_hash_result := replicate 64 0xFE\<rparr>) = Inl WorkProofVerificationFailed"
  by (rule targets_disagree [OF log2_floor_faithful])
     (simp_all add: sample_header_def zero_proof_def sample_proof_def same_block_def)

text \<open>
  C31: Every difficulty the Kadena-style adjustment computes from a difficulty below
  \<open>2 ^ 53\<close> in the configured range passes the validator's check of the adjustment and
  its range checks on headers.
\<close>
theorem kadena_adjustment_validates:
  assumes "blocks \<noteq> 0" and "time \<noteq> 0" and "unat current < 2 ^ 53"
    and "unat blocks * unat (target_block_time_ms cfg) < 2 ^ 64"
    and "min_difficulty cfg \<le> current" and "current \<le> max_difficulty cfg"
    and "adjust_difficulty_kadena_style b cfg current blocks time = Some (Inr d)"
    and "bh_difficulty header = d" "bh_version header \<noteq> 0" "bh_chain_id header < 20"
      "bh_timestamp header \<le> now" "unat now + 7200 < 2 ^ 64"
  shows "validate_difficulty_adjustment current d = Inr () \<and>
         validate_header b now cfg header = Some (Inr ())"
proof
  have k: "validate_difficulty cfg d = Inr ()" "unat current div 4 \<le> unat d" "unat d \<le> 4 * unat current"
    using kadena_bounds [OF assms(1-6), of b] assms(7) by auto
  have "unat (sat_mul current 4) = 4 * unat current"
    using assms(3) by (simp add: unat_sat_mul)
  with k(2,3) show "validate_difficulty_adjustment current d = Inr ()"
    by (simp add: validate_difficulty_adjustment_def Let_def word_less_nat_alt unat_div not_less)
  have "add_w b now 7200 = Some (now + 7200)" "unat (now + 7200) = unat now + 7200"
    using assms(12) by (simp_all add: add_w_exact unat_add_exact)
  moreover from this(2) have "now \<le> now + 7200" by (simp add: word_le_nat_alt)
  ultimately show "validate_header b now cfg header = Some (Inr ())"
    using k(1) assms(8-11)
    by (auto simp: validate_header_def validate_difficulty_iff not_less not_le dest: leD)
qed

theorem kadena_adjustment_validates_witness:
  "\<exists>d. validate_difficulty_adjustment 1000000 d = Inr () \<and>
       validate_header Debug 2000 default_config (sample_header\<lparr>bh_difficulty := d\<rparr>) = Some (Inr ())"
proof -
  have side: "(2016 :: u64) \<noteq> 0" "(60480000 :: u64) \<noteq> 0" "unat (1000000 :: u64) < 2 ^ 53"
    "unat (2016 :: u64) * unat (target_block_time_ms default_config) < 2 ^ 64"
    "min_difficulty default_config \<le> 1000000" "1000000 \<le> max_difficulty default_config"
    by (simp_all add: default_config_def)
  obtain d where "adjust_difficulty_kadena_style Debug default_config 1000000 2016 60480000 = Some (Inr d)"
    using kadena_bounds [OF side, of Debug] by blast
  from kadena_adjustment_validates [OF side this, of "sample_header\<lparr>bh_difficulty := d\<rparr>" 2000]
  show ?thesis by (auto simp: sample_header_def)
qed

text \<open>
  No header that the header builder accepts has hashes a work package accepts: the
  builder demands 32 bytes, the work package 64.
\<close>
theorem header_hash_lengths_conflict:
  assumes "build_header hb = Inr header"
  shows "\<exists>e. new_work_package sha chain_id height block_hash (bh_parent_hash header)
               (bh_merkle_root header) timestamp difficulty = Inl e"
  using assms by (auto simp: build_header_def new_work_package_def split: if_splits)

theorem header_hash_lengths_conflict_witness:
  "\<exists>e. new_work_package zero_digest 0 1 (replicate 64 0) (bh_parent_hash sample_header)
         (bh_merkle_root sample_header) 1000 1000 = Inl e"
  by (rule header_hash_lengths_conflict
      [of "hb_with_nonce 5 (hb_with_block_height 7 (hb_with_difficulty 1000
             (header_builder 1 (replicate 32 1) (replicate 32 2) 1000)))"])
     (simp add: build_header_def header_builder_def hb_with_nonce_def hb_with_block_height_def
       hb_with_difficulty_def sample_header_def)

end
