(* ===== verification/Miner.thy ===== *)
theory Miner
  imports Block_Validator
begin

text \<open>
  The individual miner (\<open>src/miner.rs\<close>). The mining loop runs until it finds a hash or is
  handed other work, so it takes fuel; its result says whether it is still running, has
  panicked or has returned. What other tasks do while it runs is its environment: the work
  package it sees at each poll, and the clocks, all indexed by the number of the iteration.
\<close>

section \<open>State\<close>

record miner_config =
  mc_num_threads :: u64
  mc_pow_config :: pow_config

definition new_miner_config :: "u64 \<Rightarrow> miner_config" where
  "new_miner_config num_threads = \<lparr>mc_num_threads = num_threads, mc_pow_config = default_config\<rparr>"

definition miner_config_with :: "u64 \<Rightarrow> pow_config \<Rightarrow> miner_config" where
  "miner_config_with num_threads cfg = \<lparr>mc_num_threads = num_threads, mc_pow_config = cfg\<rparr>"

record miner_stats =
  ms_total_hashes :: u64
  ms_valid_proofs :: u64
  ms_invalid_proofs :: u64
  ms_current_difficulty :: u64
  ms_hashrate :: f64
  ms_uptime_seconds :: u64
  ms_last_proof_time :: u64
  ms_average_time_per_proof :: f64

definition new_miner_stats :: miner_stats where
  "new_miner_stats = \<lparr>ms_total_hashes = 0, ms_valid_proofs = 0, ms_invalid_proofs = 0,
     ms_current_difficulty = 1000000, ms_hashrate = Num 0, ms_uptime_seconds = 0,
     ms_last_proof_time = 0, ms_average_time_per_proof = Num 0\<rparr>"

record miner =
  mn_config :: miner_config
  mn_stats :: miner_stats
  mn_current_work :: "work_package option"
  mn_total_hashes :: u64
  mn_start_time :: u64
  mn_proof_times :: "u64 list"

definition new_miner :: "time \<Rightarrow> miner_config \<Rightarrow> miner" where
  "new_miner start cfg = \<lparr>mn_config = cfg, mn_stats = new_miner_stats, mn_current_work = None,
     mn_total_hashes = 0, mn_start_time = start, mn_proof_times = []\<rparr>"

definition set_work :: "miner \<Rightarrow> work_package \<Rightarrow> miner" where
  "set_work m w = m\<lparr>mn_current_work := Some w\<rparr>"

definition get_current_work :: "miner \<Rightarrow> work_package option" where
  "get_current_work m = mn_current_work m"

section \<open>The mining loop\<close>

record mining_env =
  me_polled_work :: "nat \<Rightarrow> work_package option"
  me_elapsed :: "nat \<Rightarrow> u64"
  me_uptime :: "nat \<Rightarrow> u64"
  me_now :: "nat \<Rightarrow> u64"

datatype 'a loop_outcome = Running | Panicked | Returned 'a

definition mining_hash :: "(bytes \<Rightarrow> bytes) \<Rightarrow> bytes \<Rightarrow> u64 \<Rightarrow> u64 \<Rightarrow> bytes" where
  "mining_hash sha header nonce extra_nonce =
     calculate_sha512_hash sha (header @ to_le_bytes nonce @ to_le_bytes extra_nonce)"

text \<open>The statistics update after a proof has been built.\<close>

definition record_found :: "build \<Rightarrow> u64 \<Rightarrow> miner \<Rightarrow> miner option" where
  "record_found b proof_time m = do {
     valid \<leftarrow> add_w b (ms_valid_proofs (mn_stats m)) 1;
     let pushed = mn_proof_times m @ [proof_time];
     let times = (if length pushed > 100 then tl pushed else pushed);
     average \<leftarrow> (if times \<noteq> []
                 then do { s \<leftarrow> sum_w b times; Some (f_div (f_of_w s) (f_of_nat (length times))) }
                 else Some (ms_average_time_per_proof (mn_stats m)));
     Some (m\<lparr>mn_stats := (mn_stats m)\<lparr>ms_valid_proofs := valid,
               ms_total_hashes := mn_total_hashes m, ms_last_proof_time := proof_time,
               ms_average_time_per_proof := average\<rparr>,
             mn_proof_times := times\<rparr>)
   }"

text \<open>The periodic statistics update, every million hashes.\<close>

definition periodic_stats :: "u64 \<Rightarrow> miner \<Rightarrow> miner" where
  "periodic_stats uptime m =
     (let s = (mn_stats m)\<lparr>ms_total_hashes := mn_total_hashes m, ms_uptime_seconds := uptime\<rparr>
      in m\<lparr>mn_stats :=
             (if uptime > 0
              then s\<lparr>ms_hashrate := f_div (f_of_w (ms_total_hashes s)) (f_of_w uptime)\<rparr> else s)\<rparr>)"

fun mine_loop ::
    "build \<Rightarrow> (bytes \<Rightarrow> bytes) \<Rightarrow> mining_env \<Rightarrow> work_package \<Rightarrow> bytes \<Rightarrow> nat \<Rightarrow> nat \<Rightarrow>
     u64 \<Rightarrow> u64 \<Rightarrow> u64 \<Rightarrow> miner \<Rightarrow> (work_proof option pow_result \<times> miner) loop_outcome" where
  "mine_loop b sha env work addr 0 i nonce extra_nonce since m = Running"
| "mine_loop b sha env work addr (Suc fuel) i nonce extra_nonce since m =
     (let hash_result = mining_hash sha (wp_header_for_hashing work) nonce extra_nonce;
          m = m\<lparr>mn_total_hashes := mn_total_hashes m + 1\<rparr>;
          since = since + 1
      in if slice_le hash_result (wp_target work) then
           let proof_time = me_elapsed env i in
           case build_proof (with_timestamp (me_now env i) (with_extra_nonce extra_nonce
                  (with_nonce nonce (with_block_height (wp_block_height work)
                    (proof_builder (me_now env i) (wp_work_id work) (wp_chain_id work)
                       (wp_block_hash work) hash_result addr))))) of
             Inl e \<Rightarrow> Returned (Inl e, m)
           | Inr proof \<Rightarrow>
               (case record_found b proof_time m of
                  None \<Rightarrow> Panicked
                | Some m' \<Rightarrow> Returned (Inr (Some proof), m'))
         else
           let nonce = nonce + 1;
               extra_nonce = (if nonce = 0 then extra_nonce + 1 else extra_nonce)
           in if since \<ge> 1000000 then
                (case me_polled_work env i of
                   Some new_work \<Rightarrow>
                     if wp_work_id new_work \<noteq> wp_work_id work then Returned (Inr None, m)
                     else mine_loop b sha env work addr fuel (Suc i) nonce extra_nonce 0
                            (periodic_stats (me_uptime env i) m)
                 | None \<Rightarrow> mine_loop b sha env work addr fuel (Suc i) nonce extra_nonce 0
                            (periodic_stats (me_uptime env i) m))
              else mine_loop b sha env work addr fuel (Suc i) nonce extra_nonce since m)"

definition mine_work_with_address ::
    "build \<Rightarrow> (bytes \<Rightarrow> bytes) \<Rightarrow> mining_env \<Rightarrow> nat \<Rightarrow> miner \<Rightarrow> work_package \<Rightarrow> bytes \<Rightarrow>
     (work_proof option pow_result \<times> miner) loop_outcome" where
  "mine_work_with_address b sha env fuel m work addr =
     mine_loop b sha env work addr fuel 0 0 0 0 m"

definition mine_work ::
    "build \<Rightarrow> (bytes \<Rightarrow> bytes) \<Rightarrow> mining_env \<Rightarrow> nat \<Rightarrow> miner \<Rightarrow> work_package \<Rightarrow>
     (work_proof option pow_result \<times> miner) loop_outcome" where
  "mine_work b sha env fuel m work =
     mine_work_with_address b sha env fuel m work (replicate 20 0)"

text \<open>One round of \<open>mine_continuous\<close>: the proof it finds is logged and dropped.\<close>

definition mine_continuous_round ::
    "build \<Rightarrow> (bytes \<Rightarrow> bytes) \<Rightarrow> mining_env \<Rightarrow> nat \<Rightarrow> miner \<Rightarrow> miner loop_outcome" where
  "mine_continuous_round b sha env fuel m =
     (case get_current_work m of
        None \<Rightarrow> Returned m
      | Some work \<Rightarrow>
          (case mine_work b sha env fuel m work of
             Running \<Rightarrow> Running
           | Panicked \<Rightarrow> Panicked
           | Returned (_, m') \<Rightarrow> Returned m'))"

section \<open>Statistics\<close>

definition get_miner_stats :: "u64 \<Rightarrow> miner \<Rightarrow> miner_stats" where
  "get_miner_stats uptime m =
     (let s = (mn_stats m)\<lparr>ms_total_hashes := mn_total_hashes m, ms_uptime_seconds := uptime\<rparr>
      in if uptime > 0
         then s\<lparr>ms_hashrate := f_div (f_of_w (ms_total_hashes s)) (f_of_w uptime)\<rparr> else s)"

definition get_total_hashes :: "miner \<Rightarrow> u64" where
  "get_total_hashes m = mn_total_hashes m"

definition reset_stats :: "miner \<Rightarrow> miner" where
  "reset_stats m = m\<lparr>mn_stats := new_miner_stats, mn_total_hashes := 0\<rparr>"

section \<open>What a mined proof is\<close>

lemma build_proof_Inr:
  "build_proof pb = Inr p \<Longrightarrow>
   pf_work_id p = pb_work_id pb \<and> pf_chain_id p = pb_chain_id pb \<and>
   pf_block_height p = pb_block_height pb \<and> pf_nonce p = pb_nonce pb \<and>
   pf_extra_nonce p = pb_extra_nonce pb \<and> pf_hash_result p = pb_hash_result pb \<and>
   pf_miner_address p = pb_miner_address pb \<and> pf_timestamp p = pb_timestamp pb \<and>
   get_difficulty_from_hash (pf_hash_result p) = Inr (pf_difficulty_achieved p)"
  by (auto simp: build_proof_def split: if_splits sum.splits)

definition proof_of :: "(bytes \<Rightarrow> bytes) \<Rightarrow> work_package \<Rightarrow> bytes \<Rightarrow> work_proof \<Rightarrow> bool" where
  "proof_of sha work addr p \<longleftrightarrow>
     pf_work_id p = wp_work_id work \<and> pf_chain_id p = wp_chain_id work \<and>
     pf_block_height p = wp_block_height work \<and> pf_miner_address p = addr \<and>
     pf_hash_result p = mining_hash sha (wp_header_for_hashing work) (pf_nonce p) (pf_extra_nonce p) \<and>
     slice_le (pf_hash_result p) (wp_target work) \<and>
     get_difficulty_from_hash (pf_hash_result p) = Inr (pf_difficulty_achieved p)"

lemma mine_loop_proof:
  "mine_loop b sha env work addr fuel i nonce extra_nonce since m = Returned (Inr (Some p), m') \<Longrightarrow>
   proof_of sha work addr p"
proof (induction fuel arbitrary: i nonce extra_nonce since m)
  case (Suc fuel)
  let ?h = "mining_hash sha (wp_header_for_hashing work) nonce extra_nonce"
  show ?case
  proof (cases "slice_le ?h (wp_target work)")
    case True
    with Suc.prems have "build_proof (with_timestamp (me_now env i) (with_extra_nonce extra_nonce
        (with_nonce nonce (with_block_height (wp_block_height work)
          (proof_builder (me_now env i) (wp_work_id work) (wp_chain_id work)
             (wp_block_hash work) ?h addr))))) = Inr p"
      by (auto simp: Let_def split: sum.splits option.splits)
    from build_proof_Inr [OF this] True show ?thesis
      unfolding proof_of_def by (simp only: proof_builder_def with_block_height_def with_nonce_def
          with_extra_nonce_def with_timestamp_def) (elim conjE, simp)
  next
    case False
    with Suc.prems show ?thesis
      by (auto simp: Let_def split: option.splits if_splits dest: Suc.IH)
  qed
qed simp

text \<open>The header that a work package describes, with the nonces of a proof.\<close>

definition header_for :: "work_package \<Rightarrow> work_proof \<Rightarrow> block_header" where
  "header_for work p =
     \<lparr>bh_version = wp_version work, bh_parent_hash = wp_parent_hash work, bh_merkle_root = wp_merkle_root work,
      bh_timestamp = wp_timestamp work, bh_difficulty = wp_difficulty work, bh_chain_id = wp_chain_id work,
      bh_block_height = wp_block_height work, bh_nonce = pf_nonce p, bh_extra_nonce = pf_extra_nonce p\<rparr>"

text \<open>
  C33: A proof that mining returns is for the given work and miner and verifies against the
  work's target. The miner and the validator hash the same bytes: on the header with the
  fields of the work package and the nonces of the proof, the validator accepts the proof
  exactly when its hash has the leading zero bits that the validator requires for the
  difficulty, and otherwise fails on the work and on nothing else. (The fields of both
  records are public; \<open>BlockHeaderBuilder\<close> and \<open>WorkPackage::new\<close> demand hashes of different
  lengths, so that no header the builder makes carries the hashes of a package that
  \<open>WorkPackage::new\<close> makes.)
\<close>
theorem mined_proof_verifies:
  assumes "sha512_like sha" and "length (wp_target work) = 64" and "log2_faithful lg" and "wp_difficulty work \<noteq> 0"
    and "mine_work_with_address b sha env fuel m work addr = Returned (Inr (Some p), m')"
  shows "(verify_proof p (wp_target work) = Inr True \<and> pf_work_id p = wp_work_id work \<and>
         pf_miner_address p = addr \<and> get_difficulty_from_hash (pf_hash_result p) = Inr (pf_difficulty_achieved p)) \<and>
      (validate_proof_of_work sha lg (header_for work p) p =
         (if required_bits lg (wp_difficulty work) \<le> count_leading_zeros (pf_hash_result p)
          then Inr True else Inl WorkProofVerificationFailed))"
    (is "?A \<and> ?B")
proof -
  have p: "proof_of sha work addr p"
    using assms(5) unfolding mine_work_with_address_def by (rule mine_loop_proof)
  then have "length (pf_hash_result p) = 64"
    using assms(1) by (simp add: proof_of_def mining_hash_def calculate_sha512_hash_def sha512_like_def)
  with p assms(2) have hA: ?A
    unfolding proof_of_def verify_proof_def by (elim conjE) simp
  have "bh_header_for_hashing (header_for work p) = wp_header_for_hashing work"
    by (simp add: header_for_def bh_header_for_hashing_def wp_header_for_hashing_def)
  then have "pf_hash_result p = header_digest sha (header_for work p)" "same_block (header_for work p) p"
    using p by (simp_all add: proof_of_def header_digest_def same_block_def mining_hash_def
        calculate_sha512_hash_def header_for_def)
  moreover have d: "bh_difficulty (header_for work p) = wp_difficulty work" by (simp add: header_for_def)
  moreover from d assms(4) have "bh_difficulty (header_for work p) \<noteq> 0" by simp
  note validate_proof_iff [OF assms(1,3) this, of p]
  ultimately have hB: ?B
    by simp
  show ?thesis by (rule conjI [OF hA hB])
qed

section \<open>Mining finds a proof\<close>

text \<open>The nonces of the \<open>i\<close>-th iteration, and the number of hashes since the last poll.\<close>

definition nonce_at :: "nat \<Rightarrow> u64" where "nonce_at i = of_nat i"
definition extra_at :: "nat \<Rightarrow> u64" where "extra_at i = of_nat (i div 2 ^ 64)"

definition misses :: "(bytes \<Rightarrow> bytes) \<Rightarrow> work_package \<Rightarrow> nat \<Rightarrow> bool" where
  "misses sha work i \<longleftrightarrow>
     \<not> slice_le (mining_hash sha (wp_header_for_hashing work) (nonce_at i) (extra_at i)) (wp_target work)"

definition work_kept :: "mining_env \<Rightarrow> work_package \<Rightarrow> nat \<Rightarrow> bool" where
  "work_kept env work i \<longleftrightarrow>
     (case me_polled_work env i of None \<Rightarrow> True | Some w \<Rightarrow> wp_work_id w = wp_work_id work)"

lemma nonce_at_Suc: "nonce_at i + 1 = nonce_at (Suc i)"
  by (simp add: nonce_at_def)

lemma extra_at_Suc: "(if nonce_at (Suc i) = 0 then extra_at i + 1 else extra_at i) = extra_at (Suc i)"
proof -
  have z: "nonce_at (Suc i) = 0 \<longleftrightarrow> Suc i mod 2 ^ 64 = 0"
    unfolding nonce_at_def word_unat_eq_iff unat_of_nat by simp
  show ?thesis unfolding z by (simp only: extra_at_def div_Suc split: if_split) simp
qed

lemma mine_loop_miss:
  assumes "misses sha work i" and "work_kept env work i"
  shows "\<exists>since' m'. mine_loop b sha env work addr (Suc fuel) i (nonce_at i) (extra_at i) since m =
           mine_loop b sha env work addr fuel (Suc i) (nonce_at (Suc i)) (extra_at (Suc i)) since' m' \<and>
           ms_valid_proofs (mn_stats m') = ms_valid_proofs (mn_stats m) \<and>
           mn_proof_times m' = mn_proof_times m"
proof -
  have m: "\<not> slice_le (mining_hash sha (wp_header_for_hashing work) (nonce_at i) (extra_at i)) (wp_target work)"
    using assms(1) by (simp add: misses_def)
  have e: "(if nonce_at (Suc i) = 0 then extra_at i + 1 else extra_at i) = extra_at (Suc i)"
    by (rule extra_at_Suc)
  have w: "case me_polled_work env i of None \<Rightarrow> True | Some w \<Rightarrow> wp_work_id w = wp_work_id work"
    using assms(2) by (simp add: work_kept_def)
  let ?m = "m\<lparr>mn_total_hashes := mn_total_hashes m + 1\<rparr>"
  have stats: "ms_valid_proofs (mn_stats (periodic_stats u ?m)) = ms_valid_proofs (mn_stats m)"
    "mn_proof_times (periodic_stats u ?m) = mn_proof_times m" for u
    by (simp_all add: periodic_stats_def Let_def)
  show ?thesis
  proof (cases "since + 1 \<ge> 1000000")
    case True
    have "mine_loop b sha env work addr (Suc fuel) i (nonce_at i) (extra_at i) since m =
        mine_loop b sha env work addr fuel (Suc i) (nonce_at (Suc i)) (extra_at (Suc i)) 0
          (periodic_stats (me_uptime env i) ?m)"
      unfolding mine_loop.simps(2) Let_def nonce_at_Suc e if_not_P [OF m] if_P [OF True]
      using w by (auto split: option.splits)
    with stats show ?thesis by blast
  next
    case False
    have "mine_loop b sha env work addr (Suc fuel) i (nonce_at i) (extra_at i) since m =
        mine_loop b sha env work addr fuel (Suc i) (nonce_at (Suc i)) (extra_at (Suc i)) (since + 1) ?m"
      unfolding mine_loop.simps(2) Let_def nonce_at_Suc e if_not_P [OF m] if_not_P [OF False]
      by (rule refl)
    then show ?thesis by (intro exI [of _ "since + 1"] exI [of _ ?m]) simp
  qed
qed

lemma mine_loop_misses:
  assumes "\<forall>j. i \<le> j \<and> j < i + n \<longrightarrow> misses sha work j \<and> work_kept env work j"
  shows "\<exists>since' m'. mine_loop b sha env work addr (n + fuel) i (nonce_at i) (extra_at i) since m =
           mine_loop b sha env work addr fuel (i + n) (nonce_at (i + n)) (extra_at (i + n)) since' m' \<and>
           ms_valid_proofs (mn_stats m') = ms_valid_proofs (mn_stats m) \<and>
           mn_proof_times m' = mn_proof_times m"
  using assms
proof (induction n arbitrary: i since m)
  case 0
  then show ?case by auto
next
  case (Suc n)
  then have "misses sha work i" "work_kept env work i" by auto
  from mine_loop_miss [OF this, of b addr "n + fuel" since m] obtain s1 m1 where
    1: "mine_loop b sha env work addr (Suc (n + fuel)) i (nonce_at i) (extra_at i) since m =
        mine_loop b sha env work addr (n + fuel) (Suc i) (nonce_at (Suc i)) (extra_at (Suc i)) s1 m1"
      "ms_valid_proofs (mn_stats m1) = ms_valid_proofs (mn_stats m)"
      "mn_proof_times m1 = mn_proof_times m" by blast
  have "\<forall>j. Suc i \<le> j \<and> j < Suc i + n \<longrightarrow> misses sha work j \<and> work_kept env work j"
    using Suc.prems by auto
  from Suc.IH [OF this, of s1 m1] 1 show ?case by (simp only: add_Suc add_Suc_right)
qed

lemma record_found_total:
  assumes "unat (ms_valid_proofs (mn_stats m)) + 1 < 2 ^ 64"
    and "sum_list (map unat (mn_proof_times m)) + unat t < 2 ^ 64"
  shows "\<exists>m'. record_found b t m = Some m'"
proof -
  let ?pushed = "mn_proof_times m @ [t]"
  let ?times = "if length ?pushed > 100 then tl ?pushed else ?pushed"
  have "sum_list (map unat ?times) \<le> sum_list (map unat ?pushed)"
    by (cases "mn_proof_times m") auto
  then have "sum_list (map unat ?times) < 2 ^ LENGTH(64)" using assms(2) by (simp del: if_split_eq1)
  then obtain s where "sum_w b ?times = Some s" using sum_w_exact by blast
  moreover have "add_w b (ms_valid_proofs (mn_stats m)) 1 = Some (ms_valid_proofs (mn_stats m) + 1)"
    using assms(1) by (intro add_w_exact) simp
  ultimately show ?thesis by (simp add: record_found_def Let_def)
qed

lemma mine_finds:
  assumes "sha512_like sha" and "addr \<noteq> []"
    and "\<not> misses sha work k" and "\<forall>j < k. misses sha work j \<and> work_kept env work j"
    and "unat (ms_valid_proofs (mn_stats m)) + 1 < 2 ^ 64"
    and "sum_list (map unat (mn_proof_times m)) + unat (me_elapsed env k) < 2 ^ 64"
    and "k < fuel"
  shows "\<exists>p m'. mine_work_with_address b sha env fuel m work addr = Returned (Inr (Some p), m') \<and>
                pf_nonce p = nonce_at k \<and> pf_extra_nonce p = extra_at k"
proof -
  obtain f where f: "fuel = k + Suc f" using assms(7) by (metis add_Suc_right less_imp_Suc_add)
  obtain s1 m1 where 1: "mine_loop b sha env work addr (k + Suc f) 0 (nonce_at 0) (extra_at 0) 0 m =
        mine_loop b sha env work addr (Suc f) k (nonce_at k) (extra_at k) s1 m1"
      "ms_valid_proofs (mn_stats m1) = ms_valid_proofs (mn_stats m)"
      "mn_proof_times m1 = mn_proof_times m"
    using mine_loop_misses [of 0 k sha work env b addr "Suc f" 0 m] assms(4) by auto
  let ?m2 = "m1\<lparr>mn_total_hashes := mn_total_hashes m1 + 1\<rparr>"
  let ?h = "mining_hash sha (wp_header_for_hashing work) (nonce_at k) (extra_at k)"
  let ?pb = "with_timestamp (me_now env k) (with_extra_nonce (extra_at k)
        (with_nonce (nonce_at k) (with_block_height (wp_block_height work)
          (proof_builder (me_now env k) (wp_work_id work) (wp_chain_id work)
             (wp_block_hash work) ?h addr))))"
  have h: "slice_le ?h (wp_target work)" using assms(3) by (simp add: misses_def)
  have len: "length ?h = 64"
    using assms(1) by (simp add: mining_hash_def calculate_sha512_hash_def sha512_like_def)
  obtain d where "get_difficulty_from_hash ?h = Inr d"
    using len that [of "- 1"] that [of "push_bit (count_leading_zeros ?h) 1"]
    by (cases "64 \<le> count_leading_zeros ?h") (simp_all add: get_difficulty_from_hash_def)
  then obtain p where p: "build_proof ?pb = Inr p"
    using len assms(2) by (simp add: build_proof_def proof_builder_def with_block_height_def
        with_nonce_def with_extra_nonce_def with_timestamp_def)
  have np: "pf_nonce p = nonce_at k" "pf_extra_nonce p = extra_at k"
    using build_proof_Inr [OF p] by (simp_all add: proof_builder_def with_block_height_def
        with_nonce_def with_extra_nonce_def with_timestamp_def)
  have "\<exists>m'. record_found b (me_elapsed env k) ?m2 = Some m'"
    by (rule record_found_total) (use assms(5,6) 1(2,3) in simp_all)
  then obtain m' where "record_found b (me_elapsed env k) ?m2 = Some m'" ..
  with h p have "mine_loop b sha env work addr (Suc f) k (nonce_at k) (extra_at k) s1 m1 =
      Returned (Inr (Some p), m')"
    by (simp add: Let_def)
  with 1(1) np show ?thesis
    by (auto simp: mine_work_with_address_def f nonce_at_def extra_at_def)
qed


text \<open>
  C19: Mining finds the first nonce that works. If the hash of iteration \<open>k\<close> meets the target
  and no earlier one does, and no poll before it shows other work, then any fuel above
  \<open>k\<close> makes the loop return a proof, with the nonces of iteration \<open>k\<close>.
\<close>
theorem mining_finds_first:
  assumes "sha512_like sha" and "addr \<noteq> []"
    and "\<not> misses sha work k" and "\<forall>j < k. misses sha work j \<and> work_kept env work j"
    and "unat (ms_valid_proofs (mn_stats m)) + 1 < 2 ^ 64"
    and "sum_list (map unat (mn_proof_times m)) + unat (me_elapsed env k) < 2 ^ 64"
    and "k < fuel"
  shows "\<exists>p m'. mine_work_with_address b sha env fuel m work addr = Returned (Inr (Some p), m') \<and>
                pf_nonce p = nonce_at k \<and> pf_extra_nonce p = extra_at k"
  using assms by (rule mine_finds)

text \<open>An environment in which nothing else happens.\<close>

definition quiet_env :: mining_env where
  "quiet_env = \<lparr>me_polled_work = (\<lambda>_. None), me_elapsed = (\<lambda>_. 3), me_uptime = (\<lambda>_. 10),
     me_now = (\<lambda>_. 1000)\<rparr>"

definition sample_work :: work_package where
  "sample_work = \<lparr>wp_work_id = [1], wp_chain_id = 0, wp_block_height = 7,
     wp_block_hash = replicate 64 3, wp_parent_hash = replicate 32 1, wp_merkle_root = replicate 32 2,
     wp_timestamp = 1000, wp_difficulty = 1000, wp_target = replicate 64 1, wp_version = 1,
     wp_extra_nonce = 0\<rparr>"

lemma sample_hit: "\<not> misses zero_digest sample_work 0"
proof -
  have "slice_le (replicate n 0) (replicate n (1 :: u8))" for n by (induction n) simp_all
  then show ?thesis
    by (simp add: misses_def mining_hash_def calculate_sha512_hash_def zero_digest_def sample_work_def)
qed

lemma sample_mined:
  "\<exists>p m'. mine_work_with_address Debug zero_digest quiet_env 5
            (new_miner 0 (new_miner_config 4)) sample_work [9] = Returned (Inr (Some p), m') \<and>
          pf_nonce p = nonce_at 0 \<and> pf_extra_nonce p = extra_at 0"
  by (rule mine_finds [OF zero_digest_sha _ sample_hit])
     (simp_all add: new_miner_def new_miner_stats_def quiet_env_def)

theorem mining_finds_first_witness:
  "\<exists>p m'. mine_work_with_address Debug zero_digest quiet_env 5
            (new_miner 0 (new_miner_config 4)) sample_work [9] = Returned (Inr (Some p), m') \<and>
          pf_nonce p = nonce_at 0 \<and> pf_extra_nonce p = extra_at 0"
  by (rule mining_finds_first [OF zero_digest_sha _ sample_hit])
     (simp_all add: new_miner_def new_miner_stats_def quiet_env_def)

theorem mined_proof_verifies_witness:
  "\<exists>p m'. mine_work_with_address Debug zero_digest quiet_env 5
            (new_miner 0 (new_miner_config 4)) sample_work [9] = Returned (Inr (Some p), m') \<and>
          verify_proof p (wp_target sample_work) = Inr True \<and>
          validate_proof_of_work zero_digest log2_floor (header_for sample_work p) p \<noteq> Inr False"
proof -
  obtain p m' where r: "mine_work_with_address Debug zero_digest quiet_env 5
      (new_miner 0 (new_miner_config 4)) sample_work [9] = Returned (Inr (Some p), m')" using sample_mined by blast
  have "length (wp_target sample_work) = 64" "wp_difficulty sample_work \<noteq> 0" by (simp_all add: sample_work_def)
  note c = mined_proof_verifies [OF zero_digest_sha this(1) log2_floor_faithful this(2) r]
  show ?thesis using r c by auto
qed

end
