(* ===== verification/Mining_Pool.thy ===== *)
theory Mining_Pool
  imports Hash_Map Miner
begin

text \<open>
  The mining pool (\<open>src/mining_pool.rs\<close>): its configuration, the shares with their two
  constructors, the miner accounts, and the pool's operations on its maps of miners and
  accounts, its statistics and its list of shares. Miner identifiers and addresses are byte
  lists. \<open>usize\<close> counts are natural numbers.
\<close>

section \<open>Configuration and statistics\<close>

record pool_config =
  pc_min_share_difficulty :: u64
  pc_max_miners :: nat
  pc_pow_config :: pow_config
  pc_pool_fee_percentage :: u8

definition new_pool_config :: pool_config where
  "new_pool_config = \<lparr>pc_min_share_difficulty = 1000, pc_max_miners = 10000,
     pc_pow_config = default_config, pc_pool_fee_percentage = 1\<rparr>"

definition with_fee :: "pool_config \<Rightarrow> u8 \<Rightarrow> pool_config" where
  "with_fee c fee =
     (if fee > 10 then c\<lparr>pc_pool_fee_percentage := 10\<rparr> else c\<lparr>pc_pool_fee_percentage := fee\<rparr>)"

record pool_stats =
  ps_connected_miners :: nat
  ps_total_hashrate :: f64
  ps_shares_accepted :: u64
  ps_shares_rejected :: u64
  ps_blocks_found :: u64
  ps_total_earnings :: u128
  ps_pool_fee_collected :: u128
  ps_uptime_seconds :: u64

definition new_pool_stats :: pool_stats where
  "new_pool_stats = \<lparr>ps_connected_miners = 0, ps_total_hashrate = Num 0, ps_shares_accepted = 0,
     ps_shares_rejected = 0, ps_blocks_found = 0, ps_total_earnings = 0, ps_pool_fee_collected = 0,
     ps_uptime_seconds = 0\<rparr>"

record pool_detailed_stats =
  pd_connected_miners :: nat
  pd_total_hashrate :: f64
  pd_shares_accepted :: u64
  pd_shares_rejected :: u64
  pd_blocks_found :: u64
  pd_total_earnings :: u128
  pd_pool_fee_collected :: u128
  pd_uptime_seconds :: u64
  pd_total_shares :: u64
  pd_block_shares :: u64
  pd_pool_efficiency :: f64
  pd_average_miner_hashrate :: f64

section \<open>Shares\<close>

record miner_share =
  sh_miner_id :: bytes
  sh_work_id :: bytes
  sh_nonce :: u64
  sh_extra_nonce :: u64
  sh_hash_result :: bytes
  sh_difficulty :: u64
  sh_timestamp :: u64
  sh_is_block :: bool
  sh_chain_id :: u32
  sh_block_height :: u64

definition new_miner_share ::
    "time \<Rightarrow> bytes \<Rightarrow> bytes \<Rightarrow> u64 \<Rightarrow> u64 \<Rightarrow> bytes \<Rightarrow> u64 \<Rightarrow> bool \<Rightarrow> u32 \<Rightarrow> u64 \<Rightarrow> miner_share pow_result" where
  "new_miner_share now miner_id work_id nonce extra_nonce hash_result difficulty is_block chain_id
     block_height =
     (if miner_id = [] \<or> length miner_id > 64
      then Inl (PoolError (''Invalid miner_id length: '' @ fmt_nat (length miner_id)))
      else if length hash_result \<noteq> 64
      then Inl (PoolError (''Invalid hash_result length: expected 64, got '' @
                           fmt_nat (length hash_result)))
      else if difficulty = 0 then Inl (PoolError ''Difficulty cannot be zero'')
      else if nonce = 0 \<and> \<not> is_block then Inl (PoolError ''Nonce cannot be zero'')
      else Inr \<lparr>sh_miner_id = miner_id, sh_work_id = work_id, sh_nonce = nonce,
                sh_extra_nonce = extra_nonce, sh_hash_result = hash_result,
                sh_difficulty = difficulty, sh_timestamp = now, sh_is_block = is_block,
                sh_chain_id = chain_id, sh_block_height = block_height\<rparr>)"

text \<open>The builder has the fields of the share.\<close>

definition share_builder :: "time \<Rightarrow> bytes \<Rightarrow> bytes \<Rightarrow> bytes \<Rightarrow> miner_share" where
  "share_builder now miner_id work_id hash_result =
     \<lparr>sh_miner_id = miner_id, sh_work_id = work_id, sh_nonce = 0, sh_extra_nonce = 0,
      sh_hash_result = hash_result, sh_difficulty = 1, sh_timestamp = now, sh_is_block = False,
      sh_chain_id = 0, sh_block_height = 0\<rparr>"

definition sb_with_nonce :: "u64 \<Rightarrow> miner_share \<Rightarrow> miner_share" where
  "sb_with_nonce nonce s = s\<lparr>sh_nonce := nonce\<rparr>"

definition sb_with_extra_nonce :: "u64 \<Rightarrow> miner_share \<Rightarrow> miner_share" where
  "sb_with_extra_nonce extra_nonce s = s\<lparr>sh_extra_nonce := extra_nonce\<rparr>"

definition sb_with_difficulty :: "u64 \<Rightarrow> miner_share \<Rightarrow> miner_share" where
  "sb_with_difficulty difficulty s = s\<lparr>sh_difficulty := difficulty\<rparr>"

definition sb_with_timestamp :: "u64 \<Rightarrow> miner_share \<Rightarrow> miner_share" where
  "sb_with_timestamp timestamp s = s\<lparr>sh_timestamp := timestamp\<rparr>"

definition sb_with_is_block :: "bool \<Rightarrow> miner_share \<Rightarrow> miner_share" where
  "sb_with_is_block is_block s = s\<lparr>sh_is_block := is_block\<rparr>"

definition sb_with_chain_id :: "u32 \<Rightarrow> miner_share \<Rightarrow> miner_share" where
  "sb_with_chain_id chain_id s = s\<lparr>sh_chain_id := chain_id\<rparr>"

definition sb_with_block_height :: "u64 \<Rightarrow> miner_share \<Rightarrow> miner_share" where
  "sb_with_block_height height s = s\<lparr>sh_block_height := height\<rparr>"

definition build_share :: "miner_share \<Rightarrow> miner_share pow_result" where
  "build_share s =
     (if length (sh_hash_result s) \<noteq> 64 then Inl (PoolError ''Invalid hash result length'')
      else if sh_miner_id s = [] then Inl (PoolError ''Miner ID cannot be empty'')
      else Inr s)"

section \<open>Accounts and the pool\<close>

record miner_account =
  ma_miner_id :: bytes
  ma_miner_address :: bytes
  ma_total_shares :: u64
  ma_total_earnings :: u128
  ma_pending_payout :: u128
  ma_last_share_time :: u64
  ma_connected_since :: u64

definition new_miner_account :: "time \<Rightarrow> bytes \<Rightarrow> bytes \<Rightarrow> miner_account" where
  "new_miner_account now miner_id miner_address =
     \<lparr>ma_miner_id = miner_id, ma_miner_address = miner_address, ma_total_shares = 0,
      ma_total_earnings = 0, ma_pending_payout = 0, ma_last_share_time = now,
      ma_connected_since = now\<rparr>"

record mining_pool =
  mp_config :: pool_config
  mp_miners :: "(bytes, miner) hmap"
  mp_accounts :: "(bytes, miner_account) hmap"
  mp_stats :: pool_stats
  mp_shares :: "miner_share list"
  mp_current_work :: "work_package option"
  mp_start_time :: u64
  mp_total_shares :: u64

definition new_mining_pool :: "time \<Rightarrow> pool_config \<Rightarrow> mining_pool" where
  "new_mining_pool start c =
     \<lparr>mp_config = c, mp_miners = [], mp_accounts = [], mp_stats = new_pool_stats, mp_shares = [],
      mp_current_work = None, mp_start_time = start, mp_total_shares = 0\<rparr>"

definition register_miner ::
    "time \<Rightarrow> mining_pool \<Rightarrow> bytes \<Rightarrow> bytes \<Rightarrow> unit pow_result \<times> mining_pool" where
  "register_miner now p miner_id miner_address =
     (if length (mp_miners p) \<ge> pc_max_miners (mp_config p)
      then (Inl (PoolError ''Pool is full''), p)
      else if hm_contains (mp_miners p) miner_id
      then (Inl (PoolError ''Miner already registered''), p)
      else
        let miners = hm_insert miner_id (new_miner now (new_miner_config 1)) (mp_miners p);
            accounts = hm_insert miner_id (new_miner_account now miner_id miner_address) (mp_accounts p)
        in (Inr (), p\<lparr>mp_miners := miners, mp_accounts := accounts,
                      mp_stats := (mp_stats p)\<lparr>ps_connected_miners := length miners\<rparr>\<rparr>))"

definition unregister_miner :: "mining_pool \<Rightarrow> bytes \<Rightarrow> unit pow_result \<times> mining_pool" where
  "unregister_miner p miner_id =
     (let miners = hm_remove miner_id (mp_miners p);
          accounts = hm_remove miner_id (mp_accounts p)
      in (Inr (), p\<lparr>mp_miners := miners, mp_accounts := accounts,
                    mp_stats := (mp_stats p)\<lparr>ps_connected_miners := length miners\<rparr>\<rparr>))"

definition get_miner_count :: "mining_pool \<Rightarrow> nat" where
  "get_miner_count p = length (mp_miners p)"

definition distribute_work :: "mining_pool \<Rightarrow> work_package \<Rightarrow> unit pow_result \<times> mining_pool" where
  "distribute_work p work =
     (if mp_miners p = [] then (Inl (PoolError ''No miners connected''), p)
      else (Inr (), p\<lparr>mp_miners := map (\<lambda>(k, m). (k, set_work m work)) (mp_miners p),
                      mp_current_work := Some work\<rparr>))"

definition submit_share ::
    "build \<Rightarrow> time \<Rightarrow> mining_pool \<Rightarrow> miner_share \<Rightarrow> (bool pow_result \<times> mining_pool) option" where
  "submit_share b now p share =
     (let stats = mp_stats p;
          reject = (\<lambda>msg. do {
            rejected \<leftarrow> add_w b (ps_shares_rejected stats) 1;
            Some (Inl (PoolError msg), p\<lparr>mp_stats := stats\<lparr>ps_shares_rejected := rejected\<rparr>\<rparr>)
          })
      in if sh_difficulty share < pc_min_share_difficulty (mp_config p)
         then reject ''Share difficulty too low''
         else do {
           expiry \<leftarrow> add_w b (sh_timestamp share) 3600;
           if now > expiry then reject ''Share too old''
           else do {
             let is_block = sh_is_block share;
             found \<leftarrow> (if is_block then add_w b (ps_blocks_found stats) 1
                       else Some (ps_blocks_found stats));
             accepted \<leftarrow> add_w b (ps_shares_accepted stats) 1;
             let total = mp_total_shares p + 1;
             accounts \<leftarrow> (case hm_get (mp_accounts p) (sh_miner_id share) of
                None \<Rightarrow> Some (mp_accounts p)
              | Some account \<Rightarrow> do {
                  count \<leftarrow> add_w b (ma_total_shares account) 1;
                  Some (hm_insert (sh_miner_id share)
                          (account\<lparr>ma_total_shares := count, ma_last_share_time := now\<rparr>)
                          (mp_accounts p))
                });
             Some (Inr is_block,
                   p\<lparr>mp_stats := stats\<lparr>ps_blocks_found := found, ps_shares_accepted := accepted\<rparr>,
                     mp_total_shares := total, mp_accounts := accounts,
                     mp_shares := mp_shares p @ [share]\<rparr>)
           }
         })"

definition total_hashrate :: "u64 \<Rightarrow> mining_pool \<Rightarrow> f64" where
  "total_hashrate uptime p =
     foldl f_add (Num 0) (map (\<lambda>m. ms_hashrate (get_miner_stats uptime m)) (hm_values (mp_miners p)))"

definition get_pool_stats :: "u64 \<Rightarrow> mining_pool \<Rightarrow> pool_stats" where
  "get_pool_stats uptime p =
     (mp_stats p)\<lparr>ps_total_hashrate := total_hashrate uptime p,
                  ps_connected_miners := length (mp_miners p), ps_uptime_seconds := uptime\<rparr>"

definition get_miner_shares :: "mining_pool \<Rightarrow> bytes \<Rightarrow> miner_share list" where
  "get_miner_shares p miner_id = filter (\<lambda>s. sh_miner_id s = miner_id) (mp_shares p)"

definition validate_miner_address :: "bytes \<Rightarrow> unit pow_result" where
  "validate_miner_address address =
     (if length address \<noteq> 20
      then Inl (PoolError (''Invalid miner address length: expected 20 bytes, got '' @
                           fmt_nat (length address)))
      else if list_all (\<lambda>x. x = 0) address
      then Inl (PoolError ''Miner address cannot be all zeros'')
      else if list_all (\<lambda>x. x = 0xFF) address
      then Inl (PoolError ''Miner address cannot be all ones'')
      else Inr ())"

definition calculate_miner_payout ::
    "build \<Rightarrow> mining_pool \<Rightarrow> bytes \<Rightarrow> u128 \<Rightarrow> u128 pow_result option" where
  "calculate_miner_payout b p miner_id total_block_reward =
     (case validate_miner_address miner_id of
        Inl e \<Rightarrow> Some (Inl e)
      | Inr _ \<Rightarrow>
          let shares = get_miner_shares p miner_id in
          if shares = [] then Some (Inr 0)
          else do {
            total_shares \<leftarrow> sum_w b (map sh_difficulty (mp_shares p));
            if total_shares = 0 then Some (Inr 0)
            else do {
              miner_share_difficulty \<leftarrow> sum_w b (map sh_difficulty shares);
              let miner_percentage = f_div (f_of_w miner_share_difficulty) (f_of_w total_shares);
              product \<leftarrow> mul_w b total_block_reward (ucast (pc_pool_fee_percentage (mp_config p)));
              let pool_fee = product div 100;
              reward_after_fee \<leftarrow> sub_w b total_block_reward pool_fee;
              Some (Inr (f_to_w (f_mul (f_of_w reward_after_fee) miner_percentage)))
            }
          })"

definition pool_process_payout ::
    "build \<Rightarrow> mining_pool \<Rightarrow> bytes \<Rightarrow> u128 \<Rightarrow> (unit pow_result \<times> mining_pool) option" where
  "pool_process_payout b p miner_address amount =
     (case validate_miner_address miner_address of
        Inl e \<Rightarrow> Some (Inl e, p)
      | Inr _ \<Rightarrow>
          if amount = 0 then Some (Inl (PoolError ''Payout amount cannot be zero''), p)
          else (case hm_get (mp_accounts p) miner_address of
                  None \<Rightarrow> Some (Inl (PoolError ''Miner account not found''), p)
                | Some account \<Rightarrow> do {
                    pending \<leftarrow> add_w b (ma_pending_payout account) amount;
                    earnings \<leftarrow> add_w b (ma_total_earnings account) amount;
                    Some (Inr (),
                      p\<lparr>mp_accounts := hm_insert miner_address
                          (account\<lparr>ma_pending_payout := pending, ma_total_earnings := earnings\<rparr>)
                          (mp_accounts p)\<rparr>)
                  }))"

definition pool_get_miner_account :: "mining_pool \<Rightarrow> bytes \<Rightarrow> miner_account option" where
  "pool_get_miner_account p miner_id = hm_get (mp_accounts p) miner_id"

definition get_all_miner_accounts :: "mining_pool \<Rightarrow> miner_account list" where
  "get_all_miner_accounts p = hm_values (mp_accounts p)"

definition get_shares_since :: "mining_pool \<Rightarrow> u64 \<Rightarrow> miner_share list" where
  "get_shares_since p timestamp = filter (\<lambda>s. sh_timestamp s \<ge> timestamp) (mp_shares p)"

text \<open>\<open>retain\<close> with the subtraction that can panic.\<close>

fun retain_young :: "build \<Rightarrow> time \<Rightarrow> u64 \<Rightarrow> miner_share list \<Rightarrow> miner_share list option" where
  "retain_young b now max_age [] = Some []"
| "retain_young b now max_age (s # ss) = do {
     age \<leftarrow> sub_w b now (sh_timestamp s);
     rest \<leftarrow> retain_young b now max_age ss;
     Some (if age \<le> max_age then s # rest else rest)
   }"

definition clear_old_shares :: "build \<Rightarrow> time \<Rightarrow> mining_pool \<Rightarrow> u64 \<Rightarrow> mining_pool option" where
  "clear_old_shares b now p max_age_seconds = do {
     kept \<leftarrow> retain_young b now max_age_seconds (mp_shares p);
     Some (p\<lparr>mp_shares := kept\<rparr>)
   }"

definition get_pool_fee_collected :: "mining_pool \<Rightarrow> u128" where
  "get_pool_fee_collected p = ps_pool_fee_collected (mp_stats p)"

definition add_pool_fee :: "build \<Rightarrow> mining_pool \<Rightarrow> u128 \<Rightarrow> mining_pool option" where
  "add_pool_fee b p amount = do {
     fee \<leftarrow> add_w b (ps_pool_fee_collected (mp_stats p)) amount;
     Some (p\<lparr>mp_stats := (mp_stats p)\<lparr>ps_pool_fee_collected := fee\<rparr>\<rparr>)
   }"

definition get_average_hashrate :: "u64 \<Rightarrow> mining_pool \<Rightarrow> f64" where
  "get_average_hashrate uptime p =
     (if mp_miners p = [] then Num 0
      else f_div (total_hashrate uptime p) (f_of_nat (length (mp_miners p))))"

definition get_pool_efficiency :: "build \<Rightarrow> mining_pool \<Rightarrow> f64 option" where
  "get_pool_efficiency b p =
     (if mp_shares p = [] then Some (Num 0)
      else do {
        block_shares \<leftarrow> sum_w b (map sh_difficulty (filter sh_is_block (mp_shares p)));
        total_shares \<leftarrow> sum_w b (map sh_difficulty (mp_shares p));
        if total_shares = 0 then Some (Num 0)
        else Some (f_mul (f_div (f_of_w block_shares) (f_of_w total_shares)) (Num 100))
      })"

text \<open>The totals per miner, and the stable sort by decreasing total.\<close>

fun accumulate_shares ::
    "build \<Rightarrow> (bytes, u64) hmap \<Rightarrow> miner_share list \<Rightarrow> (bytes, u64) hmap option" where
  "accumulate_shares b acc [] = Some acc"
| "accumulate_shares b acc (s # ss) = do {
     v \<leftarrow> add_w b (case hm_get acc (sh_miner_id s) of Some v \<Rightarrow> v | None \<Rightarrow> 0) (sh_difficulty s);
     accumulate_shares b (hm_insert (sh_miner_id s) v acc) ss
   }"

definition get_top_miners :: "build \<Rightarrow> mining_pool \<Rightarrow> nat \<Rightarrow> (bytes \<times> u64) list option" where
  "get_top_miners b p limit = do {
     totals \<leftarrow> accumulate_shares b [] (mp_shares p);
     Some (take limit (sort_key (\<lambda>e. - int (unat (snd e))) totals))
   }"

definition get_detailed_stats :: "build \<Rightarrow> u64 \<Rightarrow> mining_pool \<Rightarrow> pool_detailed_stats option" where
  "get_detailed_stats b uptime p = do {
     total_shares \<leftarrow> sum_w b (map sh_difficulty (mp_shares p));
     block_shares \<leftarrow> sum_w b (map sh_difficulty (filter sh_is_block (mp_shares p)));
     let stats = mp_stats p;
     let rate = total_hashrate uptime p;
     Some \<lparr>pd_connected_miners = ps_connected_miners stats, pd_total_hashrate = rate,
           pd_shares_accepted = ps_shares_accepted stats,
           pd_shares_rejected = ps_shares_rejected stats,
           pd_blocks_found = ps_blocks_found stats, pd_total_earnings = ps_total_earnings stats,
           pd_pool_fee_collected = ps_pool_fee_collected stats,
           pd_uptime_seconds = ps_uptime_seconds stats, pd_total_shares = total_shares,
           pd_block_shares = block_shares,
           pd_pool_efficiency =
             (if total_shares > 0
              then f_mul (f_div (f_of_w block_shares) (f_of_w total_shares)) (Num 100) else Num 0),
           pd_average_miner_hashrate =
             (if mp_miners p = [] then Num 0 else f_div rate (f_of_nat (length (mp_miners p))))\<rparr>
   }"

section \<open>The pool invariant\<close>

inductive pool_step :: "mining_pool \<Rightarrow> mining_pool \<Rightarrow> bool" where
  register: "register_miner now p i a = (r, p') \<Longrightarrow> pool_step p p'"
| unregister: "unregister_miner p i = (r, p') \<Longrightarrow> pool_step p p'"
| distribute: "distribute_work p w = (r, p') \<Longrightarrow> pool_step p p'"
| submit: "submit_share b now p s = Some (r, p') \<Longrightarrow> pool_step p p'"
| payout: "pool_process_payout b p i n = Some (r, p') \<Longrightarrow> pool_step p p'"
| clear: "clear_old_shares b now p n = Some p' \<Longrightarrow> pool_step p p'"
| fee: "add_pool_fee b p n' = Some p' \<Longrightarrow> pool_step p p'"

definition pool_ok :: "mining_pool \<Rightarrow> bool" where
  "pool_ok p \<longleftrightarrow> hm_invar (mp_miners p) \<and> hm_invar (mp_accounts p) \<and>
     (\<forall>i. hm_get (mp_miners p) i = None \<longleftrightarrow> hm_get (mp_accounts p) i = None) \<and>
     (\<forall>i a. hm_get (mp_accounts p) i = Some a \<longrightarrow> ma_miner_id a = i) \<and>
     ps_connected_miners (mp_stats p) = length (mp_miners p) \<and>
     length (mp_miners p) \<le> pc_max_miners (mp_config p) \<and>
     ps_shares_accepted (mp_stats p) = mp_total_shares p"

lemma pool_ok_new: "pool_ok (new_mining_pool t c)"
  by (simp add: pool_ok_def new_mining_pool_def new_pool_stats_def)

lemma pool_ok_register:
  "register_miner now p i a = (r, p') \<Longrightarrow> pool_ok p \<Longrightarrow> pool_ok p'"
  using hm.length_insert [of "mp_miners p" i]
  by (auto simp: register_miner_def Let_def pool_ok_def hm_get_insert new_miner_account_def
      split: if_splits)

lemma pool_ok_unregister:
  "unregister_miner p i = (r, p') \<Longrightarrow> pool_ok p \<Longrightarrow> pool_ok p'"
  using hm.length_remove_le [of "mp_miners p" i]
  by (auto simp: unregister_miner_def Let_def pool_ok_def hm_get_remove split: if_splits)

lemma map_of_map_snd: "map_of (map (\<lambda>(k, v). (k, f v)) m) = map_option f \<circ> map_of m"
  by (induction m) auto

lemma hm_invar_map: "hm_invar (map (\<lambda>(k, v). (k, f v)) m) = hm_invar m"
  by (simp add: hm_invar_def case_prod_beta' comp_def)

lemma pool_ok_cong [simp]:
  "pool_ok (p\<lparr>mp_shares := x\<rparr>) = pool_ok p"
  "pool_ok (p\<lparr>mp_stats := (mp_stats p)\<lparr>ps_pool_fee_collected := y\<rparr>\<rparr>) = pool_ok p"
  by (simp_all add: pool_ok_def)

lemma pool_ok_distribute:
  "distribute_work p w = (r, p') \<Longrightarrow> pool_ok p \<Longrightarrow> pool_ok p'"
  by (clarsimp simp: distribute_work_def pool_ok_def map_of_map_snd hm_invar_map
      split: if_splits)

lemma submit_share_cases:
  assumes "submit_share b now p s = Some (r, p')"
  obtains (rejected) st msg where "r = Inl (PoolError msg)" "p' = p\<lparr>mp_stats := st\<rparr>"
      "ps_shares_accepted st = ps_shares_accepted (mp_stats p)"
      "ps_connected_miners st = ps_connected_miners (mp_stats p)"
  | (accepted) accs st where
      "r = Inr (sh_is_block s)" "sh_difficulty s \<ge> pc_min_share_difficulty (mp_config p)"
      "p' = p\<lparr>mp_stats := st, mp_total_shares := mp_total_shares p + 1, mp_accounts := accs,
              mp_shares := mp_shares p @ [s]\<rparr>"
      "ps_shares_accepted st = ps_shares_accepted (mp_stats p) + 1"
      "ps_connected_miners st = ps_connected_miners (mp_stats p)"
      "accs = mp_accounts p \<or>
       (\<exists>a n. hm_get (mp_accounts p) (sh_miner_id s) = Some a \<and>
          accs = hm_insert (sh_miner_id s) (a\<lparr>ma_total_shares := n, ma_last_share_time := now\<rparr>)
                   (mp_accounts p))"
proof (cases "sh_difficulty s < pc_min_share_difficulty (mp_config p)")
  case True
  with assms show thesis
    by (auto simp: submit_share_def Let_def split: bind_splits intro: rejected)
next
  case False
  obtain e where e: "add_w b (sh_timestamp s) 3600 = Some e"
    using assms False by (auto simp: submit_share_def Let_def split: bind_splits)
  show thesis
  proof (cases "now > e")
    case True
    with assms False e show thesis
      by (auto simp: submit_share_def Let_def split: bind_splits intro: rejected)
  next
    case young: False
    with assms False e show thesis
      by (auto simp: submit_share_def Let_def not_less split: bind_splits option.splits if_splits
          dest!: add_w_Some intro!: accepted)
  qed
qed

lemma pool_ok_submit:
  "submit_share b now p s = Some (r, p') \<Longrightarrow> pool_ok p \<Longrightarrow> pool_ok p'"
  by (erule submit_share_cases) (auto simp: pool_ok_def hm_get_insert split: if_splits)

lemma pool_ok_payout:
  "pool_process_payout b p i n = Some (r, p') \<Longrightarrow> pool_ok p \<Longrightarrow> pool_ok p'"
  by (auto simp: pool_process_payout_def pool_ok_def hm_get_insert
      split: sum.splits if_splits option.splits bind_splits)

lemma pool_ok_step: "pool_step p p' \<Longrightarrow> pool_ok p \<Longrightarrow> pool_ok p'"
proof (induction rule: pool_step.induct)
  case (clear b now p n p')
  then show ?case by (auto simp: clear_old_shares_def split: bind_splits)
next
  case (fee b p n p')
  then show ?case by (auto simp: add_pool_fee_def split: bind_splits)
qed (blast intro: pool_ok_register pool_ok_unregister pool_ok_distribute pool_ok_submit pool_ok_payout)+

text \<open>
  C20: In every reachable state of the pool exactly the registered miners have accounts, each
  under its own identifier, the connected count is the number of registered miners and does
  not exceed the configured maximum, and the accepted shares equal the pool's share counter.
\<close>
theorem pool_invariant:
  assumes "pool_step\<^sup>*\<^sup>* (new_mining_pool t c) p"
  shows "(\<forall>i. hm_contains (mp_miners p) i \<longleftrightarrow> pool_get_miner_account p i \<noteq> None) \<and>
         (\<forall>i a. pool_get_miner_account p i = Some a \<longrightarrow> ma_miner_id a = i) \<and>
         ps_connected_miners (mp_stats p) = get_miner_count p \<and>
         get_miner_count p \<le> pc_max_miners (mp_config p) \<and>
         ps_shares_accepted (mp_stats p) = mp_total_shares p"
proof -
  from assms have "pool_ok p"
  proof (induction rule: rtranclp_induct)
    case base
    show ?case by (rule pool_ok_new)
  next
    case (step p p')
    then show ?case by (blast intro: pool_ok_step)
  qed
  then show ?thesis
    by (simp add: pool_ok_def pool_get_miner_account_def get_miner_count_def)
qed

definition sample_pool :: mining_pool where
  "sample_pool = snd (register_miner 5 (new_mining_pool 0 new_pool_config) [7] [8])"

lemma sample_pool_reachable: "pool_step\<^sup>*\<^sup>* (new_mining_pool 0 new_pool_config) sample_pool"
  by (intro r_into_rtranclp pool_step.register [where now = 5 and i = "[7]" and a = "[8]"
        and r = "fst (register_miner 5 (new_mining_pool 0 new_pool_config) [7] [8])"])
     (simp add: sample_pool_def)

theorem pool_invariant_witness:
  "pool_get_miner_account sample_pool [7] \<noteq> None \<and>
   ps_connected_miners (mp_stats sample_pool) = get_miner_count sample_pool"
proof -
  have "hm_contains (mp_miners sample_pool) [7]"
    by (simp add: sample_pool_def register_miner_def new_mining_pool_def new_pool_config_def Let_def)
  with pool_invariant [OF sample_pool_reachable] show ?thesis by blast
qed

section \<open>What a share proves\<close>

text \<open>
  Accepting a share does not depend on its proof of work: with any other hash result,
  work identifier and nonces the same share is accepted with the same answer, in particular
  as a block when it says it is one, and the pool ends in the same state apart from the
  stored share itself.
\<close>
theorem share_proof_unchecked:
  assumes "submit_share b now p s = Some (Inr is_block, p')"
    and "s' = s\<lparr>sh_hash_result := h, sh_work_id := w, sh_nonce := n, sh_extra_nonce := e\<rparr>"
  shows "is_block = sh_is_block s \<and>
         submit_share b now p s' = Some (Inr is_block, p'\<lparr>mp_shares := mp_shares p @ [s']\<rparr>)"
  using assms
  by (auto simp: submit_share_def Let_def split: bind_splits if_splits option.splits)

definition sample_share :: miner_share where
  "sample_share = \<lparr>sh_miner_id = [7], sh_work_id = [], sh_nonce = 1, sh_extra_nonce = 0,
     sh_hash_result = replicate 64 0, sh_difficulty = 5000, sh_timestamp = 100, sh_is_block = True,
     sh_chain_id = 0, sh_block_height = 1\<rparr>"

theorem share_proof_unchecked_witness:
  "\<exists>p'. submit_share Debug 200 (new_mining_pool 0 new_pool_config)
          (sample_share\<lparr>sh_hash_result := [], sh_work_id := [], sh_nonce := 0, sh_extra_nonce := 0\<rparr>) =
        Some (Inr True, p')"
proof -
  have "\<exists>p'. submit_share Debug 200 (new_mining_pool 0 new_pool_config) sample_share = Some (Inr True, p')"
    by (simp add: submit_share_def sample_share_def new_mining_pool_def new_pool_config_def
        new_pool_stats_def add_w_def Let_def)
  then obtain p' where "submit_share Debug 200 (new_mining_pool 0 new_pool_config) sample_share =
      Some (Inr True, p')" by blast
  from share_proof_unchecked [where h = "[]" and w = "[]" and n = 0 and e = 0, OF this refl] show ?thesis by blast
qed


section \<open>Payouts\<close>

lemma rne_le_of_nat: "x \<le> of_nat n \<Longrightarrow> n < 2 ^ 53 \<Longrightarrow> rne x \<le> of_nat n"
  using rne_mono [of x "of_nat n"] by simp

lemma filter_sum_le: "sum_list (map f (filter P xs)) \<le> sum_list (map f xs)" for f :: "'a \<Rightarrow> nat"
  by (induction xs) auto

text \<open>The fee, the fraction of the shares and the portion of the reward, each within its bounds.\<close>

lemma pool_fee_of:
  fixes reward :: u128 and fee :: u8
  assumes "unat reward < 2 ^ 53" and "fee \<le> 10"
  shows "mul_w b reward (ucast fee) = Some (reward * ucast fee)"
    and "unat (reward * ucast fee div 100) = unat reward * unat fee div 100"
    and "unat reward * unat fee div 100 \<le> unat reward"
proof -
  have f10: "unat fee \<le> 10" using assms(2) by (simp add: word_le_nat_alt)
  then have ufee: "unat (ucast fee :: u128) = unat fee" by (simp add: unat_ucast_mod)
  have "unat reward * unat fee \<le> unat reward * 10" using f10 by (rule mult_left_mono) simp
  moreover have "unat reward * 10 < 2 ^ LENGTH(128)" using assms(1) by simp
  ultimately have rf: "unat reward * unat fee < 2 ^ LENGTH(128)" by (rule le_less_trans)
  show "mul_w b reward (ucast fee) = Some (reward * ucast fee)"
    using rf by (intro mul_w_exact) (simp only: ufee)
  have "unat (reward * ucast fee) = unat reward * unat fee" using rf by (subst unat_mul_exact) (simp_all only: ufee)
  then show "unat (reward * ucast fee div 100) = unat reward * unat fee div 100" by (simp add: unat_div)
  have "unat reward * unat fee div 100 \<le> unat reward * 10 div 100"
    using f10 by (intro div_le_mono mult_left_mono) simp_all
  then show "unat reward * unat fee div 100 \<le> unat reward" by simp
qed

lemma share_fraction:
  fixes own all :: u64
  assumes "unat own \<le> unat all" and "0 < unat all"
  obtains q where "f_div (f_of_w own) (f_of_w all) = Num q" "0 \<le> q" "q \<le> 1"
proof -
  let ?q = "rne (rne (of_nat (unat own)) / rne (of_nat (unat all)))"
  have apos: "0 < rne (of_nat (unat all))" by (rule rne_of_nat_pos [OF assms(2)])
  have "rne (of_nat (unat own)) \<le> rne (of_nat (unat all))"
    using assms(1) by (intro rne_mono) (simp only: of_nat_le_iff)
  then have "rne (of_nat (unat own)) / rne (of_nat (unat all)) \<le> 1" using apos by simp
  then have "?q \<le> 1" using rne_mono [of _ 1] by fastforce
  moreover have "0 \<le> ?q" using apos by (intro rne_nonneg divide_nonneg_nonneg of_nat_0_le_iff)
  moreover have "f_div (f_of_w own) (f_of_w all) = Num ?q"
    unfolding f_of_w_Num f_div.simps using apos by (intro if_not_P) simp
  ultimately show ?thesis using that by blast
qed

lemma reward_portion:
  fixes r :: u128
  assumes "0 \<le> q" and "q \<le> 1" and "unat r < 2 ^ 53"
  shows "f_of_w r = Num (of_nat (unat r))"
    and "unat (f_to_w (Num (rne (of_nat (unat r) * q))) :: u128) \<le> unat r"
proof -
  show "f_of_w r = Num (of_nat (unat r))" by (simp only: f_of_w_Num rne_of_nat_exact [OF assms(3)])
  have x0: "0 \<le> rne (of_nat (unat r) * q)" by (rule rne_nonneg [OF mult_nonneg_nonneg [OF of_nat_0_le_iff assms(1)]])
  have "of_nat (unat r) * q \<le> of_nat (unat r) * 1" using assms(2) by (rule mult_left_mono) (rule of_nat_0_le_iff)
  then have "rne (of_nat (unat r) * q) \<le> of_nat (unat r)" using assms(3) by (intro rne_le_of_nat) simp
  then have "nat \<lfloor>rne (of_nat (unat r) * q)\<rfloor> \<le> unat r"
    by (metis floor_mono floor_of_nat nat_int nat_mono)
  then show "unat (f_to_w (Num (rne (of_nat (unat r) * q))) :: u128) \<le> unat r"
    unfolding unat_f_to_w_Num [OF x0] by linarith
qed



definition miner_a :: bytes where "miner_a = replicate 20 1"
definition miner_b :: bytes where "miner_b = replicate 20 2"

definition paying_pool :: "u64 \<Rightarrow> u64 \<Rightarrow> mining_pool" where
  "paying_pool da db = (new_mining_pool 0 new_pool_config)\<lparr>mp_shares :=
     [sample_share\<lparr>sh_miner_id := miner_a, sh_difficulty := da\<rparr>,
      sample_share\<lparr>sh_miner_id := miner_b, sh_difficulty := db\<rparr>]\<rparr>"

lemma miner_a_ok: "validate_miner_address miner_a = Inr ()" and "miner_b \<noteq> miner_a"
  by (simp_all add: validate_miner_address_def miner_a_def miner_b_def list_all_iff)


text \<open>
  Share difficulties are claims of the miners and their sum can wrap. With one share of
  \<open>2 ^ 63\<close> and one of \<open>2 ^ 63 + 1024\<close> a payout out of a reward of 1000 panics in a debug build and
  is more than \<open>2 ^ 62\<close> in a release build.
\<close>
theorem payout_overflow:
  "calculate_miner_payout Debug (paying_pool (2 ^ 63) (2 ^ 63 + 1024)) miner_a 1000 = None \<and>
   (\<exists>v. calculate_miner_payout Release (paying_pool (2 ^ 63) (2 ^ 63 + 1024)) miner_a 1000 =
          Some (Inr v) \<and> 2 ^ 62 < unat v)"
proof
  have own: "get_miner_shares (paying_pool da db) miner_a =
      [sample_share\<lparr>sh_miner_id := miner_a, sh_difficulty := da\<rparr>]" for da db
    by (simp add: get_miner_shares_def paying_pool_def miner_a_def miner_b_def)
  have all: "map sh_difficulty (mp_shares (paying_pool da db)) = [da, db]" for da db
    by (simp add: paying_pool_def)
  have fee: "pc_pool_fee_percentage (mp_config (paying_pool da db)) = 1" for da db
    by (simp add: paying_pool_def new_mining_pool_def new_pool_config_def)
  show "calculate_miner_payout Debug (paying_pool (2 ^ 63) (2 ^ 63 + 1024)) miner_a 1000 = None"
    by (simp add: calculate_miner_payout_def miner_a_ok own all Let_def sum_w_def add_w_def)
  have p: "rne 9223372036854775808 = 9223372036854775808"
    using rne_exact [OF f64_exact_pow2 [of 63]] by simp
  have q: "rne 9007199254740992 = 9007199254740992"
    using rne_exact [OF f64_exact_pow2 [of 53]] by simp
  have r: "rne 8917127262193582080 = 8917127262193582080"
    using rne_exact [OF f64_exact_scale [OF f64_exact_nat [of 990], of 53]] by simp
  have "calculate_miner_payout Release (paying_pool (2 ^ 63) (2 ^ 63 + 1024)) miner_a 1000 =
      Some (Inr 8917127262193582080)"
    by (simp add: calculate_miner_payout_def miner_a_ok own all fee Let_def sum_w_def f_of_w_def
        f_of_nat_def p q r)
  then show "\<exists>v. calculate_miner_payout Release (paying_pool (2 ^ 63) (2 ^ 63 + 1024)) miner_a 1000 =
          Some (Inr v) \<and> 2 ^ 62 < unat v" by simp
qed

lemma retain_young_Debug_future:
  "s \<in> set ss \<Longrightarrow> now < sh_timestamp s \<Longrightarrow> retain_young Debug now max_age ss = None"
proof (induction ss)
  case (Cons x ss)
  show ?case
  proof (cases "now < sh_timestamp x")
    case True
    then show ?thesis by (simp add: sub_w_def word_less_nat_alt)
  next
    case False
    with Cons have "s \<in> set ss" by auto
    with Cons show ?thesis by (cases "sub_w Debug now (sh_timestamp x)") simp_all
  qed
qed simp

lemma retain_young_Release:
  "retain_young Release now max_age ss = Some (filter (\<lambda>s. now - sh_timestamp s \<le> max_age) ss)"
  by (induction ss) simp_all

text \<open>
  A share dated in the future and difficult enough is never refused, however far ahead
  its timestamp lies. While it is ahead of the clock, clearing old shares panics in a debug
  build; a release build wraps the age and drops the share when the wrapped age is too old.
\<close>
theorem future_share_breaks_clearing:
  assumes "sh_difficulty s \<ge> pc_min_share_difficulty (mp_config p)" and "now < sh_timestamp s"
    and "unat (sh_timestamp s) + 3600 < 2 ^ 64" and "submit_share b now p s = Some (r, p')"
    and "later < sh_timestamp s"
  shows "r = Inr (sh_is_block s) \<and> clear_old_shares Debug later p' max_age = None \<and>
         (max_age < later - sh_timestamp s \<longrightarrow>
          (\<exists>p''. clear_old_shares Release later p' max_age = Some p'' \<and> s \<notin> set (mp_shares p'')))"
proof -
  have "add_w b (sh_timestamp s) 3600 = Some (sh_timestamp s + 3600)"
    "unat (sh_timestamp s + 3600) = unat (sh_timestamp s) + 3600"
    using assms(3) by (simp_all add: add_w_exact unat_add_exact)
  then have "add_w b (sh_timestamp s) 3600 = Some (sh_timestamp s + 3600)"
    "\<not> now > sh_timestamp s + 3600"
    using assms(2) by (simp_all add: word_less_nat_alt)
  then have r: "r = Inr (sh_is_block s)" and sh: "mp_shares p' = mp_shares p @ [s]"
    using assms(1,4)
    by (auto simp: submit_share_def Let_def not_less split: bind_splits option.splits if_splits)
  have "retain_young Debug later max_age (mp_shares p') = None"
    using assms(5) by (intro retain_young_Debug_future [of s]) (simp_all add: sh)
  with r show ?thesis
    by (auto simp: clear_old_shares_def retain_young_Release)
qed

theorem future_share_breaks_clearing_witness:
  "\<exists>p'. submit_share Debug 50 (new_mining_pool 0 new_pool_config) sample_share = Some (Inr True, p') \<and>
        clear_old_shares Debug 60 p' 86400 = None"
proof -
  have "\<exists>p'. submit_share Debug 50 (new_mining_pool 0 new_pool_config) sample_share = Some (Inr True, p')"
    by (simp add: submit_share_def sample_share_def new_mining_pool_def new_pool_config_def
        new_pool_stats_def add_w_def Let_def)
  then obtain p' where p': "submit_share Debug 50 (new_mining_pool 0 new_pool_config) sample_share =
      Some (Inr True, p')" by blast
  from future_share_breaks_clearing [OF _ _ _ p', of 60 86400] p'
  show ?thesis by (auto simp: sample_share_def new_mining_pool_def new_pool_config_def)
qed

end
