(* ===== verification/Consensus.thy ===== *)
theory Consensus
  imports Mining_Pool
begin

text \<open>
  The consensus engine (\<open>src/consensus.rs\<close>): one state per chain, the miners, the pool and
  the history of accepted blocks. The clock is \<open>now\<close>, in seconds.
\<close>

section \<open>State\<close>

record chain_state =
  cs_chain_id :: u32
  cs_current_height :: u64
  cs_current_difficulty :: u64
  cs_last_block_time :: u64
  cs_total_work :: u128
  cs_blocks_in_period :: u64
  cs_period_start_time :: u64

definition new_chain_state :: "time \<Rightarrow> u32 \<Rightarrow> chain_state" where
  "new_chain_state now chain_id = \<lparr>cs_chain_id = chain_id, cs_current_height = 0,
     cs_current_difficulty = 1000000, cs_last_block_time = now, cs_total_work = 0,
     cs_blocks_in_period = 0, cs_period_start_time = now\<rparr>"

record block_record =
  bk_chain_id :: u32
  bk_height :: u64
  bk_hash :: bytes
  bk_timestamp :: u64
  bk_difficulty :: u64
  bk_miner_address :: bytes
  bk_nonce :: u64

record consensus =
  co_config :: pow_config
  co_chain_states :: "(u32, chain_state) hmap"
  co_mining_pool :: mining_pool
  co_miners :: "(u32, miner) hmap"
  co_block_history :: "block_record list"
  co_start_time :: u64

definition new_consensus :: "time \<Rightarrow> pow_config \<Rightarrow> consensus" where
  "new_consensus start cfg = \<lparr>co_config = cfg, co_chain_states = [],
     co_mining_pool = new_mining_pool start new_pool_config, co_miners = [],
     co_block_history = [], co_start_time = start\<rparr>"

section \<open>Operations\<close>

definition initialize_chain :: "time \<Rightarrow> consensus \<Rightarrow> u32 \<Rightarrow> unit pow_result \<times> consensus" where
  "initialize_chain now c chain_id =
     (if chain_id \<ge> 20 then (Inl (InvalidBlock ''Invalid chain ID''), c)
      else if hm_contains (co_chain_states c) chain_id
      then (Inl (InvalidBlock ''Chain already initialized''), c)
      else (Inr (),
            c\<lparr>co_chain_states := hm_insert chain_id (new_chain_state now chain_id) (co_chain_states c),
              co_miners := hm_insert chain_id (new_miner now (new_miner_config 4)) (co_miners c)\<rparr>))"

definition get_chain_state :: "consensus \<Rightarrow> u32 \<Rightarrow> chain_state pow_result" where
  "get_chain_state c chain_id =
     (case hm_get (co_chain_states c) chain_id of
        Some s \<Rightarrow> Inr s | None \<Rightarrow> Inl (InvalidBlock ''Chain not found''))"

definition create_work_package ::
    "build \<Rightarrow> (bytes \<Rightarrow> bytes) \<Rightarrow> time \<Rightarrow> consensus \<Rightarrow> u32 \<Rightarrow> bytes \<Rightarrow> bytes \<Rightarrow> bytes \<Rightarrow>
     work_package pow_result option" where
  "create_work_package b sha now c chain_id block_hash parent_hash merkle_root =
     (case get_chain_state c chain_id of
        Inl e \<Rightarrow> Some (Inl e)
      | Inr state \<Rightarrow> do {
          height \<leftarrow> add_w b (cs_current_height state) 1;
          Some (new_work_package sha chain_id height block_hash parent_hash merkle_root now
                  (cs_current_difficulty state))
        })"

text \<open>
  The update of the chain state by an accepted proof, with the difficulty adjustment at the
  end of a period: the new state, and the error of the adjustment if there is one.
\<close>

definition advance_chain ::
    "build \<Rightarrow> time \<Rightarrow> pow_config \<Rightarrow> chain_state \<Rightarrow> work_proof \<Rightarrow> (pow_error option \<times> chain_state) option" where
  "advance_chain b now cfg state proof = do {
     block_time \<leftarrow> sub_w b now (cs_last_block_time state);
     height \<leftarrow> add_w b (cs_current_height state) 1;
     blocks \<leftarrow> add_w b (cs_blocks_in_period state) 1;
     work \<leftarrow> add_w b (cs_total_work state) (ucast (pf_difficulty_achieved proof));
     let state = state\<lparr>cs_current_height := height, cs_last_block_time := now,
                       cs_blocks_in_period := blocks, cs_total_work := work\<rparr>;
     period_elapsed \<leftarrow> sub_w b now (cs_period_start_time state);
     if blocks \<ge> difficulty_adjustment_interval cfg
     then do {
       elapsed_ms \<leftarrow> mul_w b period_elapsed 1000;
       adjusted \<leftarrow> adjust_difficulty_kadena_style b cfg (cs_current_difficulty state) blocks elapsed_ms;
       (case adjusted of
          Inl e \<Rightarrow> Some (Some e, state)
        | Inr new_difficulty \<Rightarrow>
            Some (None, state\<lparr>cs_current_difficulty := new_difficulty, cs_blocks_in_period := 0,
                              cs_period_start_time := now\<rparr>))
     }
     else Some (None, state)
   }"

definition record_of :: "time \<Rightarrow> u64 \<Rightarrow> work_proof \<Rightarrow> block_record" where
  "record_of now difficulty proof = \<lparr>bk_chain_id = pf_chain_id proof,
     bk_height = pf_block_height proof, bk_hash = pf_hash_result proof, bk_timestamp = now,
     bk_difficulty = difficulty, bk_miner_address = pf_miner_address proof,
     bk_nonce = pf_nonce proof\<rparr>"

definition submit_block ::
    "build \<Rightarrow> time \<Rightarrow> consensus \<Rightarrow> work_proof \<Rightarrow> (bool pow_result \<times> consensus) option" where
  "submit_block b now c proof =
     (case hm_get (co_chain_states c) (pf_chain_id proof) of
        None \<Rightarrow> Some (Inl (InvalidBlock ''Chain not found''), c)
      | Some state \<Rightarrow> do {
          expected \<leftarrow> add_w b (cs_current_height state) 1;
          if pf_block_height proof \<noteq> expected
          then Some (Inl (InvalidBlock (''Invalid block height: expected '' @ fmt_w expected @
                                        '', got '' @ fmt_w (pf_block_height proof))), c)
          else (case calculate_target_from_difficulty (cs_current_difficulty state) of
             Inl e \<Rightarrow> Some (Inl e, c)
           | Inr target \<Rightarrow>
               if \<not> slice_le (pf_hash_result proof) target
               then Some (Inl WorkProofVerificationFailed, c)
               else do {
                 (err, state') \<leftarrow> advance_chain b now (co_config c) state proof;
                 let c' = c\<lparr>co_chain_states :=
                              hm_insert (pf_chain_id proof) state' (co_chain_states c)\<rparr>;
                 (case err of
                    Some e \<Rightarrow> Some (Inl e, c')
                  | None \<Rightarrow> Some (Inr True, c'\<lparr>co_block_history := co_block_history c @
                              [record_of now (cs_current_difficulty state') proof]\<rparr>))
               })
        })"

definition get_block_history :: "consensus \<Rightarrow> u32 \<Rightarrow> nat \<Rightarrow> block_record list" where
  "get_block_history c chain_id limit =
     take limit (rev (filter (\<lambda>r. bk_chain_id r = chain_id) (co_block_history c)))"

definition get_miner :: "consensus \<Rightarrow> u32 \<Rightarrow> miner option" where
  "get_miner c chain_id = hm_get (co_miners c) chain_id"

definition validate_block_header ::
    "build \<Rightarrow> time \<Rightarrow> consensus \<Rightarrow> block_header \<Rightarrow> unit pow_result option" where
  "validate_block_header b now c header = validate_header b now (co_config c) header"

record consensus_stats =
  ct_active_chains :: nat
  ct_total_blocks :: u64
  ct_total_work :: u128
  ct_average_difficulty :: u128
  ct_uptime_seconds :: u64

definition get_consensus_stats :: "build \<Rightarrow> u64 \<Rightarrow> consensus \<Rightarrow> consensus_stats option" where
  "get_consensus_stats b uptime c = do {
     let total_blocks = (of_nat (length (co_block_history c)) :: u64);
     total_work \<leftarrow> sum_w b (map (\<lambda>r. ucast (bk_difficulty r) :: u128) (co_block_history c));
     average \<leftarrow> (if co_block_history c \<noteq> [] then div_w total_work (ucast total_blocks) else Some 0);
     Some \<lparr>ct_active_chains = length (co_chain_states c), ct_total_blocks = total_blocks,
           ct_total_work = total_work, ct_average_difficulty = average, ct_uptime_seconds = uptime\<rparr>
   }"

section \<open>Accepted blocks\<close>

lemma kadena_never_Inl: "adjust_difficulty_kadena_style b cfg d n t \<noteq> Some (Inl e)"
  by (auto simp: adjust_difficulty_kadena_style_def Let_def split: bind_splits)

lemma kadena_range:
  "adjust_difficulty_kadena_style b cfg d n t = Some (Inr d') \<Longrightarrow>
   d' = d \<or> (\<exists>x. d' = min (max x (min_difficulty cfg)) (max_difficulty cfg))"
  by (auto simp: adjust_difficulty_kadena_style_def Let_def split: if_splits bind_splits)

lemma advance_chain_Some:
  assumes "advance_chain b now cfg s p = Some (e, s')"
  shows "e = None" and "cs_current_height s' = cs_current_height s + 1"
    and "cs_chain_id s' = cs_chain_id s"
    and "cs_current_difficulty s' = cs_current_difficulty s \<or>
         (\<exists>x. cs_current_difficulty s' = min (max x (min_difficulty cfg)) (max_difficulty cfg))"
proof -
  show "e = None" "cs_current_height s' = cs_current_height s + 1" "cs_chain_id s' = cs_chain_id s"
    using assms
    by (auto simp: advance_chain_def Let_def kadena_never_Inl split: bind_splits if_splits sum.splits
        dest: add_w_Some)
  have "cs_current_difficulty s' = cs_current_difficulty s \<or>
      (\<exists>n t. adjust_difficulty_kadena_style b cfg (cs_current_difficulty s) n t =
             Some (Inr (cs_current_difficulty s')))"
    using assms
    by (auto simp: advance_chain_def Let_def kadena_never_Inl split: bind_splits if_splits sum.splits)
  then show "cs_current_difficulty s' = cs_current_difficulty s \<or>
      (\<exists>x. cs_current_difficulty s' = min (max x (min_difficulty cfg)) (max_difficulty cfg))"
    using kadena_range by blast
qed

text \<open>A submission either changes nothing or advances its chain by one recorded block.\<close>

lemma submit_block_cases:
  assumes "submit_block b now c p = Some (r, c')"
  obtains (rejected) e where "r = Inl e" "c' = c"
  | (accepted) s s' where "r = Inr True" "hm_get (co_chain_states c) (pf_chain_id p) = Some s"
      "pf_block_height p = cs_current_height s + 1" "cs_current_height s' = cs_current_height s + 1"
      "cs_chain_id s' = cs_chain_id s"
      "cs_current_difficulty s' = cs_current_difficulty s \<or>
       (\<exists>x. cs_current_difficulty s' =
          min (max x (min_difficulty (co_config c))) (max_difficulty (co_config c)))"
      "c' = c\<lparr>co_chain_states := hm_insert (pf_chain_id p) s' (co_chain_states c),
              co_block_history := co_block_history c @ [record_of now (cs_current_difficulty s') p]\<rparr>"
proof (cases "hm_get (co_chain_states c) (pf_chain_id p)")
  case None
  with assms show thesis by (auto simp: submit_block_def intro: rejected)
next
  case (Some s)
  obtain h where h: "add_w b (cs_current_height s) 1 = Some h"
    using assms Some by (auto simp: submit_block_def split: bind_splits)
  then have h1: "h = cs_current_height s + 1" by (rule add_w_Some)
  show thesis
  proof (cases "pf_block_height p \<noteq> h \<or> (\<exists>e. calculate_target_from_difficulty (cs_current_difficulty s) = Inl e) \<or>
      (\<exists>t. calculate_target_from_difficulty (cs_current_difficulty s) = Inr t \<and>
           \<not> slice_le (pf_hash_result p) t)")
    case True
    with assms Some h show thesis by (auto simp: submit_block_def intro: rejected split: if_splits)
  next
    case False
    then obtain t where t: "calculate_target_from_difficulty (cs_current_difficulty s) = Inr t"
      "slice_le (pf_hash_result p) t" "pf_block_height p = h"
      by (metis sum.exhaust)
    obtain e s' where adv: "advance_chain b now (co_config c) s p = Some (e, s')"
      using assms Some h t by (auto simp: submit_block_def split: bind_splits)
    note a = advance_chain_Some [OF adv]
    show thesis
      using assms Some h t a adv h1 by (intro accepted [of s s']) (simp_all add: submit_block_def Let_def)
  qed
qed

inductive co_step :: "consensus \<Rightarrow> consensus \<Rightarrow> bool" where
  init: "initialize_chain now c i = (r, c') \<Longrightarrow> co_step c c'"
| block: "submit_block b now c p = Some (r, c') \<Longrightarrow> co_step c c'"

definition chain_blocks :: "consensus \<Rightarrow> u32 \<Rightarrow> block_record list" where
  "chain_blocks c i = filter (\<lambda>r. bk_chain_id r = i) (co_block_history c)"

definition heights_ok :: "consensus \<Rightarrow> u32 \<Rightarrow> bool" where
  "heights_ok c i \<longleftrightarrow>
     map bk_height (chain_blocks c i) = map of_nat [1..<length (chain_blocks c i) + 1]"

text \<open>The initial difficulty, or one that the configured range has clamped.\<close>

definition chain_difficulty_ok :: "pow_config \<Rightarrow> u64 \<Rightarrow> bool" where
  "chain_difficulty_ok cfg d \<longleftrightarrow>
     d = 1000000 \<or> (\<exists>x. d = min (max x (min_difficulty cfg)) (max_difficulty cfg))"

definition consensus_ok :: "consensus \<Rightarrow> bool" where
  "consensus_ok c \<longleftrightarrow>
     (\<forall>i. heights_ok c i) \<and>
     (\<forall>i. hm_get (co_chain_states c) i = None \<longrightarrow> chain_blocks c i = []) \<and>
     (\<forall>i s. hm_get (co_chain_states c) i = Some s \<longrightarrow>
        cs_chain_id s = i \<and> i < 20 \<and> cs_current_height s = of_nat (length (chain_blocks c i)) \<and>
        chain_difficulty_ok (co_config c) (cs_current_difficulty s))"

lemma chain_difficulty_ok_init [simp]: "chain_difficulty_ok cfg 1000000"
  by (simp add: chain_difficulty_ok_def)

lemma consensus_ok_new: "consensus_ok (new_consensus t cfg)"
  by (simp add: consensus_ok_def new_consensus_def chain_blocks_def heights_ok_def)

lemma consensus_ok_init:
  assumes "initialize_chain now c i = (r, c')" and ok: "consensus_ok c"
  shows "consensus_ok c'"
proof (cases "i \<ge> 20 \<or> hm_contains (co_chain_states c) i")
  case True
  with assms show ?thesis by (auto simp: initialize_chain_def split: if_splits)
next
  case False
  have c': "c' = c\<lparr>co_chain_states := hm_insert i (new_chain_state now i) (co_chain_states c),
              co_miners := hm_insert i (new_miner now (new_miner_config 4)) (co_miners c)\<rparr>"
    using assms(1) False by (auto simp: initialize_chain_def)
  have blocks: "chain_blocks c' j = chain_blocks c j" and heights: "heights_ok c' j = heights_ok c j"
    and states: "hm_get (co_chain_states c') j =
      (if j = i then Some (new_chain_state now i) else hm_get (co_chain_states c) j)"
    and cfg: "co_config c' = co_config c" for j
    by (simp_all add: c' chain_blocks_def heights_ok_def hm_get_insert)
  have "chain_blocks c i = []" "i < 20" using ok False by (auto simp: consensus_ok_def)
  with ok show ?thesis
    unfolding consensus_ok_def blocks heights states cfg by (auto simp: new_chain_state_def)
qed

lemma consensus_ok_block:
  assumes "submit_block b now c p = Some (r, c')" and ok: "consensus_ok c"
  shows "consensus_ok c'"
  using assms(1)
proof (cases rule: submit_block_cases)
  case (rejected e)
  with ok show ?thesis by simp
next
  case (accepted s s')
  let ?i = "pf_chain_id p"
  have blocks: "chain_blocks c' j = chain_blocks c j @
      (if j = ?i then [record_of now (cs_current_difficulty s') p] else [])" for j
    by (simp add: chain_blocks_def accepted(7) record_of_def)
  have s: "cs_chain_id s = ?i" "?i < 20" "cs_current_height s = of_nat (length (chain_blocks c ?i))"
    using ok accepted(2) by (auto simp: consensus_ok_def)
  have states: "hm_get (co_chain_states c') j = (if j = ?i then Some s' else hm_get (co_chain_states c) j)"
    and cfg: "co_config c' = co_config c" for j
    by (simp_all add: accepted(7) hm_get_insert)
  have "heights_ok c' j" for j
    using ok s(3) accepted(3) by (auto simp: heights_ok_def consensus_ok_def blocks record_of_def)
  moreover have "chain_blocks c' j = []" if "hm_get (co_chain_states c') j = None" for j
    using that ok by (auto simp: consensus_ok_def blocks states split: if_splits)
  moreover have "cs_chain_id x = j \<and> j < 20 \<and> cs_current_height x = of_nat (length (chain_blocks c' j)) \<and>
      chain_difficulty_ok (co_config c') (cs_current_difficulty x)"
    if "hm_get (co_chain_states c') j = Some x" for j x
  proof (cases "j = ?i")
    case True
    then have "x = s'" using that by (simp add: states)
    moreover have "chain_difficulty_ok (co_config c) (cs_current_difficulty s)"
      using ok accepted(2) by (simp add: consensus_ok_def)
    then have "chain_difficulty_ok (co_config c) (cs_current_difficulty s')"
      using accepted(6) by (auto simp: chain_difficulty_ok_def)
    ultimately show ?thesis using True s accepted(4,5) by (simp add: blocks cfg)
  next
    case False
    then have "hm_get (co_chain_states c) j = Some x" using that by (simp add: states)
    with False ok show ?thesis by (auto simp: blocks consensus_ok_def cfg)
  qed
  ultimately show ?thesis by (simp add: consensus_ok_def)
qed

lemma consensus_ok_reachable: "co_step\<^sup>*\<^sup>* (new_consensus t cfg) c \<Longrightarrow> consensus_ok c"
proof (induction rule: rtranclp_induct)
  case base
  show ?case by (rule consensus_ok_new)
next
  case (step c c')
  then show ?case by (auto elim!: co_step.cases intro: consensus_ok_init consensus_ok_block)
qed

text \<open>
  C4: In every reachable state of the engine the blocks recorded for a chain have the heights
  1, 2, ... without gaps, the chain's current height is their number (modulo \<open>2 ^ 64\<close>), the
  history query returns the newest blocks first, only initialised chains below 20 have
  blocks, and a chain's difficulty is the initial one or lies where the configured range
  clamps it.
\<close>
theorem chain_heights:
  assumes "co_step\<^sup>*\<^sup>* (new_consensus t cfg) c"
  shows "map bk_height (chain_blocks c i) = map of_nat [1..<length (chain_blocks c i) + 1] \<and>
         get_block_history c i k = take k (rev (chain_blocks c i)) \<and>
         (case get_chain_state c i of
            Inl _ \<Rightarrow> chain_blocks c i = []
          | Inr s \<Rightarrow> i < 20 \<and> cs_current_height s = of_nat (length (chain_blocks c i)) \<and>
              (cs_current_difficulty s = 1000000 \<or>
               (\<exists>x. cs_current_difficulty s =
                  min (max x (min_difficulty (co_config c))) (max_difficulty (co_config c)))))"
  using consensus_ok_reachable [OF assms]
  unfolding consensus_ok_def heights_ok_def get_chain_state_def chain_difficulty_ok_def
  by (auto simp: get_block_history_def chain_blocks_def simp del: upt_Suc split: option.splits)


definition one_chain :: consensus where
  "one_chain = snd (initialize_chain 100 (new_consensus 50 default_config) 3)"

lemma one_chain_reachable: "co_step\<^sup>*\<^sup>* (new_consensus 50 default_config) one_chain"
  by (intro r_into_rtranclp co_step.init [where now = 100 and i = 3
        and r = "fst (initialize_chain 100 (new_consensus 50 default_config) 3)"])
     (simp add: one_chain_def)

lemma one_chain_state:
  "hm_get (co_chain_states one_chain) 3 = Some (new_chain_state 100 3)"
  "co_config one_chain = default_config" "co_block_history one_chain = []"
  by (simp_all add: one_chain_def initialize_chain_def new_consensus_def)

theorem chain_heights_witness:
  "map bk_height (chain_blocks one_chain 3) = map of_nat [1..<length (chain_blocks one_chain 3) + 1] \<and>
   cs_current_height (new_chain_state 100 3) = of_nat (length (chain_blocks one_chain 3))"
  using chain_heights [OF one_chain_reachable, of 3 0] one_chain_state(1)
  by (simp add: get_chain_state_def)

text \<open>
  Submitting a block checks no proof of work: on an initialised chain with a non-zero
  difficulty a proof for the next height whose hash is empty is accepted whenever the
  submission returns at all, whatever its nonces, its work and the block it names, and the
  chain advances by one recorded block.
\<close>
theorem empty_hash_accepted:
  assumes "hm_get (co_chain_states c) (pf_chain_id p) = Some s" and "cs_current_difficulty s \<noteq> 0"
    and "pf_block_height p = cs_current_height s + 1" and "pf_hash_result p = []"
    and "submit_block b now c p = Some (r, c')"
  shows "r = Inr True \<and>
         (\<exists>s'. get_chain_state c' (pf_chain_id p) = Inr s' \<and>
               cs_current_height s' = cs_current_height s + 1 \<and>
               co_block_history c' = co_block_history c @ [record_of now (cs_current_difficulty s') p])"
proof -
  obtain t where t: "calculate_target_from_difficulty (cs_current_difficulty s) = Inr t"
    using assms(2) by (rule work_target_total)
  obtain h where h: "add_w b (cs_current_height s) 1 = Some h"
    using assms(1,5) by (auto simp: submit_block_def split: bind_splits)
  then have "h = pf_block_height p" using assms(3) add_w_Some [OF h] by simp
  then obtain e s' where adv: "advance_chain b now (co_config c) s p = Some (e, s')"
    using assms(1,4,5) h t by (auto simp: submit_block_def split: bind_splits)
  show ?thesis
    using assms(1,4,5) h t adv advance_chain_Some [OF adv] \<open>h = pf_block_height p\<close>
    by (auto simp: submit_block_def Let_def get_chain_state_def hm_get_insert)
qed

definition empty_proof :: work_proof where
  "empty_proof = sample_proof\<lparr>pf_chain_id := 3, pf_block_height := 1, pf_hash_result := []\<rparr>"

theorem empty_hash_accepted_witness:
  "\<exists>c'. submit_block Debug 130 one_chain empty_proof = Some (Inr True, c')"
proof -
  obtain t where t: "calculate_target_from_difficulty 1000000 = Inr t"
    by (rule work_target_total [of 1000000]) simp_all
  have "\<exists>s'. advance_chain Debug 130 default_config (new_chain_state 100 3) empty_proof = Some (None, s')"
    by (simp add: advance_chain_def empty_proof_def sample_proof_def new_chain_state_def add_w_def
        sub_w_def default_config_def Let_def word_le_nat_alt)
  then have "\<exists>r c'. submit_block Debug 130 one_chain empty_proof = Some (r, c')"
    using one_chain_state t
    by (auto simp add: submit_block_def empty_proof_def sample_proof_def new_chain_state_def
        add_w_def Let_def)
  then obtain r c' where r: "submit_block Debug 130 one_chain empty_proof = Some (r, c')" by blast
  have "r = Inr True"
    by (rule empty_hash_accepted [THEN conjunct1, OF _ _ _ _ r, of "new_chain_state 100 3"])
       (simp_all add: empty_proof_def sample_proof_def one_chain_state new_chain_state_def)
  with r show ?thesis by blast
qed

text \<open>
  A new chain starts at difficulty 1000000 whatever the configuration says: with a
  minimum above it, the difficulty of every new chain and of the work packages for it fails
  the calculator's and the validator's range checks.
\<close>
theorem initial_difficulty_ignored:
  assumes "initialize_chain now c i = (Inr (), c')" and "1000000 < min_difficulty (co_config c)"
  shows "\<exists>s. get_chain_state c' i = Inr s \<and>
             validate_difficulty (co_config c') (cs_current_difficulty s) \<noteq> Inr () \<and>
             (\<forall>b sha now' bh ph mr w header. create_work_package b sha now' c' i bh ph mr = Some (Inr w) \<and>
                bh_difficulty header = wp_difficulty w \<longrightarrow>
                (\<exists>e. validate_block_header b now' c' header = Some (Inl e)))"
proof -
  have c': "c' = c\<lparr>co_chain_states := hm_insert i (new_chain_state now i) (co_chain_states c),
              co_miners := hm_insert i (new_miner now (new_miner_config 4)) (co_miners c)\<rparr>"
    using assms(1) by (auto simp: initialize_chain_def split: if_splits)
  then have cfg: "co_config c' = co_config c" by simp
  have s: "get_chain_state c' i = Inr (new_chain_state now i)"
    by (simp add: get_chain_state_def c' hm_get_insert)
  have w: "wp_difficulty w = 1000000"
    if "create_work_package b sha now' c' i bh ph mr = Some (Inr w)" for b sha now' bh ph mr w
    using that
    by (auto simp: create_work_package_def s new_chain_state_def new_work_package_def Let_def
        split: bind_splits if_splits sum.splits)
  show ?thesis
    using assms(2) w
    by (intro exI [of _ "new_chain_state now i"])
       (auto simp: s cfg new_chain_state_def validate_difficulty_def validate_block_header_def
          validate_header_def)
qed

theorem initial_difficulty_ignored_witness:
  "validate_difficulty (default_config\<lparr>min_difficulty := 2000000\<rparr>) 1000000 \<noteq> Inr () \<and>
   (\<exists>s. get_chain_state (snd (initialize_chain 100 (new_consensus 50
          (default_config\<lparr>min_difficulty := 2000000\<rparr>)) 3)) 3 = Inr s \<and>
        validate_difficulty (default_config\<lparr>min_difficulty := 2000000\<rparr>) (cs_current_difficulty s) \<noteq> Inr ())"
proof -
  let ?c = "new_consensus 50 (default_config\<lparr>min_difficulty := 2000000\<rparr>)"
  have "initialize_chain 100 ?c 3 = (Inr (), snd (initialize_chain 100 ?c 3))"
    by (simp add: initialize_chain_def new_consensus_def)
  moreover have "1000000 < min_difficulty (co_config ?c)"
    by (simp add: new_consensus_def)
  ultimately obtain s where "get_chain_state (snd (initialize_chain 100 ?c 3)) 3 = Inr s"
    "validate_difficulty (co_config (snd (initialize_chain 100 ?c 3))) (cs_current_difficulty s) \<noteq> Inr ()"
    using initial_difficulty_ignored [of 100 ?c 3 "snd (initialize_chain 100 ?c 3)"] by blast
  moreover have "co_config (snd (initialize_chain 100 ?c 3)) = default_config\<lparr>min_difficulty := 2000000\<rparr>"
    by (simp add: initialize_chain_def new_consensus_def)
  moreover have "validate_difficulty (default_config\<lparr>min_difficulty := 2000000\<rparr>) 1000000 \<noteq> Inr ()"
    by (simp add: validate_difficulty_def)
  ultimately show ?thesis by auto
qed

end
