(* ===== verification/Utxo_Set.thy ===== *)
theory Utxo_Set
  imports Hash_Map "HOL-Library.Multiset"
begin

text \<open>
  The set of transaction outputs (\<open>UTXOSet\<close> of \<open>src/transaction_engine.rs\<close>): the entries by
  key and the keys by address. Strings are the bytes of their UTF-8 encoding, so \<open>length\<close> is
  \<open>String::len\<close>. \<open>hex::decode\<close> is not part of the repository: whether it succeeds is the
  argument \<open>hex_ok\<close>.
\<close>

record utxo_entry =
  ux_tx_hash :: string
  ux_output_index :: u32
  ux_recipient :: string
  ux_amount :: u128
  ux_block_height :: u64
  ux_spent :: bool

record utxo_set =
  us_utxos :: "(string, utxo_entry) hmap"
  us_address_utxos :: "(string, string list) hmap"

definition new_utxo_set :: utxo_set where
  "new_utxo_set = \<lparr>us_utxos = [], us_address_utxos = []\<rparr>"

definition utxo_key :: "string \<Rightarrow> u32 \<Rightarrow> string" where
  "utxo_key tx_hash output_index = tx_hash @ '':'' @ fmt_w output_index"

definition add_utxo :: "(string \<Rightarrow> bool) \<Rightarrow> utxo_set \<Rightarrow> utxo_entry \<Rightarrow> (string + unit) \<times> utxo_set" where
  "add_utxo hex_ok s utxo =
     (let key = utxo_key (ux_tx_hash utxo) (ux_output_index utxo) in
      if ux_amount utxo = 0 then (Inl ''UTXO amount must be greater than zero'', s)
      else if length (ux_tx_hash utxo) \<noteq> 128 then (Inl ''Invalid transaction hash length'', s)
      else if \<not> hex_ok (ux_tx_hash utxo) then (Inl ''Invalid transaction hash format'', s)
      else
        let keys = (case hm_get (us_address_utxos s) (ux_recipient utxo) of
                      Some ks \<Rightarrow> ks | None \<Rightarrow> [])
        in (Inr (), \<lparr>us_utxos = hm_insert key utxo (us_utxos s),
                     us_address_utxos = hm_insert (ux_recipient utxo) (keys @ [key])
                                          (us_address_utxos s)\<rparr>))"

definition get_utxo :: "utxo_set \<Rightarrow> string \<Rightarrow> u32 \<Rightarrow> string + utxo_entry option" where
  "get_utxo s tx_hash output_index = Inr (hm_get (us_utxos s) (utxo_key tx_hash output_index))"

definition spend_utxo :: "utxo_set \<Rightarrow> string \<Rightarrow> u32 \<Rightarrow> (string + unit) \<times> utxo_set" where
  "spend_utxo s tx_hash output_index =
     (let key = utxo_key tx_hash output_index in
      case hm_get (us_utxos s) key of
        None \<Rightarrow> (Inl (''UTXO not found: '' @ key), s)
      | Some utxo \<Rightarrow>
          if ux_spent utxo then (Inl (''UTXO already spent: '' @ key), s)
          else (Inr (), s\<lparr>us_utxos := hm_insert key (utxo\<lparr>ux_spent := True\<rparr>) (us_utxos s)\<rparr>))"

text \<open>The loop over the keys of an address, which skips missing and spent entries.\<close>

fun unspent_of :: "(string, utxo_entry) hmap \<Rightarrow> string list \<Rightarrow> utxo_entry list" where
  "unspent_of utxos [] = []"
| "unspent_of utxos (key # keys) =
     (case hm_get utxos key of
        Some utxo \<Rightarrow> if \<not> ux_spent utxo then utxo # unspent_of utxos keys else unspent_of utxos keys
      | None \<Rightarrow> unspent_of utxos keys)"

definition get_address_utxos :: "utxo_set \<Rightarrow> string \<Rightarrow> string + utxo_entry list" where
  "get_address_utxos s address =
     (case hm_get (us_address_utxos s) address of
        Some keys \<Rightarrow> Inr (unspent_of (us_utxos s) keys)
      | None \<Rightarrow> Inr [])"

definition get_address_balance :: "build \<Rightarrow> utxo_set \<Rightarrow> string \<Rightarrow> (string + u128) option" where
  "get_address_balance b s address =
     (case get_address_utxos s address of
        Inl e \<Rightarrow> Some (Inl e)
      | Inr utxos \<Rightarrow> do { total \<leftarrow> sum_w b (map ux_amount utxos); Some (Inr total) })"

definition validate_utxo :: "utxo_set \<Rightarrow> string \<Rightarrow> u32 \<Rightarrow> string + unit" where
  "validate_utxo s tx_hash output_index =
     (case get_utxo s tx_hash output_index of
        Inl e \<Rightarrow> Inl e
      | Inr (Some utxo) \<Rightarrow>
          if ux_spent utxo
          then Inl (''UTXO already spent: '' @ tx_hash @ '':'' @ fmt_w output_index)
          else Inr ()
      | Inr None \<Rightarrow> Inl (''UTXO not found: '' @ tx_hash @ '':'' @ fmt_w output_index))"

definition utxo_count :: "utxo_set \<Rightarrow> nat" where
  "utxo_count s = length (us_utxos s)"

definition unspent_utxo_count :: "utxo_set \<Rightarrow> nat" where
  "unspent_utxo_count s = length (filter (\<lambda>u. \<not> ux_spent u) (hm_values (us_utxos s)))"

section \<open>Keys\<close>

text \<open>A key determines the transaction hash and the index, whatever the length of the hash:
  the index has no colon, so the last colon of the key separates them.\<close>

lemma colon_not_in_fmt_w: "CHR '':'' \<notin> set (fmt_w w)"
  using set_fmt_nat [of "unat w"] by (auto simp: fmt_w_def)

lemma append_last_sep:
  assumes "xs @ c # ys = xs' @ c # ys'" and "c \<notin> set ys" and "c \<notin> set ys'"
  shows "xs = xs' \<and> ys = ys'"
proof -
  have "rev ys @ c # rev xs = rev ys' @ c # rev xs'"
    using arg_cong [OF assms(1), of rev] by simp
  moreover have "takeWhile (\<lambda>x. x \<noteq> c) (rev zs @ c # ws) = rev zs"
    and "dropWhile (\<lambda>x. x \<noteq> c) (rev zs @ c # ws) = c # ws" if "c \<notin> set zs" for zs ws
    using that by (simp_all add: takeWhile_append dropWhile_append)
  ultimately have "rev ys = rev ys'" and "c # rev xs = c # rev xs'"
    using assms(2,3) by metis+
  then show ?thesis by simp
qed

lemma utxo_key_inject: "utxo_key h i = utxo_key h' i' \<longleftrightarrow> h = h' \<and> i = i'"
proof
  assume "utxo_key h i = utxo_key h' i'"
  then have "h @ CHR '':'' # fmt_w i = h' @ CHR '':'' # fmt_w i'" by (simp add: utxo_key_def)
  from append_last_sep [OF this colon_not_in_fmt_w colon_not_in_fmt_w] fmt_w_inject
  show "h = h' \<and> i = i'" by blast
qed simp

section \<open>The index by address\<close>

definition listed :: "utxo_set \<Rightarrow> string \<Rightarrow> string list" where
  "listed s address = (case hm_get (us_address_utxos s) address of Some ks \<Rightarrow> ks | None \<Rightarrow> [])"

definition index_ok :: "utxo_set \<Rightarrow> bool" where
  "index_ok s \<longleftrightarrow> hm_invar (us_utxos s) \<and>
     (\<forall>k u. hm_get (us_utxos s) k = Some u \<longrightarrow> k = utxo_key (ux_tx_hash u) (ux_output_index u)) \<and>
     (\<forall>a. distinct (listed s a) \<and>
          set (listed s a) = {k. \<exists>u. hm_get (us_utxos s) k = Some u \<and> ux_recipient u = a})"

text \<open>Additions and spends in any order, with the log of the outputs that were added; nothing stops an
  output from being added again.\<close>

definition entry_key :: "utxo_entry \<Rightarrow> string" where
  "entry_key u = utxo_key (ux_tx_hash u) (ux_output_index u)"

inductive utxo_step ::
    "(string \<Rightarrow> bool) \<Rightarrow> utxo_set \<times> utxo_entry list \<Rightarrow> utxo_set \<times> utxo_entry list \<Rightarrow> bool" for hex_ok where
  added: "add_utxo hex_ok s u = (Inr (), s') \<Longrightarrow> utxo_step hex_ok (s, log) (s', log @ [u])"
| refused: "add_utxo hex_ok s u = (Inl e, s') \<Longrightarrow> utxo_step hex_ok (s, log) (s', log)"
| spend: "spend_utxo s h i = (r, s') \<Longrightarrow> utxo_step hex_ok (s, log) (s', log)"

text \<open>The last addition under a key; what the set holds is that, up to the spent flag.\<close>

definition last_added :: "utxo_entry list \<Rightarrow> string \<Rightarrow> utxo_entry" where
  "last_added log k = last (filter (\<lambda>w. entry_key w = k) log)"

definition log_ok :: "utxo_set \<times> utxo_entry list \<Rightarrow> bool" where
  "log_ok c \<longleftrightarrow> (case c of (s, log) \<Rightarrow> hm_invar (us_utxos s) \<and>
     (\<forall>k. hm_get (us_utxos s) k \<noteq> None \<longleftrightarrow> k \<in> entry_key ` set log) \<and>
     (\<forall>k u. hm_get (us_utxos s) k = Some u \<longrightarrow> u = (last_added log k)\<lparr>ux_spent := ux_spent u\<rparr>) \<and>
     (\<forall>a. listed s a = map entry_key (filter (\<lambda>w. ux_recipient w = a) log)))"

lemma last_added_key: "k \<in> entry_key ` set log \<Longrightarrow> entry_key (last_added log k) = k \<and> last_added log k \<in> set log"
proof -
  assume "k \<in> entry_key ` set log"
  then have "filter (\<lambda>w. entry_key w = k) log \<noteq> []" by (auto simp: filter_empty_conv)
  from last_in_set [OF this] show ?thesis by (simp add: last_added_def)
qed

lemma last_added_append:
  "last_added (log @ [u]) k = (if entry_key u = k then u else last_added log k)"
  by (simp add: last_added_def)

lemma entry_key_spent [simp]: "entry_key (u\<lparr>ux_spent := b\<rparr>) = entry_key u"
  by (simp add: entry_key_def)

lemma add_utxo_cases:
  assumes "add_utxo hex_ok s u = (r, s')"
  obtains "s' = s"
  | "us_utxos s' = hm_insert (utxo_key (ux_tx_hash u) (ux_output_index u)) u (us_utxos s)"
    "\<And>a. listed s' a = (if a = ux_recipient u
        then listed s a @ [utxo_key (ux_tx_hash u) (ux_output_index u)] else listed s a)"
  using assms
  by (auto simp: add_utxo_def Let_def listed_def hm_get_insert split: if_splits)

lemma spend_utxo_cases:
  assumes "spend_utxo s h i = (r, s')"
  obtains "s' = s"
  | u where "hm_get (us_utxos s) (utxo_key h i) = Some u" "\<not> ux_spent u"
    "us_utxos s' = hm_insert (utxo_key h i) (u\<lparr>ux_spent := True\<rparr>) (us_utxos s)"
    "\<And>a. listed s' a = listed s a"
  using assms by (auto simp: spend_utxo_def Let_def listed_def split: if_splits option.splits)

lemma log_ok_step: "utxo_step hex_ok c c' \<Longrightarrow> log_ok c \<Longrightarrow> log_ok c'"
proof (induction rule: utxo_step.induct)
  case (added s u s' log)
  have utxos: "us_utxos s' = hm_insert (entry_key u) u (us_utxos s)"
    and idx: "listed s' a = (if a = ux_recipient u then listed s a @ [entry_key u] else listed s a)" for a
    using added(1) by (auto simp: add_utxo_def Let_def listed_def hm_get_insert entry_key_def split: if_splits)
  have same: "u\<lparr>ux_spent := ux_spent u\<rparr> = u" by simp
  show ?case
    using added(2) by (auto simp: log_ok_def utxos idx hm_get_insert last_added_append)
next
  case (refused s u e s' log)
  then have "s' = s" by (auto simp: add_utxo_def Let_def split: if_splits)
  with refused(2) show ?case by simp
next
  case (spend s h i r s' log)
  from spend(1) show ?case
  proof (cases rule: spend_utxo_cases)
    case 1
    with spend(2) show ?thesis by simp
  next
    case (2 u)
    from spend(2) 2(1) have "u = (last_added log (utxo_key h i))\<lparr>ux_spent := ux_spent u\<rparr>"
      by (simp add: log_ok_def)
    then have "u\<lparr>ux_spent := True\<rparr> = (last_added log (utxo_key h i))\<lparr>ux_spent := True\<rparr>" by (metis utxo_entry.update_convs(6) utxo_entry.surjective)
    moreover have "utxo_key h i \<in> entry_key ` set log" using spend(2) 2(1) by (auto simp: log_ok_def)
    ultimately show ?thesis using spend(2) by (auto simp: log_ok_def 2(3,4) hm_get_insert)
  qed
qed

lemma log_ok_reachable: "(utxo_step hex_ok)\<^sup>*\<^sup>* (new_utxo_set, []) c \<Longrightarrow> log_ok c"
  by (induction rule: rtranclp_induct)
     (simp add: log_ok_def new_utxo_set_def listed_def, blast intro: log_ok_step)

text \<open>When no output is added twice, the index lists the outputs of an address, each once.\<close>

lemma index_ok_distinct:
  assumes ok: "log_ok (s, log)" and d: "distinct (map entry_key log)"
  shows "index_ok s"
proof -
  have held: "k = entry_key u \<and> k \<in> entry_key ` set log \<and> ux_recipient u = ux_recipient (last_added log k)"
    if "hm_get (us_utxos s) k = Some u" for k u
  proof -
    have "k \<in> entry_key ` set log" and u: "u = (last_added log k)\<lparr>ux_spent := ux_spent u\<rparr>"
      using ok that by (auto simp: log_ok_def)
    moreover have "entry_key u = entry_key (last_added log k)" "ux_recipient u = ux_recipient (last_added log k)"
      by (subst u, simp)+
    ultimately show ?thesis using last_added_key by simp
  qed
  have last: "last_added log (entry_key w) = w" if "w \<in> set log" for w
    using last_added_key [of "entry_key w" log] d that by (auto simp: distinct_map dest: inj_onD)
  have listed: "listed s a = map entry_key (filter (\<lambda>w. ux_recipient w = a) log)" for a
    using ok by (simp add: log_ok_def)
  have "set (listed s a) = {k. \<exists>u. hm_get (us_utxos s) k = Some u \<and> ux_recipient u = a}" for a
  proof (intro set_eqI iffI)
    fix k assume "k \<in> set (listed s a)"
    then obtain w where w: "w \<in> set log" "k = entry_key w" "ux_recipient w = a" by (auto simp: listed)
    with ok obtain u where "hm_get (us_utxos s) k = Some u" by (fastforce simp: log_ok_def)
    with held [OF this] last [OF w(1)] w show "k \<in> {k. \<exists>u. hm_get (us_utxos s) k = Some u \<and> ux_recipient u = a}"
      by auto
  next
    fix k assume "k \<in> {k. \<exists>u. hm_get (us_utxos s) k = Some u \<and> ux_recipient u = a}"
    then obtain u where "hm_get (us_utxos s) k = Some u" "ux_recipient u = a" by blast
    with held [OF this(1)] last_added_key [of k log]
    have "last_added log k \<in> set (filter (\<lambda>w. ux_recipient w = a) log)" "entry_key (last_added log k) = k" by auto
    then show "k \<in> set (listed s a)" unfolding listed set_map by (metis image_eqI)
  qed
  moreover have "distinct (listed s a)" for a
    unfolding listed using d by (simp add: distinct_map inj_on_def)
  ultimately show ?thesis using ok held by (simp add: index_ok_def log_ok_def entry_key_def)
qed

section \<open>Balances\<close>

lemma get_address_utxos_listed: "get_address_utxos s a = Inr (unspent_of (us_utxos s) (listed s a))"
  by (simp add: get_address_utxos_def listed_def split: option.splits)

lemma unspent_of_map:
  "(\<And>k. k \<in> set ks \<Longrightarrow> hm_get m k \<noteq> None) \<Longrightarrow>
   unspent_of m ks = filter (\<lambda>u. \<not> ux_spent u) (map (the \<circ> hm_get m) ks)"
proof (induction ks)
  case (Cons k ks)
  from Cons.prems [of k] obtain u where "hm_get m k = Some u" by auto
  with Cons show ?case by simp
qed simp

lemma unspent_mset:
  assumes "index_ok s"
  shows "mset (unspent_of (us_utxos s) (listed s a)) =
    mset (filter (\<lambda>u. ux_recipient u = a \<and> \<not> ux_spent u) (hm_values (us_utxos s)))"
proof -
  let ?m = "us_utxos s"
  have inv: "hm_invar ?m"
    and key: "\<And>k u. hm_get ?m k = Some u \<Longrightarrow> k = utxo_key (ux_tx_hash u) (ux_output_index u)"
    and d: "distinct (listed s a)"
    and set: "set (listed s a) = {k. \<exists>u. hm_get ?m k = Some u \<and> ux_recipient u = a}"
    using assms by (simp_all add: index_ok_def)
  have unspent: "unspent_of ?m (listed s a) =
      filter (\<lambda>u. \<not> ux_spent u) (map (the \<circ> hm_get ?m) (listed s a))"
    by (rule unspent_of_map) (auto simp: set)
  have "inj_on (the \<circ> hm_get ?m) (set (listed s a))"
  proof (rule inj_onI)
    fix k l assume "k \<in> set (listed s a)" "l \<in> set (listed s a)" "(the \<circ> hm_get ?m) k = (the \<circ> hm_get ?m) l"
    moreover from this obtain u v where u: "hm_get ?m k = Some u" "hm_get ?m l = Some v"
      unfolding set by blast
    ultimately have "u = v" by simp
    note u = u [unfolded this]
    show "k = l" by (rule trans [OF key [OF u(1)] key [OF u(2), symmetric]])
  qed
  then have 1: "distinct (unspent_of ?m (listed s a))" using d by (simp add: unspent distinct_map)
  have "inj_on snd (set ?m)"
  proof (rule inj_onI)
    fix x y assume xy: "x \<in> set ?m" "y \<in> set ?m" and "snd x = snd y"
    from xy have "hm_get ?m (fst x) = Some (snd x)" "hm_get ?m (fst y) = Some (snd y)"
      using inv by (simp_all add: hm_invar_def)
    with key \<open>snd x = snd y\<close> show "x = y" by (metis prod.expand)
  qed
  then have 2: "distinct (hm_values ?m)"
    using inv by (simp add: hm_invar_def distinct_map)
  have "(u \<in> set (hm_values ?m)) = (\<exists>k. hm_get ?m k = Some u)" for u
    using hm_in_values [OF inv] hm_values_in by metis
  then have "set (unspent_of ?m (listed s a)) =
      set (filter (\<lambda>u. ux_recipient u = a \<and> \<not> ux_spent u) (hm_values ?m))"
    by (force simp: unspent set image_iff)
  then show ?thesis by (subst set_eq_iff_mset_eq_distinct [symmetric]) (simp_all only: 1 2 distinct_filter)
qed

lemma sum_amounts_exact:
  assumes "sum_list (map (unat \<circ> ux_amount) us) < 2 ^ 128"
  shows "\<exists>bal. sum_w b (map ux_amount us) = Some bal \<and> unat bal = sum_list (map (unat \<circ> ux_amount) us)"
  using assms sum_w_exact [of "map ux_amount us" b] by auto


definition sample_hash :: string where
  "sample_hash = replicate 128 (CHR ''a'')"

definition sample_entry :: "u32 \<Rightarrow> string \<Rightarrow> u128 \<Rightarrow> utxo_entry" where
  "sample_entry i recipient amount =
     \<lparr>ux_tx_hash = sample_hash, ux_output_index = i, ux_recipient = recipient, ux_amount = amount,
      ux_block_height = 1, ux_spent = False\<rparr>"

definition sample_log :: "utxo_entry list" where
  "sample_log = [sample_entry 0 ''alice'' 5, sample_entry 1 ''alice'' 7]"

definition sample_set :: utxo_set where
  "sample_set = snd (add_utxo (\<lambda>_. True)
     (snd (add_utxo (\<lambda>_. True) new_utxo_set (sample_entry 0 ''alice'' 5))) (sample_entry 1 ''alice'' 7))"

lemma sample_added:
  "amount \<noteq> 0 \<Longrightarrow> utxo_step (\<lambda>_. True) (s, log)
     (snd (add_utxo (\<lambda>_. True) s (sample_entry i a amount)), log @ [sample_entry i a amount])"
  by (rule utxo_step.added) (simp add: add_utxo_def sample_entry_def sample_hash_def Let_def)

lemma sample_reachable: "(utxo_step (\<lambda>_. True))\<^sup>*\<^sup>* (new_utxo_set, []) (sample_set, sample_log)"
proof -
  have "utxo_step (\<lambda>_. True) (new_utxo_set, [])
      (snd (add_utxo (\<lambda>_. True) new_utxo_set (sample_entry 0 ''alice'' 5)), [sample_entry 0 ''alice'' 5])"
    using sample_added [of 5 new_utxo_set "[]"] by simp
  moreover have "utxo_step (\<lambda>_. True)
      (snd (add_utxo (\<lambda>_. True) new_utxo_set (sample_entry 0 ''alice'' 5)), [sample_entry 0 ''alice'' 5])
      (sample_set, sample_log)"
    using sample_added [of 7 _ "[sample_entry 0 ''alice'' 5]"] by (simp add: sample_set_def sample_log_def)
  ultimately show ?thesis by (meson converse_rtranclp_into_rtranclp rtranclp.rtrancl_refl)
qed

lemma sample_values: "hm_values (us_utxos sample_set) = [sample_entry 0 ''alice'' 5, sample_entry 1 ''alice'' 7]"
  by (simp add: sample_set_def new_utxo_set_def add_utxo_def sample_entry_def sample_hash_def Let_def
      utxo_key_inject)

lemma sample_distinct: "distinct (map entry_key sample_log)"
  by (simp add: sample_log_def entry_key_def sample_entry_def utxo_key_inject)


section \<open>Adding an output again\<close>

lemma unspent_of_append: "unspent_of m (ks @ ks') = unspent_of m ks @ unspent_of m ks'"
  by (induction ks) (auto split: option.splits)

text \<open>Nothing stops an output from being added again: where each output was added once, for one that the
  set holds, spent or not, \<open>add_utxo\<close> succeeds, makes it unspent again, so that it can be spent once more, and lists it
  a second time under its address, so that the address balance counts its amount twice.\<close>

theorem readded_output_counted_twice:
  assumes "(utxo_step hex_ok)\<^sup>*\<^sup>* (new_utxo_set, []) (s, log)" and "distinct (map entry_key log)"
    and "hm_get (us_utxos s) (utxo_key (ux_tx_hash u) (ux_output_index u)) = Some v"
    and "ux_recipient v = ux_recipient u" and "\<not> ux_spent u"
    and "ux_amount u \<noteq> 0" and "length (ux_tx_hash u) = 128" and "hex_ok (ux_tx_hash u)"
  shows "\<exists>s' us. add_utxo hex_ok s u = (Inr (), s') \<and>
      get_address_utxos s' (ux_recipient u) = Inr us \<and> count (mset us) u = 2 \<and>
      fst (spend_utxo s' (ux_tx_hash u) (ux_output_index u)) = Inr ()"
proof -
  let ?k = "utxo_key (ux_tx_hash u) (ux_output_index u)" and ?a = "ux_recipient u"
  obtain s' where add: "add_utxo hex_ok s u = (Inr (), s')"
    and utxos: "us_utxos s' = hm_insert ?k u (us_utxos s)"
    and addr: "listed s' ?a = listed s ?a @ [?k]"
    using assms(6-8) by (simp add: add_utxo_def Let_def listed_def hm_get_insert)
  have ok: "index_ok s" using log_ok_reachable [OF assms(1)] assms(2) by (rule index_ok_distinct)
  then have key: "k = utxo_key (ux_tx_hash x) (ux_output_index x)" if "hm_get (us_utxos s) k = Some x" for k x
    using that by (simp add: index_ok_def)
  have once: "\<exists>xs ys. listed s ?a = xs @ ?k # ys \<and> ?k \<notin> set xs \<and> ?k \<notin> set ys"
  proof -
    have "?k \<in> set (listed s ?a)" "distinct (listed s ?a)"
      using ok assms(3,4) by (simp_all add: index_ok_def)
    then show ?thesis by (metis distinct.simps(2) distinct_append not_distinct_conv_prefix split_list_first split_list_last)
  qed
  have other: "u \<notin> set (unspent_of (us_utxos s') ks)" if "?k \<notin> set ks" for ks
    using that
  proof (induction ks)
    case (Cons k ks)
    then have k: "k \<noteq> ?k" by auto
    then have "hm_get (us_utxos s') k = hm_get (us_utxos s) k" by (simp add: utxos hm_get_insert)
    moreover from k have "hm_get (us_utxos s) k \<noteq> Some u" using key [of k u] by blast
    ultimately show ?case using Cons by (auto split: option.splits)
  qed simp
  from once other have "count (mset (unspent_of (us_utxos s') (listed s' ?a))) u = 2"
    using assms(5) by (auto simp: addr unspent_of_append utxos hm_get_insert count_mset_0_iff)
  moreover have "fst (spend_utxo s' (ux_tx_hash u) (ux_output_index u)) = Inr ()"
    using assms(5) by (simp add: spend_utxo_def utxos hm_get_insert)
  ultimately show ?thesis using add get_address_utxos_listed by blast
qed

theorem readded_output_counted_twice_witness:
  "\<exists>s' us. add_utxo (\<lambda>_. True) sample_set (sample_entry 0 ''alice'' 5) = (Inr (), s') \<and>
      get_address_utxos s' ''alice'' = Inr us \<and> count (mset us) (sample_entry 0 ''alice'' 5) = 2 \<and>
      fst (spend_utxo s' sample_hash 0) = Inr ()"
  using readded_output_counted_twice [OF sample_reachable sample_distinct, of "sample_entry 0 ''alice'' 5" "sample_entry 0 ''alice'' 5"]
  by (simp add: sample_entry_def sample_set_def new_utxo_set_def add_utxo_def sample_hash_def Let_def utxo_key_inject)

end
