(* ===== verification/Encoding.thy ===== *)
theory Encoding
  imports Prelude
begin

text \<open>
  Fixed-width encodings. The interface is the locale \<open>fixed_encoding\<close>: an encoder and a decoder
  that are inverse to each other between the well-formed values and the byte lists of one length.
  Rust's \<open>to_le_bytes\<close> and \<open>from_le_bytes\<close> provide it at each width, and so do the headers of the
  block builder (in \<open>Block_Builder\<close>). Strings become bytes with \<open>as_bytes\<close>. A reference encoding
  in hexadecimal stands for \<open>hex::encode\<close> and \<open>hex::decode\<close> where an example needs one.
\<close>

locale fixed_encoding =
  fixes enc :: "'a \<Rightarrow> bytes"
    and dec :: "bytes \<Rightarrow> 'a"
    and width :: nat
    and wf :: "'a \<Rightarrow> bool"
  assumes length_enc: "wf x \<Longrightarrow> length (enc x) = width"
    and dec_enc: "wf x \<Longrightarrow> dec (enc x) = x"
    and enc_dec: "length bs = width \<Longrightarrow> enc (dec bs) = bs"
    and wf_dec: "length bs = width \<Longrightarrow> wf (dec bs)"
begin

lemma enc_inject: "wf x \<Longrightarrow> wf y \<Longrightarrow> enc x = enc y \<longleftrightarrow> x = y"
  using dec_enc by metis

lemma dec_take: "wf x \<Longrightarrow> dec (take width (enc x @ bs)) = x"
  by (simp add: length_enc dec_enc)

lemma drop_enc: "wf x \<Longrightarrow> drop width (enc x @ bs) = bs"
  by (simp add: length_enc)

lemma split_iff: "wf x \<Longrightarrow> length bs \<ge> width \<Longrightarrow>
    bs = enc x @ rest \<longleftrightarrow> dec (take width bs) = x \<and> rest = drop width bs"
  by (metis append_take_drop_id dec_take drop_enc enc_dec length_take min.absorb2)

lemma bij_enc: "bij_betw enc {x. wf x} {bs. length bs = width}"
  by (rule bij_betw_byWitness [where f' = dec]) (auto simp: length_enc dec_enc enc_dec wf_dec)

end

interpretation u32_le: fixed_encoding "to_le_bytes :: u32 \<Rightarrow> bytes" from_le_bytes 4 "\<lambda>_. True"
  by unfold_locales (simp_all add: from_to_le_bytes to_from_le_bytes)

interpretation u64_le: fixed_encoding "to_le_bytes :: u64 \<Rightarrow> bytes" from_le_bytes 8 "\<lambda>_. True"
  by unfold_locales (simp_all add: from_to_le_bytes to_from_le_bytes)

interpretation u128_le: fixed_encoding "to_le_bytes :: u128 \<Rightarrow> bytes" from_le_bytes 16 "\<lambda>_. True"
  by unfold_locales (simp_all add: from_to_le_bytes to_from_le_bytes)

text \<open>\<open>str::as_bytes\<close>.\<close>

definition as_bytes :: "string \<Rightarrow> bytes" where
  "as_bytes = map (\<lambda>c. of_nat (of_char c))"

lemma length_as_bytes [simp]: "length (as_bytes s) = length s"
  by (simp add: as_bytes_def)

section \<open>Hexadecimal\<close>

definition hex_digit :: "nat \<Rightarrow> char" where
  "hex_digit d = (if d < 10 then char_of (48 + d) else char_of (87 + d))"

definition hex_value :: "char \<Rightarrow> nat option" where
  "hex_value c =
     (let n = of_char c :: nat in
      if 48 \<le> n \<and> n \<le> 57 then Some (n - 48)
      else if 97 \<le> n \<and> n \<le> 102 then Some (n - 87)
      else if 65 \<le> n \<and> n \<le> 70 then Some (n - 55)
      else None)"

fun hex_of :: "bytes \<Rightarrow> string" where
  "hex_of [] = ''''"
| "hex_of (b # bs) = hex_digit (unat b div 16) # hex_digit (unat b mod 16) # hex_of bs"

fun hex_read :: "string \<Rightarrow> string + bytes" where
  "hex_read [] = Inr []"
| "hex_read [c] = Inl ''Odd number of digits''"
| "hex_read (c # d # cs) =
     (case (hex_value c, hex_value d) of
        (Some x, Some y) \<Rightarrow>
          (case hex_read cs of Inr bs \<Rightarrow> Inr (of_nat (16 * x + y) # bs) | Inl e \<Rightarrow> Inl e)
      | _ \<Rightarrow> Inl ''Invalid character'')"

lemma hex_value_digit: "d < 16 \<Longrightarrow> hex_value (hex_digit d) = Some d"
  by (auto simp: hex_value_def hex_digit_def Let_def)

lemma hex_read_of: "hex_read (hex_of bs) = Inr bs"
proof (induction bs)
  case (Cons b bs)
  have "unat b div 16 < 16" using unat_u8_lt [of b] by (simp add: less_mult_imp_div_less)
  then show ?case using Cons.IH by (simp add: hex_value_digit)
qed simp

end
