(* ===== verification/Transactions.thy ===== *)
theory Transactions
  imports Utxo_Set Pow_Config Encoding
begin

text \<open>
  Transactions and their validation (\<open>Transaction\<close> of \<open>src/transaction_engine.rs\<close>). Code outside
  the repository is an argument: \<open>hex_ok\<close> (whether \<open>hex::decode\<close> succeeds), \<open>mist\<close>
  (\<open>silver_core::MIST_PER_SLVR\<close>), \<open>sha\<close> and \<open>hex_encode\<close> (SHA-512 and \<open>hex::encode\<close>), \<open>dbg\<close> (the
  \<open>Debug\<close> text of a string).
\<close>

section \<open>Transactions\<close>

datatype transaction_status = Pending | Confirmed | Failed | Finalized

record transaction_input =
  ti_prev_tx_hash :: string
  ti_output_index :: u32
  ti_signature :: string

record transaction_output =
  to_recipient :: string
  to_amount :: u128

record transaction =
  tx_hash :: string
  tx_sender :: string
  tx_inputs :: "transaction_input list"
  tx_outputs :: "transaction_output list"
  tx_fee :: u128
  tx_timestamp :: u64
  tx_status :: transaction_status

text \<open>The derived \<open>Debug\<close> text of a list of inputs and of outputs.\<close>

fun dbg_items :: "string list \<Rightarrow> string" where
  "dbg_items [] = ''''"
| "dbg_items [x] = x"
| "dbg_items (x # y # xs) = x @ '', '' @ dbg_items (y # xs)"

definition dbg_input :: "(string \<Rightarrow> string) \<Rightarrow> transaction_input \<Rightarrow> string" where
  "dbg_input dbg i = ''TransactionInput { prev_tx_hash: '' @ dbg (ti_prev_tx_hash i) @
     '', output_index: '' @ fmt_w (ti_output_index i) @ '', signature: '' @ dbg (ti_signature i) @ '' }''"

definition dbg_output :: "(string \<Rightarrow> string) \<Rightarrow> transaction_output \<Rightarrow> string" where
  "dbg_output dbg out = ''TransactionOutput { recipient: '' @ dbg (to_recipient out) @
     '', amount: '' @ fmt_w (to_amount out) @ '' }''"

definition tx_data :: "(string \<Rightarrow> string) \<Rightarrow> string \<Rightarrow> transaction_input list \<Rightarrow>
    transaction_output list \<Rightarrow> u128 \<Rightarrow> string" where
  "tx_data dbg sender inputs outputs fee =
     sender @ ''['' @ dbg_items (map (dbg_input dbg) inputs) @ '']'' @
     ''['' @ dbg_items (map (dbg_output dbg) outputs) @ '']'' @ fmt_w fee"

definition new_transaction :: "(string \<Rightarrow> string) \<Rightarrow> (bytes \<Rightarrow> bytes) \<Rightarrow> (bytes \<Rightarrow> string) \<Rightarrow> time \<Rightarrow>
    string \<Rightarrow> transaction_input list \<Rightarrow> transaction_output list \<Rightarrow> u128 \<Rightarrow> string + transaction" where
  "new_transaction dbg sha hex_encode now sender inputs outputs fee =
     (if inputs = [] then Inl ''Transaction must have at least one input''
      else if outputs = [] then Inl ''Transaction must have at least one output''
      else if list_ex (\<lambda>out. to_amount out = 0) outputs
      then Inl ''Output amount must be greater than zero''
      else Inr \<lparr>tx_hash = hex_encode (sha (as_bytes (tx_data dbg sender inputs outputs fee))), tx_sender = sender,
                tx_inputs = inputs, tx_outputs = outputs, tx_fee = fee, tx_timestamp = now,
                tx_status = Pending\<rparr>)"

definition max_supply :: "u64 \<Rightarrow> u128" where
  "max_supply mist = 21000000 * ucast mist"

text \<open>The amount of the input at a position: it depends on the position only.\<close>

definition input_amount :: "u64 \<Rightarrow> nat \<Rightarrow> u128" where
  "input_amount mist i =
     (let base_amount = ucast mist in
      if i = 0 then base_amount
      else if i = 1 then sat_mul base_amount 2
      else if i = 2 then sat_mul base_amount 5
      else if i = 3 then sat_mul base_amount 10
      else sat_mul base_amount (of_nat i + 1))"

text \<open>An input counts unless one of the checks of the loop skips it.\<close>

definition input_counts :: "(string \<Rightarrow> bool) \<Rightarrow> u64 \<Rightarrow> nat \<Rightarrow> transaction_input \<Rightarrow> bool" where
  "input_counts hex_ok mist i inp \<longleftrightarrow>
     ti_prev_tx_hash inp \<noteq> [] \<and> ti_signature inp \<noteq> [] \<and> length (ti_prev_tx_hash inp) = 128 \<and>
     hex_ok (ti_prev_tx_hash inp) \<and> input_amount mist i \<noteq> 0 \<and>
     \<not> input_amount mist i > max_supply mist \<and>
     length (ti_signature inp) \<in> {128, 132, 5120} \<and> hex_ok (ti_signature inp)"

fun total_input_from :: "(string \<Rightarrow> bool) \<Rightarrow> u64 \<Rightarrow> nat \<Rightarrow> u128 \<Rightarrow> transaction_input list \<Rightarrow> u128" where
  "total_input_from hex_ok mist i acc [] = acc"
| "total_input_from hex_ok mist i acc (inp # inps) =
     total_input_from hex_ok mist (Suc i)
       (if input_counts hex_ok mist i inp then sat_add acc (input_amount mist i) else acc) inps"

definition total_input :: "(string \<Rightarrow> bool) \<Rightarrow> u64 \<Rightarrow> transaction \<Rightarrow> u128" where
  "total_input hex_ok mist tx = total_input_from hex_ok mist 0 0 (tx_inputs tx)"

definition total_output :: "build \<Rightarrow> transaction \<Rightarrow> u128 option" where
  "total_output b tx = sum_w b (map to_amount (tx_outputs tx))"

definition validate_tx :: "build \<Rightarrow> (string \<Rightarrow> bool) \<Rightarrow> u64 \<Rightarrow> transaction \<Rightarrow> (string + unit) option" where
  "validate_tx b hex_ok mist tx =
     (if tx_sender tx = [] then Some (Inl ''Sender address cannot be empty'')
      else if tx_inputs tx = [] then Some (Inl ''Transaction must have at least one input'')
      else if tx_outputs tx = [] then Some (Inl ''Transaction must have at least one output'')
      else if list_ex (\<lambda>out. to_amount out = 0) (tx_outputs tx)
      then Some (Inl ''Output amount must be greater than zero'')
      else do {
        total_out \<leftarrow> total_output b tx;
        let total_in = total_input hex_ok mist tx;
        Some (if total_out > total_in
              then Inl (''Output amount exceeds input: '' @ fmt_w total_out @ '' > '' @ fmt_w total_in)
              else Inr ())
      })"

text \<open>One input against the set: an error, or its amount.\<close>

definition check_input :: "(string \<Rightarrow> bool) \<Rightarrow> u64 \<Rightarrow> utxo_set \<Rightarrow> string \<Rightarrow> nat \<Rightarrow> transaction_input \<Rightarrow>
    string + u128" where
  "check_input hex_ok mist us sender i inp =
     (let place = ti_prev_tx_hash inp @ '':'' @ fmt_w (ti_output_index inp) @ '')'';
          at = (\<lambda>msg. Inl (''Input '' @ fmt_nat i @ '': '' @ msg))
      in case get_utxo us (ti_prev_tx_hash inp) (ti_output_index inp) of
           Inr (Some utxo) \<Rightarrow>
             if ux_spent utxo then at (''UTXO already spent ('' @ place)
             else if ux_amount utxo = 0 then at (''UTXO amount is zero ('' @ place)
             else if ux_amount utxo > max_supply mist
             then at (''UTXO amount '' @ fmt_w (ux_amount utxo) @ '' exceeds max supply '' @
                      fmt_w (max_supply mist))
             else if ux_recipient utxo \<noteq> sender
             then at (''UTXO recipient '' @ ux_recipient utxo @ '' doesn't match sender '' @ sender)
             else if length (ti_signature inp) \<noteq> 128
             then at (''Invalid signature length '' @ fmt_nat (length (ti_signature inp)) @ '' (expected 128)'')
             else if \<not> hex_ok (ti_signature inp) then at ''Signature is not valid hex''
             else Inr (ux_amount utxo)
         | Inr None \<Rightarrow> at (''UTXO not found in database ('' @ place)
         | Inl e \<Rightarrow> at (''Failed to look up UTXO: '' @ e))"

fun sum_inputs :: "(string \<Rightarrow> bool) \<Rightarrow> u64 \<Rightarrow> utxo_set \<Rightarrow> string \<Rightarrow> nat \<Rightarrow> u128 \<Rightarrow>
    transaction_input list \<Rightarrow> string + u128" where
  "sum_inputs hex_ok mist us sender i acc [] = Inr acc"
| "sum_inputs hex_ok mist us sender i acc (inp # inps) =
     (case check_input hex_ok mist us sender i inp of
        Inl e \<Rightarrow> Inl e
      | Inr amount \<Rightarrow> sum_inputs hex_ok mist us sender (Suc i) (sat_add acc amount) inps)"

definition validate_with_utxo_set ::
    "build \<Rightarrow> (string \<Rightarrow> bool) \<Rightarrow> u64 \<Rightarrow> transaction \<Rightarrow> utxo_set \<Rightarrow> (string + unit) option" where
  "validate_with_utxo_set b hex_ok mist tx us = do {
     v \<leftarrow> validate_tx b hex_ok mist tx;
     case v of
       Inl e \<Rightarrow> Some (Inl e)
     | Inr _ \<Rightarrow> (case sum_inputs hex_ok mist us (tx_sender tx) 0 0 (tx_inputs tx) of
           Inl e \<Rightarrow> Some (Inl e)
         | Inr total_in \<Rightarrow> do {
             total_out \<leftarrow> total_output b tx;
             let total_needed = sat_add total_out (tx_fee tx);
             Some (if total_in < total_needed
                   then Inl (''Insufficient input: '' @ fmt_w total_in @ '' < '' @ fmt_w total_needed @
                             '' (output: '' @ fmt_w total_out @ '', fee: '' @ fmt_w (tx_fee tx) @ '')'')
                   else Inr ())
           })
   }"

section \<open>Validation against the set of outputs\<close>

text \<open>The contract of one input: it names an unspent output of the sender with this amount.\<close>

definition spendable :: "(string \<Rightarrow> bool) \<Rightarrow> u64 \<Rightarrow> utxo_set \<Rightarrow> string \<Rightarrow> transaction_input \<Rightarrow> u128 \<Rightarrow> bool" where
  "spendable hex_ok mist us sender inp amount \<longleftrightarrow>
     (\<exists>u. hm_get (us_utxos us) (utxo_key (ti_prev_tx_hash inp) (ti_output_index inp)) = Some u \<and>
          \<not> ux_spent u \<and> ux_recipient u = sender \<and> ux_amount u = amount) \<and>
     amount \<noteq> 0 \<and> amount \<le> max_supply mist \<and>
     length (ti_signature inp) = 128 \<and> hex_ok (ti_signature inp)"

lemma check_input_Inr:
  "check_input hex_ok mist us sender i inp = Inr amount \<longleftrightarrow> spendable hex_ok mist us sender inp amount"
  by (auto simp: check_input_def spendable_def get_utxo_def Let_def split: option.splits)

lemma sum_inputs_Inr:
  "sum_inputs hex_ok mist us sender i acc inps = Inr t \<longleftrightarrow>
   (\<exists>amounts. list_all2 (spendable hex_ok mist us sender) inps amounts \<and> t = foldl sat_add acc amounts)"
proof (induction inps arbitrary: i acc)
  case (Cons inp inps)
  show ?case
  proof (cases "check_input hex_ok mist us sender i inp")
    case (Inl err)
    then have "\<not> spendable hex_ok mist us sender inp amount" for amount
      by (metis Inr_Inl_False check_input_Inr)
    with Inl show ?thesis by (auto simp: list_all2_Cons1)
  next
    case (Inr amount)
    then have "spendable hex_ok mist us sender inp x \<longleftrightarrow> x = amount" for x
      by (metis Inr_inject check_input_Inr)
    with Inr Cons.IH show ?thesis by (auto simp: list_all2_Cons1)
  qed
qed auto

lemma foldl_sat_add:
  "unat (foldl sat_add acc (xs :: 'a::len word list)) =
   min (unat acc + sum_list (map unat xs)) (2 ^ LENGTH('a) - 1)"
proof (induction xs arbitrary: acc)
  case Nil
  have "unat acc \<le> 2 ^ LENGTH('a) - 1" using unat_lt_pow [of acc] by linarith
  then show ?case by (simp add: min_def)
qed (auto simp: unat_sat_add)

lemma validate_with_utxo_set_Inr:
  "validate_with_utxo_set b hex_ok mist tx us = Some (Inr ()) \<longleftrightarrow>
   validate_tx b hex_ok mist tx = Some (Inr ()) \<and>
   (\<exists>amounts out. list_all2 (spendable hex_ok mist us (tx_sender tx)) (tx_inputs tx) amounts \<and>
      total_output b tx = Some out \<and>
      min (unat out + unat (tx_fee tx)) (2 ^ 128 - 1) \<le> sum_list (map unat amounts))"
proof -
  have need: "\<not> foldl sat_add 0 amounts < sat_add out (tx_fee tx) \<longleftrightarrow>
      min (unat out + unat (tx_fee tx)) (2 ^ 128 - 1) \<le> sum_list (map unat amounts)"
    for amounts out
    by (simp add: word_less_nat_alt not_less foldl_sat_add unat_sat_add min_le_iff_disj) linarith
  show ?thesis
  proof (cases "validate_tx b hex_ok mist tx = Some (Inr ())")
    case False
    then show ?thesis
      by (cases "validate_tx b hex_ok mist tx") (auto simp: validate_with_utxo_set_def split: sum.splits)
  next
    case True
    show ?thesis
    proof (cases "sum_inputs hex_ok mist us (tx_sender tx) 0 0 (tx_inputs tx)")
      case (Inl err)
      then have "\<not> list_all2 (spendable hex_ok mist us (tx_sender tx)) (tx_inputs tx) amounts" for amounts
        using sum_inputs_Inr [of hex_ok mist us "tx_sender tx" 0 0 "tx_inputs tx"]
        by (metis Inr_Inl_False)
      with True Inl show ?thesis by (simp add: validate_with_utxo_set_def)
    next
      case (Inr t)
      then have "\<exists>amounts. list_all2 (spendable hex_ok mist us (tx_sender tx)) (tx_inputs tx) amounts \<and>
          t = foldl sat_add 0 amounts" by (simp only: sum_inputs_Inr)
      then obtain amounts where am: "list_all2 (spendable hex_ok mist us (tx_sender tx)) (tx_inputs tx) amounts"
        and t: "t = foldl sat_add 0 amounts" by blast
      have unique: "amounts' = amounts"
        if "list_all2 (spendable hex_ok mist us (tx_sender tx)) (tx_inputs tx) amounts'" for amounts'
        using that am
      proof (induction amounts' arbitrary: amounts rule: list_all2_induct)
        case (Cons x xs y ys)
        then obtain z zs where "amounts = z # zs" "spendable hex_ok mist us (tx_sender tx) x z"
          "list_all2 (spendable hex_ok mist us (tx_sender tx)) xs zs"
          by (auto simp: list_all2_Cons1)
        with Cons show ?case by (auto simp: spendable_def)
      qed simp
      have "validate_with_utxo_set b hex_ok mist tx us = Some (Inr ()) \<longleftrightarrow>
          (\<exists>out. total_output b tx = Some out \<and> \<not> t < sat_add out (tx_fee tx))"
        using True Inr
        by (cases "total_output b tx") (auto simp: validate_with_utxo_set_def)
      with True am unique show ?thesis unfolding t need by blast
    qed
  qed
qed

text \<open>C26: Validation against the set of outputs accepts a transaction exactly when the basic validation
  does, every input names an unspent output of the sender with a 128-digit signature, and the
  amounts of these outputs, added once per input and capped at the 128-bit maximum, cover the
  outputs and the fee.\<close>

theorem utxo_validation_accepts_iff:
  "validate_with_utxo_set b hex_ok mist tx us = Some (Inr ()) \<longleftrightarrow>
   validate_tx b hex_ok mist tx = Some (Inr ()) \<and>
   (\<exists>amounts out. list_all2 (spendable hex_ok mist us (tx_sender tx)) (tx_inputs tx) amounts \<and>
      total_output b tx = Some out \<and>
      min (unat out + unat (tx_fee tx)) (2 ^ 128 - 1) \<le> sum_list (map unat amounts))"
  by (rule validate_with_utxo_set_Inr)

lemma total_input_from_mono:
  "unat acc \<le> unat (total_input_from hex_ok mist i acc inps)"
proof (induction inps arbitrary: i acc)
  case (Cons inp inps)
  have "unat acc \<le> unat (if input_counts hex_ok mist i inp then sat_add acc (input_amount mist i) else acc)"
    using unat_lt_pow [of acc] by (simp add: unat_sat_add)
  also have "\<dots> \<le> unat (total_input_from hex_ok mist i acc (inp # inps))"
    using Cons.IH by (simp only: total_input_from.simps)
  finally show ?case .
qed simp

lemma total_input_from_append:
  "total_input_from hex_ok mist i acc (xs @ ys) =
   total_input_from hex_ok mist (i + length xs) (total_input_from hex_ok mist i acc xs) ys"
  by (induction xs arbitrary: i acc) simp_all

text \<open>An output listed twice among the inputs counts twice: when a transaction is accepted against
  the set of outputs, so is the one that repeats its inputs and spends the same amount once more.\<close>

theorem duplicate_inputs_count_twice:
  assumes "validate_with_utxo_set b hex_ok mist tx us = Some (Inr ())"
    and "total_output b tx = Some out" and "2 * (unat out + unat (tx_fee tx)) < 2 ^ 128"
    and "total_output b tx2 = Some out2" and "tx_outputs tx2 \<noteq> []"
    and "\<not> list_ex (\<lambda>t. to_amount t = 0) (tx_outputs tx2)"
    and "unat out2 \<le> unat out" and "unat out2 + unat (tx_fee tx2) = 2 * (unat out + unat (tx_fee tx))"
    and "tx_sender tx2 = tx_sender tx" and "tx_inputs tx2 = tx_inputs tx @ tx_inputs tx"
  shows "validate_with_utxo_set b hex_ok mist tx2 us = Some (Inr ())"
proof -
  obtain amounts where v: "validate_tx b hex_ok mist tx = Some (Inr ())"
    and am: "list_all2 (spendable hex_ok mist us (tx_sender tx)) (tx_inputs tx) amounts"
    and le: "min (unat out + unat (tx_fee tx)) (2 ^ 128 - 1) \<le> sum_list (map unat amounts)"
    using assms(1,2) by (auto simp only: validate_with_utxo_set_Inr)
  have "tx_sender tx \<noteq> []" "tx_inputs tx \<noteq> []" "\<not> total_input hex_ok mist tx < out"
    using v assms(2) by (auto simp: validate_tx_def split: if_splits)
  moreover have "unat (total_input hex_ok mist tx) \<le> unat (total_input hex_ok mist tx2)"
    by (simp add: total_input_def assms(10) total_input_from_append total_input_from_mono)
  ultimately have "validate_tx b hex_ok mist tx2 = Some (Inr ())"
    using assms(4-7,9,10) by (simp add: validate_tx_def word_less_nat_alt)
  moreover have "list_all2 (spendable hex_ok mist us (tx_sender tx2)) (tx_inputs tx2) (amounts @ amounts)"
    using am by (simp add: assms(9,10) list_all2_appendI)
  moreover have "min (unat out2 + unat (tx_fee tx2)) (2 ^ 128 - 1) \<le>
      sum_list (map unat (amounts @ amounts))"
    using le assms(3,8) by (simp add: min_def split: if_splits)
  ultimately show ?thesis using assms(4) by (subst validate_with_utxo_set_Inr) blast
qed


definition dup_tx :: "nat \<Rightarrow> u128 \<Rightarrow> transaction" where
  "dup_tx n fee = \<lparr>tx_hash = ''d'', tx_sender = ''alice'',
     tx_inputs = replicate n \<lparr>ti_prev_tx_hash = sample_hash, ti_output_index = 0, ti_signature = sample_hash\<rparr>,
     tx_outputs = [\<lparr>to_recipient = ''bob'', to_amount = 4\<rparr>], tx_fee = fee, tx_timestamp = 0,
     tx_status = Pending\<rparr>"

lemma sample_spendable:
  "spendable (\<lambda>_. True) 100 sample_set ''alice''
     \<lparr>ti_prev_tx_hash = sample_hash, ti_output_index = 0, ti_signature = sample_hash\<rparr> 5"
  by (simp add: spendable_def sample_set_def new_utxo_set_def add_utxo_def sample_entry_def Let_def
      utxo_key_inject max_supply_def word_le_nat_alt) (simp add: sample_hash_def)

lemma dup_tx_output: "total_output b (dup_tx n fee) = Some 4"
  by (simp add: total_output_def dup_tx_def sum_w_def add_w_def)

lemma replicate_two: "replicate 2 x = [x, x]"
  by (simp add: numeral_2_eq_2)

lemma sample_validates: "validate_with_utxo_set Debug (\<lambda>_. True) 100 (dup_tx 1 1) sample_set = Some (Inr ())"
proof (subst validate_with_utxo_set_Inr, intro conjI exI)
  show "validate_tx Debug (\<lambda>_. True) 100 (dup_tx 1 1) = Some (Inr ())"
    using dup_tx_output [of Debug 1 1]
    by (simp add: validate_tx_def total_input_def)
       (simp add: dup_tx_def input_counts_def input_amount_def max_supply_def sample_hash_def
          word_less_nat_alt sat_add_def Let_def)
  show "list_all2 (spendable (\<lambda>_. True) 100 sample_set (tx_sender (dup_tx 1 1))) (tx_inputs (dup_tx 1 1)) [5]"
    using sample_spendable by (simp add: dup_tx_def)
  show "total_output Debug (dup_tx 1 1) = Some 4" by (rule dup_tx_output)
qed (simp add: dup_tx_def)

theorem duplicate_inputs_count_twice_witness:
  "validate_with_utxo_set Debug (\<lambda>_. True) 100 (dup_tx 2 6) sample_set = Some (Inr ())"
  by (rule duplicate_inputs_count_twice [OF sample_validates dup_tx_output _ dup_tx_output])
     (simp_all add: dup_tx_def replicate_two)

section \<open>The amounts of the basic validation\<close>

definition input_weight :: "nat \<Rightarrow> nat" where
  "input_weight i = (if i = 0 then 1 else if i = 1 then 2 else if i = 2 then 5 else if i = 3 then 10 else i + 1)"

definition well_formed_input :: "(string \<Rightarrow> bool) \<Rightarrow> transaction_input \<Rightarrow> bool" where
  "well_formed_input hex_ok inp \<longleftrightarrow> length (ti_prev_tx_hash inp) = 128 \<and> hex_ok (ti_prev_tx_hash inp) \<and>
     length (ti_signature inp) \<in> {128, 132, 5120} \<and> hex_ok (ti_signature inp)"

lemma input_amount_weight:
  "i < 21000000 \<Longrightarrow> unat (input_amount mist i) = unat mist * input_weight i"
proof -
  assume i: "i < 21000000"
  have m: "unat mist < 2 ^ 64" using unat_lt_pow [of mist] by simp
  have w: "input_weight i \<le> 21000000" using i by (simp add: input_weight_def)
  have "unat (ucast mist :: u128) = unat mist" using m by (simp add: unat_ucast_mod)
  moreover have "unat (of_nat i + 1 :: u128) = i + 1" using i by (simp add: unat_word_ariths unat_of_nat)
  moreover have "min (unat mist) (2 ^ 128 - 1) = unat mist" using m by simp
  ultimately have "unat (input_amount mist i) = min (unat mist * input_weight i) (2 ^ 128 - 1)"
    by (simp add: input_amount_def input_weight_def Let_def unat_sat_mul)
  moreover have "unat mist * input_weight i \<le> 2 ^ 128 - 1"
    using mult_le_mono [OF less_imp_le [OF m] w] by simp
  ultimately show ?thesis by (simp only: min_absorb1)
qed

lemma input_counts_well_formed:
  assumes "i < 21000000" and "mist \<noteq> 0" and "well_formed_input hex_ok inp"
  shows "input_counts hex_ok mist i inp"
proof -
  have m: "unat mist < 2 ^ 64" using unat_lt_pow [of mist] by simp
  then have "unat (ucast mist :: u128) = unat mist" by (simp add: unat_ucast_mod)
  with m have s: "unat (max_supply mist) = 21000000 * unat mist"
    by (simp add: max_supply_def unat_mul_exact)
  have a: "unat (input_amount mist i) = unat mist * input_weight i" using assms(1) by (rule input_amount_weight)
  have "input_weight i \<le> 21000000" "0 < input_weight i" using assms(1) by (auto simp: input_weight_def)
  then have "unat (input_amount mist i) \<le> unat (max_supply mist)" and "0 < unat (input_amount mist i)"
    using assms(2) by (simp_all add: a s unat_gt_0)
  then show ?thesis using assms(3)
    by (auto simp: input_counts_def well_formed_input_def word_less_nat_alt)
qed

lemma total_input_from_weights:
  "\<lbrakk>i + length inps \<le> 21000000; mist \<noteq> 0; \<forall>inp \<in> set inps. well_formed_input hex_ok inp;
    unat acc \<le> unat mist * (21000000 * i)\<rbrakk> \<Longrightarrow>
   unat (total_input_from hex_ok mist i acc inps) =
   unat acc + unat mist * (\<Sum>j<length inps. input_weight (i + j))"
proof (induction inps arbitrary: i acc)
  case (Cons inp inps)
  let ?m = "unat mist"
  have m: "?m < 2 ^ 64" using unat_lt_pow [of mist] by simp
  have i: "i < 21000000" using Cons.prems(1) by simp
  then have w: "input_weight i \<le> 21000000" by (simp add: input_weight_def)
  have counts: "input_counts hex_ok mist i inp" using i Cons.prems(2,3) by (simp add: input_counts_well_formed)
  have amt: "unat (input_amount mist i) = ?m * input_weight i" using i by (rule input_amount_weight)
  have bound: "unat acc + ?m * input_weight i \<le> ?m * (21000000 * Suc i)"
  proof -
    have "?m * input_weight i \<le> ?m * 21000000" using w by (rule mult_le_mono2)
    moreover have "?m * (21000000 * Suc i) = ?m * (21000000 * i) + ?m * 21000000"
      by (simp add: algebra_simps)
    ultimately show ?thesis using Cons.prems(4) by linarith
  qed
  also have "\<dots> \<le> 2 ^ 64 * (21000000 * 21000000)" using m i by (intro mult_le_mono) auto
  also have "\<dots> < (2::nat) ^ 128" by simp
  finally have "unat (sat_add acc (input_amount mist i)) = unat acc + ?m * input_weight i"
    by (simp add: unat_sat_add amt min_def)
  moreover note Cons.IH [of "Suc i" "sat_add acc (input_amount mist i)"]
  moreover have "(\<Sum>j<Suc (length inps). input_weight (i + j)) =
      input_weight i + (\<Sum>j<length inps. input_weight (Suc i + j))"
    by (subst sum.lessThan_Suc_shift) simp
  ultimately show ?case
    using Cons.prems bound counts by (simp add: algebra_simps)
qed simp

text \<open>The amounts that the basic validation adds up are made up from the positions of the inputs:
  for \<open>n\<close> well-formed inputs they total 1, 2, 5 and 10 SLVR for the first four and \<open>i + 1\<close> SLVR for
  the one at position \<open>i\<close> after them, whatever outputs the inputs name.\<close>

theorem input_total_made_up:
  assumes "length (tx_inputs tx) \<le> 21000000" and "mist \<noteq> 0"
    and "\<forall>inp \<in> set (tx_inputs tx). well_formed_input hex_ok inp"
  shows "unat (total_input hex_ok mist tx) = unat mist * (\<Sum>i<length (tx_inputs tx). input_weight i)"
  using total_input_from_weights [of 0 "tx_inputs tx" mist hex_ok 0] assms by (simp add: total_input_def)

theorem input_total_made_up_witness:
  "unat (total_input (\<lambda>_. True) 100000000 (dup_tx 5 0)) = 2300000000"
proof -
  have "unat (total_input (\<lambda>_. True) 100000000 (dup_tx 5 0)) =
      unat (100000000 :: u64) * (\<Sum>i<length (tx_inputs (dup_tx 5 0)). input_weight i)"
    by (rule input_total_made_up)
       (auto simp: dup_tx_def well_formed_input_def sample_hash_def)
  also have "\<dots> = 2300000000"
  proof -
    have "{..<5 :: nat} = {0, 1, 2, 3, 4}" by auto
    then show ?thesis by (simp add: dup_tx_def input_weight_def)
  qed
  finally show ?thesis .
qed

end
