(* ===== verification/Transaction_Engine.thy ===== *)
theory Transaction_Engine
  imports Transactions
begin

text \<open>
  Accounts and the transaction engine (\<open>TransactionEngine\<close> of \<open>src/transaction_engine.rs\<close>): the
  accounts, the executed transactions with their results, the mempool and the set of outputs.
  The bytes of \<open>serde_json::to_vec\<close> (empty when it fails) are the argument \<open>ser\<close>. One operation
  reads the clock once (\<open>now\<close>).
\<close>

section \<open>Accounts\<close>

record account_state =
  ac_address :: string
  ac_balance :: u128
  ac_nonce :: u64
  ac_last_tx_time :: u64

definition new_account_state :: "time \<Rightarrow> string \<Rightarrow> account_state" where
  "new_account_state now address =
     \<lparr>ac_address = address, ac_balance = 0, ac_nonce = 0, ac_last_tx_time = now\<rparr>"

definition add_balance :: "account_state \<Rightarrow> u128 \<Rightarrow> account_state" where
  "add_balance a amount = a\<lparr>ac_balance := sat_add (ac_balance a) amount\<rparr>"

definition subtract_balance :: "account_state \<Rightarrow> u128 \<Rightarrow> string + account_state" where
  "subtract_balance a amount =
     (if ac_balance a < amount
      then Inl (''Insufficient balance: '' @ fmt_w (ac_balance a) @ '' < '' @ fmt_w amount)
      else Inr (a\<lparr>ac_balance := sat_sub (ac_balance a) amount\<rparr>))"

definition increment_nonce :: "account_state \<Rightarrow> account_state" where
  "increment_nonce a = a\<lparr>ac_nonce := sat_add (ac_nonce a) 1\<rparr>"

record execution_result =
  er_tx_hash :: string
  er_status :: transaction_status
  er_gas_used :: u64
  er_error :: "string option"
  er_timestamp :: u64

record engine =
  te_accounts :: "(string, account_state) hmap"
  te_transactions :: "transaction list"
  te_mempool :: "transaction list"
  te_executed :: "execution_result list"
  te_utxo_set :: utxo_set

definition new_engine :: engine where
  "new_engine = \<lparr>te_accounts = [], te_transactions = [], te_mempool = [], te_executed = [],
                 te_utxo_set = new_utxo_set\<rparr>"

text \<open>Reading an account creates it.\<close>

definition get_or_create_account :: "time \<Rightarrow> engine \<Rightarrow> string \<Rightarrow> account_state \<times> engine" where
  "get_or_create_account now e address =
     (case hm_get (te_accounts e) address of
        Some a \<Rightarrow> (a, e)
      | None \<Rightarrow> (let a = new_account_state now address
                 in (a, e\<lparr>te_accounts := hm_insert address a (te_accounts e)\<rparr>)))"

definition submit_transaction :: "build \<Rightarrow> (string \<Rightarrow> bool) \<Rightarrow> u64 \<Rightarrow> time \<Rightarrow> engine \<Rightarrow> transaction \<Rightarrow>
    ((string + string) \<times> engine) option" where
  "submit_transaction b hex_ok mist now e tx = do {
     v \<leftarrow> validate_tx b hex_ok mist tx;
     case v of
       Inl err \<Rightarrow> Some (Inl err, e)
     | Inr _ \<Rightarrow>
         let (sender_account, e) = get_or_create_account now e (tx_sender tx) in do {
           total_out \<leftarrow> total_output b tx;
           let total_needed = sat_add total_out (tx_fee tx);
           Some (if ac_balance sender_account < total_needed
                 then (Inl (''Insufficient balance: '' @ fmt_w (ac_balance sender_account) @ '' < '' @
                            fmt_w total_needed), e)
                 else (Inr (tx_hash tx), e\<lparr>te_mempool := te_mempool e @ [tx]\<rparr>))
         }
   }"

text \<open>The loop over the outputs: a copy of each recipient's account is credited and stored.\<close>

fun credit_outputs :: "time \<Rightarrow> engine \<Rightarrow> transaction_output list \<Rightarrow> engine" where
  "credit_outputs now e [] = e"
| "credit_outputs now e (out # outs) =
     (let (recipient_account, e1) = get_or_create_account now e (to_recipient out);
          recipient_account = add_balance recipient_account (to_amount out)
      in credit_outputs now
           (e1\<lparr>te_accounts := hm_insert (ac_address recipient_account) recipient_account
                                (te_accounts e1)\<rparr>) outs)"

text \<open>The loop that counts the zero and the other bytes of the serialised transaction.\<close>

fun count_bytes :: "build \<Rightarrow> u64 \<Rightarrow> u64 \<Rightarrow> bytes \<Rightarrow> (u64 \<times> u64) option" where
  "count_bytes b zero_bytes nonzero_bytes [] = Some (zero_bytes, nonzero_bytes)"
| "count_bytes b zero_bytes nonzero_bytes (x # xs) =
     (if x = 0 then do { z \<leftarrow> add_w b zero_bytes 1; count_bytes b z nonzero_bytes xs }
      else do { n \<leftarrow> add_w b nonzero_bytes 1; count_bytes b zero_bytes n xs })"

definition gas_of :: "build \<Rightarrow> bytes \<Rightarrow> transaction \<Rightarrow> u64 option" where
  "gas_of b tx_bytes tx = do {
     (zero_bytes, nonzero_bytes) \<leftarrow> count_bytes b 0 0 tx_bytes;
     z \<leftarrow> mul_w b zero_bytes 4;
     n \<leftarrow> mul_w b nonzero_bytes 16;
     data_gas \<leftarrow> add_w b z n;
     input_gas \<leftarrow> mul_w b (of_nat (length (tx_inputs tx))) 375;
     output_gas \<leftarrow> mul_w b (of_nat (length (tx_outputs tx))) 375;
     g1 \<leftarrow> add_w b 21000 data_gas;
     g2 \<leftarrow> add_w b g1 input_gas;
     add_w b g2 output_gas
   }"

definition execute_tx_internal :: "build \<Rightarrow> (transaction \<Rightarrow> bytes) \<Rightarrow> time \<Rightarrow> engine \<Rightarrow> transaction \<Rightarrow>
    ((string + u64) \<times> engine) option" where
  "execute_tx_internal b ser now e tx =
     (let (sender_account, e1) = get_or_create_account now e (tx_sender tx) in do {
        total_out \<leftarrow> total_output b tx;
        let total_needed = sat_add total_out (tx_fee tx);
        (case subtract_balance sender_account total_needed of
           Inl err \<Rightarrow> Some (Inl err, e1)
         | Inr sender_account \<Rightarrow>
             let sender_account = increment_nonce sender_account;
                 e2 = credit_outputs now e1 (tx_outputs tx);
                 e3 = e2\<lparr>te_accounts := hm_insert (ac_address sender_account) sender_account
                                          (te_accounts e2)\<rparr>
             in do { gas_used \<leftarrow> gas_of b (ser tx) tx; Some (Inr gas_used, e3) })
      })"

definition execute_transaction :: "build \<Rightarrow> (transaction \<Rightarrow> bytes) \<Rightarrow> time \<Rightarrow> engine \<Rightarrow> string \<Rightarrow>
    ((string + execution_result) \<times> engine) option" where
  "execute_transaction b ser now e h =
     (case find (\<lambda>t. tx_hash t = h) (te_mempool e) of
        None \<Rightarrow> Some (Inl (''Transaction not found in mempool: '' @ h), e)
      | Some tx \<Rightarrow>
          let e0 = e\<lparr>te_mempool := remove1_by (\<lambda>t. tx_hash t = h) (te_mempool e)\<rparr> in do {
            (r, e1) \<leftarrow> execute_tx_internal b ser now e0 tx;
            let (tx, result) = (case r of
                Inr gas_used \<Rightarrow>
                  (tx\<lparr>tx_status := Confirmed\<rparr>,
                   \<lparr>er_tx_hash = tx_hash tx, er_status = Confirmed, er_gas_used = gas_used,
                    er_error = None, er_timestamp = now\<rparr>)
              | Inl err \<Rightarrow>
                  (tx\<lparr>tx_status := Failed\<rparr>,
                   \<lparr>er_tx_hash = tx_hash tx, er_status = Failed, er_gas_used = 0,
                    er_error = Some err, er_timestamp = now\<rparr>));
            Some (Inr result, e1\<lparr>te_transactions := te_transactions e1 @ [tx],
                                 te_executed := te_executed e1 @ [result]\<rparr>)
          })"

definition get_balance :: "time \<Rightarrow> engine \<Rightarrow> string \<Rightarrow> u128 \<times> engine" where
  "get_balance now e address =
     (let (a, e1) = get_or_create_account now e address in (ac_balance a, e1))"

definition get_nonce :: "time \<Rightarrow> engine \<Rightarrow> string \<Rightarrow> u64 \<times> engine" where
  "get_nonce now e address =
     (let (a, e1) = get_or_create_account now e address in (ac_nonce a, e1))"

definition get_mempool_size :: "engine \<Rightarrow> nat" where
  "get_mempool_size e = length (te_mempool e)"

definition get_transaction_history :: "engine \<Rightarrow> string \<Rightarrow> transaction list" where
  "get_transaction_history e address =
     filter (\<lambda>t. tx_sender t = address \<or> list_ex (\<lambda>out. to_recipient out = address) (tx_outputs t))
       (te_transactions e)"

definition get_execution_history :: "engine \<Rightarrow> execution_result list" where
  "get_execution_history e = te_executed e"

record engine_stats =
  es_total_accounts :: nat
  es_total_balance :: u128
  es_total_transactions :: u64
  es_mempool_size :: nat
  es_executed_transactions :: nat
  es_failed_transactions :: nat

definition get_engine_stats :: "build \<Rightarrow> engine \<Rightarrow> engine_stats option" where
  "get_engine_stats b e = do {
     total_balance \<leftarrow> sum_w b (map ac_balance (hm_values (te_accounts e)));
     total_transactions \<leftarrow> sum_w b (map ac_nonce (hm_values (te_accounts e)));
     Some \<lparr>es_total_accounts = length (te_accounts e), es_total_balance = total_balance,
           es_total_transactions = total_transactions, es_mempool_size = length (te_mempool e),
           es_executed_transactions = length (te_executed e),
           es_failed_transactions = length (filter (\<lambda>r. er_status r = Failed) (te_executed e))\<rparr>
   }"

text \<open>The engine's operations on its set of outputs.\<close>

definition engine_add_utxo :: "(string \<Rightarrow> bool) \<Rightarrow> engine \<Rightarrow> utxo_entry \<Rightarrow> (string + unit) \<times> engine" where
  "engine_add_utxo hex_ok e utxo =
     (let (r, us) = add_utxo hex_ok (te_utxo_set e) utxo in (r, e\<lparr>te_utxo_set := us\<rparr>))"

definition engine_get_utxo :: "engine \<Rightarrow> string \<Rightarrow> u32 \<Rightarrow> string + utxo_entry option" where
  "engine_get_utxo e h i = get_utxo (te_utxo_set e) h i"

definition engine_spend_utxo :: "engine \<Rightarrow> string \<Rightarrow> u32 \<Rightarrow> (string + unit) \<times> engine" where
  "engine_spend_utxo e h i =
     (let (r, us) = spend_utxo (te_utxo_set e) h i in (r, e\<lparr>te_utxo_set := us\<rparr>))"

definition engine_get_address_utxos :: "engine \<Rightarrow> string \<Rightarrow> string + utxo_entry list" where
  "engine_get_address_utxos e address = get_address_utxos (te_utxo_set e) address"

definition engine_get_address_balance :: "build \<Rightarrow> engine \<Rightarrow> string \<Rightarrow> (string + u128) option" where
  "engine_get_address_balance b e address = get_address_balance b (te_utxo_set e) address"

definition engine_validate_utxo :: "engine \<Rightarrow> string \<Rightarrow> u32 \<Rightarrow> string + unit" where
  "engine_validate_utxo e h i = validate_utxo (te_utxo_set e) h i"

definition get_utxo_stats :: "engine \<Rightarrow> nat \<times> nat" where
  "get_utxo_stats e = (utxo_count (te_utxo_set e), unspent_utxo_count (te_utxo_set e))"

section \<open>Balances\<close>

definition accounts_ok :: "engine \<Rightarrow> bool" where
  "accounts_ok e \<longleftrightarrow> hm_invar (te_accounts e) \<and>
     (\<forall>k a. hm_get (te_accounts e) k = Some a \<longrightarrow> ac_address a = k)"

definition bal :: "engine \<Rightarrow> string \<Rightarrow> nat" where
  "bal e address =
     (case hm_get (te_accounts e) address of Some a \<Rightarrow> unat (ac_balance a) | None \<Rightarrow> 0)"

definition paid_to :: "transaction_output list \<Rightarrow> string \<Rightarrow> nat" where
  "paid_to outs address =
     sum_list (map (unat \<circ> to_amount) (filter (\<lambda>out. to_recipient out = address) outs))"

text \<open>What an execution leaves alone.\<close>

definition rest_of :: "engine \<Rightarrow> transaction list \<times> transaction list \<times> execution_result list \<times> utxo_set" where
  "rest_of e = (te_transactions e, te_mempool e, te_executed e, te_utxo_set e)"

lemma rest_of_accounts [simp]: "rest_of (e\<lparr>te_accounts := m\<rparr>) = rest_of e"
  by (simp add: rest_of_def)

lemma bal_lt: "bal e a < 2 ^ 128"
  using unat_lt_pow [where 'a = 128] by (auto simp: bal_def split: option.splits)

lemma bal_insert:
  "bal (e\<lparr>te_accounts := hm_insert k a (te_accounts e)\<rparr>) =
   (bal e)(k := unat (ac_balance a))"
  by (auto simp: bal_def hm_get_insert)

lemma accounts_ok_insert:
  "accounts_ok e \<Longrightarrow> ac_address a = k \<Longrightarrow>
   accounts_ok (e\<lparr>te_accounts := hm_insert k a (te_accounts e)\<rparr>)"
  by (simp add: accounts_ok_def hm_get_insert)

lemma get_or_create_account:
  assumes "get_or_create_account now e address = (a, e1)" and "accounts_ok e"
  shows "ac_address a = address" and "unat (ac_balance a) = bal e address" and "accounts_ok e1"
    and "bal e1 = bal e" and "rest_of e1 = rest_of e"
  using assms
  by (auto simp: get_or_create_account_def accounts_ok_def bal_def Let_def new_account_state_def
      hm_get_insert split: option.splits if_splits)

lemma credit_outputs:
  "accounts_ok e \<Longrightarrow> accounts_ok (credit_outputs now e outs) \<and>
   bal (credit_outputs now e outs) address = min (bal e address + paid_to outs address) (2 ^ 128 - 1) \<and>
   rest_of (credit_outputs now e outs) = rest_of e"
proof (induction outs arbitrary: e)
  case Nil
  then show ?case using bal_lt [of e address] by (simp add: paid_to_def)
next
  case (Cons out outs)
  obtain a e1 where g: "get_or_create_account now e (to_recipient out) = (a, e1)" by force
  note acc = get_or_create_account [OF g Cons.prems]
  let ?a = "add_balance a (to_amount out)"
  let ?e2 = "e1\<lparr>te_accounts := hm_insert (ac_address ?a) ?a (te_accounts e1)\<rparr>"
  have ok: "accounts_ok ?e2"
    using acc(3) by (simp add: accounts_ok_insert)
  have "bal ?e2 address = (if address = to_recipient out
      then min (bal e address + unat (to_amount out)) (2 ^ 128 - 1) else bal e address)"
    using acc(1,2,4) by (simp add: bal_insert add_balance_def unat_sat_add)
  moreover have "credit_outputs now e (out # outs) = credit_outputs now ?e2 outs"
    by (simp add: g Let_def)
  ultimately show ?case
    using Cons.IH [OF ok] acc(5) by (auto simp: paid_to_def)
qed

text \<open>The balances, the accounts and the rest of the engine after an execution.\<close>

lemma execute_tx_internal:
  assumes "execute_tx_internal b ser now e tx = Some (r, e')" and "accounts_ok e"
  shows "accounts_ok e'" and "rest_of e' = rest_of e"
    and "\<exists>out. total_output b tx = Some out \<and>
      (case r of
         Inl _ \<Rightarrow> bal e (tx_sender tx) < unat (sat_add out (tx_fee tx)) \<and> bal e' = bal e
       | Inr _ \<Rightarrow> unat (sat_add out (tx_fee tx)) \<le> bal e (tx_sender tx) \<and>
           (\<forall>a. bal e' a =
              (if a = tx_sender tx then bal e a - unat (sat_add out (tx_fee tx))
               else min (bal e a + paid_to (tx_outputs tx) a) (2 ^ 128 - 1))))"
proof -
  obtain a e1 where g: "get_or_create_account now e (tx_sender tx) = (a, e1)" by force
  note acc = get_or_create_account [OF g assms(2)]
  obtain out where out: "total_output b tx = Some out"
    using assms(1) by (auto simp: execute_tx_internal_def g bind_eq_Some_conv)
  let ?need = "sat_add out (tx_fee tx)"
  have "accounts_ok e' \<and> rest_of e' = rest_of e \<and> (case r of
         Inl _ \<Rightarrow> bal e (tx_sender tx) < unat ?need \<and> bal e' = bal e
       | Inr _ \<Rightarrow> unat ?need \<le> bal e (tx_sender tx) \<and>
           (\<forall>a. bal e' a =
              (if a = tx_sender tx then bal e a - unat ?need
               else min (bal e a + paid_to (tx_outputs tx) a) (2 ^ 128 - 1))))"
  proof (cases "ac_balance a < ?need")
    case True
    then have "r = Inl (''Insufficient balance: '' @ fmt_w (ac_balance a) @ '' < '' @ fmt_w ?need)"
      and "e' = e1"
      using assms(1) out by (simp_all add: execute_tx_internal_def g subtract_balance_def)
    with True acc show ?thesis by (simp add: word_less_nat_alt)
  next
    case False
    let ?a = "increment_nonce (a\<lparr>ac_balance := sat_sub (ac_balance a) ?need\<rparr>)"
    let ?e2 = "credit_outputs now e1 (tx_outputs tx)"
    have r: "\<exists>gas. r = Inr gas"
      and e': "e' = ?e2\<lparr>te_accounts := hm_insert (tx_sender tx) ?a (te_accounts ?e2)\<rparr>"
      using assms(1) out False acc(1)
      by (auto simp: execute_tx_internal_def g subtract_balance_def bind_eq_Some_conv increment_nonce_def
          Let_def)
    note c = credit_outputs [OF acc(3), of now "tx_outputs tx"]
    have "accounts_ok e'" unfolding e' using c acc(1)
      by (intro accounts_ok_insert) (auto simp: increment_nonce_def)
    moreover have "rest_of e' = rest_of e"
      using c acc(5) by (simp add: e')
    moreover have "bal e' x = (if x = tx_sender tx then bal e x - unat ?need
               else min (bal e x + paid_to (tx_outputs tx) x) (2 ^ 128 - 1))" for x
      using c [of x] acc(2,4) by (simp add: e' bal_insert increment_nonce_def unat_sat_sub)
    moreover have "unat ?need \<le> bal e (tx_sender tx)"
      using False acc(2) by (simp add: word_less_nat_alt)
    ultimately show ?thesis using r by auto
  qed
  with out show "accounts_ok e'" and "rest_of e' = rest_of e"
    and "\<exists>out. total_output b tx = Some out \<and>
      (case r of
         Inl _ \<Rightarrow> bal e (tx_sender tx) < unat (sat_add out (tx_fee tx)) \<and> bal e' = bal e
       | Inr _ \<Rightarrow> unat (sat_add out (tx_fee tx)) \<le> bal e (tx_sender tx) \<and>
           (\<forall>a. bal e' a =
              (if a = tx_sender tx then bal e a - unat (sat_add out (tx_fee tx))
               else min (bal e a + paid_to (tx_outputs tx) a) (2 ^ 128 - 1))))"
    by blast+
qed

lemma execute_succeeds:
  assumes "accounts_ok e" and "total_output b tx = Some out"
    and "unat (sat_add out (tx_fee tx)) \<le> bal e (tx_sender tx)" and "gas_of b (ser tx) tx = Some gas"
  shows "\<exists>e'. execute_tx_internal b ser now e tx = Some (Inr gas, e')"
proof -
  obtain a e1 where g: "get_or_create_account now e (tx_sender tx) = (a, e1)" by force
  have "\<not> ac_balance a < sat_add out (tx_fee tx)"
    using get_or_create_account(2) [OF g assms(1)] assms(3) by (simp add: word_less_nat_alt)
  with assms(2,4) show ?thesis
    by (simp add: execute_tx_internal_def g subtract_balance_def Let_def)
qed

definition sample_tx :: transaction where
  "sample_tx = \<lparr>tx_hash = ''h'', tx_sender = ''alice'',
     tx_inputs = [\<lparr>ti_prev_tx_hash = sample_hash, ti_output_index = 0, ti_signature = sample_hash\<rparr>],
     tx_outputs = [\<lparr>to_recipient = ''bob'', to_amount = 30\<rparr>, \<lparr>to_recipient = ''alice'', to_amount = 20\<rparr>],
     tx_fee = 1, tx_timestamp = 0, tx_status = Pending\<rparr>"

definition sample_engine :: engine where
  "sample_engine = new_engine\<lparr>te_accounts :=
     [(''alice'', \<lparr>ac_address = ''alice'', ac_balance = 100, ac_nonce = 0, ac_last_tx_time = 0\<rparr>)]\<rparr>"

lemma paid_to_le: "paid_to outs a \<le> sum_list (map (unat \<circ> to_amount) outs)"
  unfolding paid_to_def by (induction outs) auto

lemma sample_engine_ok: "accounts_ok sample_engine"
  by (simp add: accounts_ok_def sample_engine_def hm_invar_def)

lemma sample_engine_bal: "bal sample_engine a = (if a = ''alice'' then 100 else 0)"
  by (auto simp: bal_def sample_engine_def new_engine_def)


section \<open>Execution from the mempool\<close>

lemma remove1_by_length:
  "find P xs \<noteq> None \<Longrightarrow> Suc (length (remove1_by P xs)) = length xs"
  by (induction xs) auto

text \<open>Executing a pending transaction that its sender cannot pay is reported as a success of
  the call: it returns a result with status \<open>Failed\<close> and no gas, records the transaction as failed,
  takes it out of the mempool, and leaves every balance and the set of outputs as they were.\<close>

theorem failed_execution:
  assumes "find (\<lambda>t. tx_hash t = h) (te_mempool e) = Some tx"
    and "accounts_ok e"
    and "total_output b tx = Some out"
    and "bal e (tx_sender tx) < unat (sat_add out (tx_fee tx))"
  shows "\<exists>r e'. execute_transaction b ser now e h = Some (Inr r, e') \<and>
    er_tx_hash r = tx_hash tx \<and> er_status r = Failed \<and> er_gas_used r = 0 \<and> er_error r \<noteq> None \<and>
    bal e' = bal e \<and> te_utxo_set e' = te_utxo_set e \<and>
    te_transactions e' = te_transactions e @ [tx\<lparr>tx_status := Failed\<rparr>] \<and>
    te_executed e' = te_executed e @ [r] \<and>
    Suc (length (te_mempool e')) = length (te_mempool e)"
proof -
  let ?e0 = "e\<lparr>te_mempool := remove1_by (\<lambda>t. tx_hash t = h) (te_mempool e)\<rparr>"
  have bal0: "bal ?e0 = bal e" by (simp add: bal_def fun_eq_iff)
  have ok0: "accounts_ok ?e0" using assms(2) by (simp add: accounts_ok_def)
  obtain a e1 where g: "get_or_create_account now ?e0 (tx_sender tx) = (a, e1)" by force
  note acc = get_or_create_account [OF g ok0]
  have "ac_balance a < sat_add out (tx_fee tx)"
    using acc(2) assms(4) by (simp add: bal0 word_less_nat_alt)
  then obtain err where "execute_tx_internal b ser now ?e0 tx = Some (Inl err, e1)"
    using assms(3) by (simp add: execute_tx_internal_def g subtract_balance_def)
  moreover have "Suc (length (te_mempool e1)) = length (te_mempool e)"
    using acc(5) assms(1) remove1_by_length [of "\<lambda>t. tx_hash t = h" "te_mempool e"]
    by (simp add: rest_of_def)
  ultimately show ?thesis
    using acc(4,5) by (simp add: execute_transaction_def assms(1) bal0 rest_of_def bal_def fun_eq_iff)
qed

theorem failed_execution_witness:
  "\<exists>r e'. execute_transaction Debug (\<lambda>_. []) 7 (new_engine\<lparr>te_mempool := [sample_tx]\<rparr>) ''h'' = Some (Inr r, e') \<and>
    er_tx_hash r = tx_hash sample_tx \<and> er_status r = Failed \<and> er_gas_used r = 0 \<and> er_error r \<noteq> None \<and>
    bal e' = bal (new_engine\<lparr>te_mempool := [sample_tx]\<rparr>) \<and>
    te_utxo_set e' = te_utxo_set (new_engine\<lparr>te_mempool := [sample_tx]\<rparr>) \<and>
    te_transactions e' = te_transactions (new_engine\<lparr>te_mempool := [sample_tx]\<rparr>) @ [sample_tx\<lparr>tx_status := Failed\<rparr>] \<and>
    te_executed e' = te_executed (new_engine\<lparr>te_mempool := [sample_tx]\<rparr>) @ [r] \<and>
    Suc (length (te_mempool e')) = length (te_mempool (new_engine\<lparr>te_mempool := [sample_tx]\<rparr>))"
  by (rule failed_execution [where out = 50])
     (simp_all add: sample_tx_def new_engine_def accounts_ok_def total_output_def sum_w_def add_w_def
       bal_def sat_add_def)

section \<open>The engine as a transition system\<close>

inductive engine_step ::
    "build \<Rightarrow> (string \<Rightarrow> bool) \<Rightarrow> u64 \<Rightarrow> (transaction \<Rightarrow> bytes) \<Rightarrow> engine \<Rightarrow> engine \<Rightarrow> bool"
  for b hex_ok mist ser where
  submit: "submit_transaction b hex_ok mist now e tx = Some (r, e') \<Longrightarrow> engine_step b hex_ok mist ser e e'"
| execute: "execute_transaction b ser now e h = Some (r', e') \<Longrightarrow> engine_step b hex_ok mist ser e e'"
| read_account: "get_or_create_account now e a = (acc, e') \<Longrightarrow> engine_step b hex_ok mist ser e e'"
| add_output: "engine_add_utxo hex_ok e u = (ru, e') \<Longrightarrow> engine_step b hex_ok mist ser e e'"
| spend_output: "engine_spend_utxo e h i = (ru, e') \<Longrightarrow> engine_step b hex_ok mist ser e e'"

text \<open>What holds while no sum overflows: accounts start empty, and transfers only move money.\<close>

definition penniless :: "engine \<Rightarrow> bool" where
  "penniless e \<longleftrightarrow> accounts_ok e \<and> (\<forall>a. bal e a = 0) \<and> te_mempool e = []"

lemma sum_from_w_Debug:
  "sum_from_w Debug acc xs = Some s \<Longrightarrow> unat s = unat acc + sum_list (map unat xs)"
  by (induction xs arbitrary: acc) (auto simp: bind_eq_Some_conv dest!: add_w_Debug_Some)

lemma validate_tx_outputs:
  assumes "validate_tx Debug hex_ok mist tx = Some (Inr ())" and "total_output Debug tx = Some out"
  shows "0 < unat out"
proof -
  have "tx_outputs tx \<noteq> []" "\<not> list_ex (\<lambda>out. to_amount out = 0) (tx_outputs tx)"
    using assms(1) by (auto simp: validate_tx_def split: if_splits)
  then obtain t ts where "tx_outputs tx = t # ts" "to_amount t \<noteq> 0"
    by (cases "tx_outputs tx") auto
  then show ?thesis
    using sum_from_w_Debug [of 0 "map to_amount (tx_outputs tx)" out] assms(2)
    by (simp add: total_output_def sum_w_def unat_eq_0 del: sum_from_w.simps)
       (metis gr0I unat_eq_zero add_gr_0)
qed

lemma submit_returns:
  "validate_tx b hex_ok mist tx = Some v \<Longrightarrow> total_output b tx = Some out \<Longrightarrow>
   \<exists>r e'. submit_transaction b hex_ok mist now e tx = Some (r, e')"
  by (cases v) (auto simp: submit_transaction_def Let_def split: prod.splits)

lemma penniless_submit:
  assumes "penniless e" and "submit_transaction Debug hex_ok mist now e tx = Some (r, e')"
  shows "(\<exists>err. r = Inl err) \<and> penniless e'"
proof -
  obtain v where v: "validate_tx Debug hex_ok mist tx = Some v"
    using assms(2) by (auto simp: submit_transaction_def bind_eq_Some_conv)
  show ?thesis
  proof (cases v)
    case (Inl err)
    with assms v show ?thesis by (auto simp: submit_transaction_def)
  next
    case (Inr u)
    obtain a e1 where g: "get_or_create_account now e (tx_sender tx) = (a, e1)" by force
    note acc = get_or_create_account [OF g]
    obtain out where out: "total_output Debug tx = Some out"
      using assms(2) v Inr by (auto simp: submit_transaction_def g bind_eq_Some_conv)
    have "0 < unat out" using v Inr out by (intro validate_tx_outputs) auto
    then have "0 < unat (sat_add out (tx_fee tx))" by (simp add: unat_sat_add)
    moreover have "unat (ac_balance a) = 0" using acc(2) assms(1) by (simp add: penniless_def)
    ultimately have "ac_balance a < sat_add out (tx_fee tx)" by (simp add: word_less_nat_alt)
    then have "(\<exists>err. r = Inl err) \<and> e' = e1"
      using assms(2) v Inr out by (auto simp: submit_transaction_def g)
    with acc assms(1) show ?thesis by (auto simp: penniless_def rest_of_def)
  qed
qed

lemma penniless_step:
  assumes "penniless e" and "engine_step Debug hex_ok mist ser e e'"
  shows "penniless e'"
  using assms(2)
proof (cases rule: engine_step.cases)
  case (submit now tx r)
  with assms(1) penniless_submit show ?thesis by blast
next
  case (execute now h r)
  with assms(1) show ?thesis by (simp add: execute_transaction_def penniless_def)
next
  case (read_account now a acc)
  with assms(1) get_or_create_account [OF read_account] show ?thesis
    by (auto simp: penniless_def rest_of_def)
next
  case (add_output u ru)
  with assms(1) show ?thesis
    by (auto simp: engine_add_utxo_def penniless_def accounts_ok_def bal_def split: prod.splits)
next
  case (spend_output h i ru)
  with assms(1) show ?thesis
    by (auto simp: engine_spend_utxo_def penniless_def accounts_ok_def bal_def split: prod.splits)
qed

text \<open>In a debug build, where a sum that overflows panics, no money ever exists: the engine has
  no operation that issues any, so in every reachable state all balances are zero, the mempool is
  empty, and every submitted transaction is refused.\<close>

theorem debug_engine_inert:
  assumes "(engine_step Debug hex_ok mist ser)\<^sup>*\<^sup>* new_engine e"
  shows "(\<forall>a. bal e a = 0) \<and> te_mempool e = [] \<and>
    (\<forall>now tx r e'. submit_transaction Debug hex_ok mist now e tx = Some (r, e') \<longrightarrow> (\<exists>err. r = Inl err))"
proof -
  have "penniless e" using assms
  proof (induction rule: rtranclp_induct)
    case base
    show ?case by (simp add: penniless_def new_engine_def accounts_ok_def bal_def)
  next
    case (step e e')
    then show ?case using penniless_step by blast
  qed
  note inert = this
  have "\<exists>err. r = Inl err" if "submit_transaction Debug hex_ok mist now e tx = Some (r, e')" for now tx r e'
    using penniless_submit [OF inert that] by (rule conjunct1)
  moreover have "(\<forall>a. bal e a = 0) \<and> te_mempool e = []" using inert by (simp add: penniless_def)
  ultimately show ?thesis by blast
qed

theorem debug_engine_inert_witness:
  "\<exists>e. te_accounts e \<noteq> [] \<and> (\<forall>a. bal e a = 0) \<and> te_mempool e = [] \<and>
    (\<exists>err e'. submit_transaction Debug (\<lambda>_. True) 100000000 9 e sample_tx = Some (Inl err, e'))"
proof -
  let ?e = "snd (get_or_create_account 5 new_engine ''alice'')"
  have "engine_step Debug (\<lambda>_. True) 100000000 (\<lambda>_. []) new_engine ?e"
    by (rule engine_step.read_account [OF prod.collapse [symmetric]])
  then have "(engine_step Debug (\<lambda>_. True) 100000000 (\<lambda>_. []))\<^sup>*\<^sup>* new_engine ?e"
    by (rule r_into_rtranclp)
  note inert = debug_engine_inert [OF this]
  have out: "total_output Debug sample_tx = Some 50"
    by (simp add: sample_tx_def total_output_def sum_w_def add_w_def)
  have "validate_tx Debug (\<lambda>_. True) 100000000 sample_tx \<noteq> None"
    by (simp add: validate_tx_def out Let_def)
  then obtain v where "validate_tx Debug (\<lambda>_. True) 100000000 sample_tx = Some v" by blast
  then obtain r e' where "submit_transaction Debug (\<lambda>_. True) 100000000 9 ?e sample_tx = Some (r, e')"
    using submit_returns [OF _ out] by blast
  moreover have "te_accounts ?e \<noteq> []"
    by (simp add: get_or_create_account_def new_engine_def Let_def)
  ultimately show ?thesis using inert by blast
qed

section \<open>Money from an overflow\<close>

lemma count_bytes_Release: "\<exists>z n. count_bytes Release zero_bytes nonzero_bytes xs = Some (z, n)"
  by (induction xs arbitrary: zero_bytes nonzero_bytes) auto

lemma gas_of_Release: "\<exists>gas. gas_of Release bs tx = Some gas"
  using count_bytes_Release [of 0 0 bs] by (auto simp: gas_of_def)

definition minting_tx :: transaction where
  "minting_tx = \<lparr>tx_hash = ''m'', tx_sender = ''mallory'',
     tx_inputs = [\<lparr>ti_prev_tx_hash = '''', ti_output_index = 0, ti_signature = ''''\<rparr>],
     tx_outputs = [\<lparr>to_recipient = ''bob'', to_amount = 2 ^ 127\<rparr>, \<lparr>to_recipient = ''carol'', to_amount = 2 ^ 127\<rparr>],
     tx_fee = 0, tx_timestamp = 0, tx_status = Pending\<rparr>"

lemma minting_total: "total_output Release minting_tx = Some 0"
  by (simp add: total_output_def minting_tx_def sum_w_def)

text \<open>In a release build the sum of the outputs wraps: a transaction of an account without money,
  with one malformed input and two outputs of \<open>2^127\<close>, is accepted and confirmed, and its
  recipients then hold \<open>2^127\<close> each.\<close>

theorem overflow_mints_money:
  "\<exists>e1 e2 r. submit_transaction Release hex_ok mist now new_engine minting_tx = Some (Inr ''m'', e1) \<and>
     execute_transaction Release ser now e1 ''m'' = Some (Inr r, e2) \<and> er_status r = Confirmed \<and>
     bal e2 ''bob'' = 2 ^ 127 \<and> bal e2 ''carol'' = 2 ^ 127"
proof -
  obtain a e1 where g: "get_or_create_account now new_engine ''mallory'' = (a, e1)" by force
  have "accounts_ok new_engine" by (simp add: accounts_ok_def new_engine_def)
  note acc = get_or_create_account [OF g this]
  have new: "bal new_engine x = 0" for x by (simp add: bal_def new_engine_def)
  have "validate_tx Release hex_ok mist minting_tx = Some (Inr ())"
    using minting_total by (simp add: validate_tx_def Let_def) (simp add: minting_tx_def)
  then have 1: "submit_transaction Release hex_ok mist now new_engine minting_tx =
      Some (Inr ''m'', e1\<lparr>te_mempool := [minting_tx]\<rparr>)"
    using minting_total g acc(5)
    by (simp add: submit_transaction_def minting_tx_def sat_add_def rest_of_def new_engine_def)
  have ok: "accounts_ok e1" and bal: "bal e1 x = 0" for x using acc(3,4) new by simp_all
  obtain gas where gas: "gas_of Release (ser minting_tx) minting_tx = Some gas"
    using gas_of_Release by blast
  let ?e = "e1\<lparr>te_mempool := []\<rparr>"
  have ok': "accounts_ok ?e" and bal': "bal ?e x = 0" for x
    using ok bal [of x] by (simp_all add: accounts_ok_def bal_def)
  obtain e2 where e2: "execute_tx_internal Release ser now ?e minting_tx = Some (Inr gas, e2)"
    using execute_succeeds [where ser = ser and now = now and e = ?e, OF ok' minting_total _ gas]
    by (auto simp: bal' minting_tx_def sat_add_def)
  have "bal e2 x = (if x = ''mallory'' then 0 else min (paid_to (tx_outputs minting_tx) x) (2 ^ 128 - 1))" for x
    using execute_tx_internal(3) [OF e2 ok'] minting_total
    by (auto simp: bal' minting_tx_def)
  then have "bal e2 ''bob'' = 2 ^ 127 \<and> bal e2 ''carol'' = 2 ^ 127"
    by (simp add: minting_tx_def paid_to_def)
  with 1 e2 show ?thesis
    by (simp add: execute_transaction_def bal_def) (simp add: minting_tx_def)
qed

section \<open>The engine and its set of outputs\<close>

abbreviation with_utxos :: "utxo_set \<Rightarrow> 'r \<times> engine \<Rightarrow> 'r \<times> engine" where
  "with_utxos us \<equiv> map_prod id (te_utxo_set_update (\<lambda>_. us))"

lemma get_or_create_account_utxos:
  "get_or_create_account now (e\<lparr>te_utxo_set := us\<rparr>) a = with_utxos us (get_or_create_account now e a)"
  by (simp add: get_or_create_account_def Let_def split: option.splits)

lemma credit_outputs_utxos:
  "credit_outputs now (e\<lparr>te_utxo_set := us\<rparr>) outs = (credit_outputs now e outs)\<lparr>te_utxo_set := us\<rparr>"
proof (induction outs arbitrary: e)
  case (Cons out outs)
  obtain a e1 where g: "get_or_create_account now e (to_recipient out) = (a, e1)" by force
  have "e1\<lparr>te_utxo_set := us, te_accounts := m\<rparr> = e1\<lparr>te_accounts := m, te_utxo_set := us\<rparr>" for m by simp
  then have "credit_outputs now (e1\<lparr>te_utxo_set := us, te_accounts := m\<rparr>) outs =
      (credit_outputs now (e1\<lparr>te_accounts := m\<rparr>) outs)\<lparr>te_utxo_set := us\<rparr>" for m
    by (simp only: Cons.IH)
  then show ?case by (simp add: get_or_create_account_utxos g Let_def)
qed simp

lemma execute_tx_internal_utxos:
  "execute_tx_internal b ser now (e\<lparr>te_utxo_set := us\<rparr>) tx =
   map_option (with_utxos us) (execute_tx_internal b ser now e tx)"
proof -
  obtain a e1 where g: "get_or_create_account now e (tx_sender tx) = (a, e1)" by force
  show ?thesis
    by (cases "total_output b tx"; cases "gas_of b (ser tx) tx")
       (auto simp: execute_tx_internal_def get_or_create_account_utxos g credit_outputs_utxos Let_def
         split: sum.splits)
qed

text \<open>Submitting and executing transactions neither reads nor changes the set of outputs: with any
  other set in its place they return the same results and leave that set as it is. Spent and
  inexistent outputs are accepted as inputs, and execution marks none as spent.\<close>

theorem engine_ignores_utxos:
  "submit_transaction b hex_ok mist now (e\<lparr>te_utxo_set := us\<rparr>) tx =
     map_option (with_utxos us) (submit_transaction b hex_ok mist now e tx) \<and>
   execute_transaction b ser now (e\<lparr>te_utxo_set := us\<rparr>) h =
     map_option (with_utxos us) (execute_transaction b ser now e h)"
proof
  obtain a e1 where g: "get_or_create_account now e (tx_sender tx) = (a, e1)" by force
  show "submit_transaction b hex_ok mist now (e\<lparr>te_utxo_set := us\<rparr>) tx =
     map_option (with_utxos us) (submit_transaction b hex_ok mist now e tx)"
    by (cases "validate_tx b hex_ok mist tx"; cases "total_output b tx")
       (auto simp: submit_transaction_def get_or_create_account_utxos g Let_def split: sum.splits)
  have comm: "e\<lparr>te_utxo_set := us, te_mempool := m\<rparr> = e\<lparr>te_mempool := m, te_utxo_set := us\<rparr>" for m
    by simp
  show "execute_transaction b ser now (e\<lparr>te_utxo_set := us\<rparr>) h =
     map_option (with_utxos us) (execute_transaction b ser now e h)"
  proof (cases "find (\<lambda>t. tx_hash t = h) (te_mempool e)")
    case (Some t)
    show ?thesis
      by (cases "execute_tx_internal b ser now (e\<lparr>te_mempool := remove1_by (\<lambda>t. tx_hash t = h) (te_mempool e)\<rparr>) t")
         (auto simp: execute_transaction_def Some comm execute_tx_internal_utxos split: sum.splits)
  qed (simp add: execute_transaction_def)
qed

end
