(* ===== verification/Block_Builder.thy ===== *)
theory Block_Builder
  imports Encoding Pow_Config Work
begin

text \<open>
  The block builder (\<open>src/block_builder.rs\<close>): the 80-byte header, the coinbase transaction, the
  block with its encodings, and the builder. An array \<open>[u8; 32]\<close> is a byte list of that length
  (\<open>header_wf\<close>). SHA-512, \<open>hex::encode\<close>, \<open>hex::decode\<close> (with the text of its error) and
  \<open>silver_core::MIST_PER_SLVR\<close> are arguments. The clock is \<open>Inl\<close> of its error text when it stands
  before the epoch. \<open>None\<close> is a panic.
\<close>

section \<open>Headers\<close>

record bb_header =
  bb_version :: u32
  bb_prev_block_hash :: bytes
  bb_merkle_root :: bytes
  bb_timestamp :: u32
  bb_bits :: u32
  bb_nonce :: u32

definition header_wf :: "bb_header \<Rightarrow> bool" where
  "header_wf h \<longleftrightarrow> length (bb_prev_block_hash h) = 32 \<and> length (bb_merkle_root h) = 32"

definition new_bb_header :: "u32 \<Rightarrow> bytes \<Rightarrow> bytes \<Rightarrow> u32 \<Rightarrow> u32 \<Rightarrow> u32 \<Rightarrow> bb_header" where
  "new_bb_header version prev_block_hash merkle_root timestamp bits nonce =
     \<lparr>bb_version = version, bb_prev_block_hash = prev_block_hash, bb_merkle_root = merkle_root,
      bb_timestamp = timestamp, bb_bits = bits, bb_nonce = nonce\<rparr>"

definition header_to_bytes :: "bb_header \<Rightarrow> bytes" where
  "header_to_bytes h =
     to_le_bytes (bb_version h) @ bb_prev_block_hash h @ bb_merkle_root h @
     to_le_bytes (bb_timestamp h) @ to_le_bytes (bb_bits h) @ to_le_bytes (bb_nonce h)"

definition header_fields :: "bytes \<Rightarrow> bb_header" where
  "header_fields bs =
     \<lparr>bb_version = from_le_bytes (slice 0 4 bs), bb_prev_block_hash = slice 4 36 bs,
      bb_merkle_root = slice 36 68 bs, bb_timestamp = from_le_bytes (slice 68 72 bs),
      bb_bits = from_le_bytes (slice 72 76 bs), bb_nonce = from_le_bytes (slice 76 80 bs)\<rparr>"

definition header_from_bytes :: "bytes \<Rightarrow> string + bb_header" where
  "header_from_bytes bs =
     (if length bs \<noteq> 80 then Inl (''Invalid header size: expected 80, got '' @ fmt_nat (length bs))
      else Inr (header_fields bs))"

definition bb_hash :: "(bytes \<Rightarrow> bytes) \<Rightarrow> bb_header \<Rightarrow> bytes" where
  "bb_hash sha h = sha (sha (header_to_bytes h))"

definition bb_hash_hex :: "(bytes \<Rightarrow> bytes) \<Rightarrow> (bytes \<Rightarrow> string) \<Rightarrow> bb_header \<Rightarrow> string" where
  "bb_hash_hex sha hex_encode h = hex_encode (bb_hash sha h)"

section \<open>Coinbase transactions and blocks\<close>

record coinbase_transaction =
  cb_block_height :: u64
  cb_miner_address :: string
  cb_reward_amount :: u128
  cb_transaction_fees :: u128

definition new_coinbase :: "u64 \<Rightarrow> string \<Rightarrow> u128 \<Rightarrow> u128 \<Rightarrow> coinbase_transaction" where
  "new_coinbase block_height miner_address reward_amount transaction_fees =
     \<lparr>cb_block_height = block_height, cb_miner_address = miner_address,
      cb_reward_amount = reward_amount, cb_transaction_fees = transaction_fees\<rparr>"

definition coinbase_to_bytes :: "coinbase_transaction \<Rightarrow> bytes" where
  "coinbase_to_bytes c =
     to_le_bytes (cb_block_height c) @ as_bytes (cb_miner_address c) @ [0] @
     to_le_bytes (cb_reward_amount c) @ to_le_bytes (cb_transaction_fees c)"

definition coinbase_hash :: "(bytes \<Rightarrow> bytes) \<Rightarrow> coinbase_transaction \<Rightarrow> bytes" where
  "coinbase_hash sha c = sha (sha (coinbase_to_bytes c))"

record block =
  bl_header :: bb_header
  bl_coinbase :: coinbase_transaction
  bl_height :: u64
  bl_timestamp :: u64

definition new_block :: "bb_header \<Rightarrow> coinbase_transaction \<Rightarrow> u64 \<Rightarrow> u64 \<Rightarrow> block" where
  "new_block header coinbase height timestamp =
     \<lparr>bl_header = header, bl_coinbase = coinbase, bl_height = height, bl_timestamp = timestamp\<rparr>"

definition block_to_bytes :: "block \<Rightarrow> bytes" where
  "block_to_bytes bl =
     header_to_bytes (bl_header bl) @ coinbase_to_bytes (bl_coinbase bl) @
     to_le_bytes (bl_height bl) @ to_le_bytes (bl_timestamp bl)"

definition block_to_hex :: "(bytes \<Rightarrow> string) \<Rightarrow> block \<Rightarrow> string" where
  "block_to_hex hex_encode bl = hex_encode (block_to_bytes bl)"

text \<open>The fees are read from eight bytes when there are more than 116 bytes in all: with fewer than
  124 the indexing panics.\<close>

definition block_from_hex ::
    "u64 \<Rightarrow> (bytes \<Rightarrow> string) \<Rightarrow> (string \<Rightarrow> string + bytes) \<Rightarrow> string \<Rightarrow> (string + block) option" where
  "block_from_hex mist hex_encode hex_decode hex_str =
     (case hex_decode hex_str of
        Inl e \<Rightarrow> Some (Inl (''Invalid hex: '' @ e))
      | Inr bytes \<Rightarrow>
          if length bytes < 80 + 8 + 8
          then Some (Inl (''Block too short: '' @ fmt_nat (length bytes) @ '' bytes''))
          else (case header_from_bytes (slice 0 80 bytes) of
                  Inl e \<Rightarrow> Some (Inl e)
                | Inr header \<Rightarrow> do {
                    let height = from_le_bytes (slice 80 88 bytes);
                    let timestamp = from_le_bytes (slice 88 96 bytes);
                    let miner_address = (if length bytes > 96
                                         then hex_encode (slice 96 (min 116 (length bytes)) bytes)
                                         else '''');
                    let block_reward = 50 * ucast mist;
                    fees \<leftarrow> (if length bytes > 116
                            then if length bytes < 124 then None
                                 else Some (ucast (from_le_bytes (slice 116 124 bytes) :: u64))
                            else Some 0);
                    Some (Inr (new_block header (new_coinbase height miner_address block_reward fees)
                                 height timestamp))
                  }))"

definition block_hash :: "(bytes \<Rightarrow> bytes) \<Rightarrow> block \<Rightarrow> bytes" where
  "block_hash sha bl = bb_hash sha (bl_header bl)"

definition block_hash_hex :: "(bytes \<Rightarrow> bytes) \<Rightarrow> (bytes \<Rightarrow> string) \<Rightarrow> block \<Rightarrow> string" where
  "block_hash_hex sha hex_encode bl = bb_hash_hex sha hex_encode (bl_header bl)"

record block_builder =
  bu_version :: u32
  bu_prev_block_hash :: bytes
  bu_merkle_root :: bytes
  bu_bits :: u32

definition new_block_builder :: "u32 \<Rightarrow> bytes \<Rightarrow> bytes \<Rightarrow> u32 \<Rightarrow> block_builder" where
  "new_block_builder version prev_block_hash merkle_root bits =
     \<lparr>bu_version = version, bu_prev_block_hash = prev_block_hash, bu_merkle_root = merkle_root,
      bu_bits = bits\<rparr>"

definition build_block ::
    "string + u64 \<Rightarrow> block_builder \<Rightarrow> u32 \<Rightarrow> u64 \<Rightarrow> string \<Rightarrow> u128 \<Rightarrow> u128 \<Rightarrow> string + block" where
  "build_block clock bu nonce block_height miner_address reward_amount transaction_fees =
     (case clock of
        Inl e \<Rightarrow> Inl (''Time error: '' @ e)
      | Inr now \<Rightarrow>
          let timestamp = ucast now;
              header = new_bb_header (bu_version bu) (bu_prev_block_hash bu) (bu_merkle_root bu)
                         timestamp (bu_bits bu) nonce;
              coinbase = new_coinbase block_height miner_address reward_amount transaction_fees
          in Inr (new_block header coinbase block_height now))"

section \<open>The header encoding\<close>

lemma length_header_to_bytes: "header_wf h \<Longrightarrow> length (header_to_bytes h) = 80"
  by (simp add: header_to_bytes_def header_wf_def)

lemma header_fields_append: "header_wf h \<Longrightarrow> header_fields (header_to_bytes h @ bs) = h"
  by (simp add: header_fields_def header_to_bytes_def header_wf_def slice_def from_to_le_bytes)

lemma slice_join: "i \<le> j \<Longrightarrow> j \<le> k \<Longrightarrow> slice i j bs @ slice j k bs = slice i k bs"
  using take_add [of "j - i" "k - j" "drop i bs"] by (simp add: slice_def)

lemma header_to_fields:
  assumes "length bs = 80"
  shows "header_to_bytes (header_fields bs) = bs"
proof -
  have le: "to_le_bytes (from_le_bytes (slice i (i + 4) bs) :: u32) = slice i (i + 4) bs"
    if "i + 4 \<le> 80" for i
    using that assms by (simp add: to_from_le_bytes length_slice)
  have "header_to_bytes (header_fields bs) =
      slice 0 4 bs @ slice 4 36 bs @ slice 36 68 bs @ slice 68 72 bs @ slice 72 76 bs @ slice 76 80 bs"
    using le [of 0] le [of 68] le [of 72] le [of 76]
    by (simp add: header_to_bytes_def header_fields_def)
  also have "\<dots> = slice 0 80 bs" by (simp add: slice_join)
  also have "\<dots> = bs" using assms by (simp add: slice_def)
  finally show ?thesis .
qed

interpretation header_enc: fixed_encoding header_to_bytes header_fields 80 header_wf
proof
  show "header_wf x \<Longrightarrow> header_fields (header_to_bytes x) = x" for x
    using header_fields_append [of x "[]"] by simp
  show "length bs = 80 \<Longrightarrow> header_wf (header_fields bs)" for bs
    by (simp add: header_wf_def header_fields_def length_slice)
qed (simp_all add: length_header_to_bytes header_to_fields)

text \<open>C29: Headers survive their 80-byte encoding: parsing the bytes of a header with two 32-byte
  hashes gives the header back, and a byte list that parses is the encoding of what it parses to,
  so a header has one encoding and no two headers share one.\<close>

theorem header_roundtrip:
  assumes "header_wf h"
  shows "length (header_to_bytes h) = 80 \<and> header_from_bytes (header_to_bytes h) = Inr h \<and>
    (\<forall>bs. header_from_bytes bs = Inr h \<longleftrightarrow> bs = header_to_bytes h)"
  using header_enc.length_enc [OF assms] header_enc.dec_enc [OF assms] header_enc.enc_dec
  by (auto simp: header_from_bytes_def split: if_splits)

definition sample_bb_header :: bb_header where
  "sample_bb_header = new_bb_header 1 (replicate 32 0) (replicate 32 7) 1700000000 0x1d00ffff 42"

lemma sample_bb_header_wf: "header_wf sample_bb_header"
  by (simp add: sample_bb_header_def new_bb_header_def header_wf_def)

theorem header_roundtrip_witness:
  "header_from_bytes (header_to_bytes sample_bb_header) = Inr sample_bb_header"
  using header_roundtrip [OF sample_bb_header_wf] by blast

section \<open>Parsing blocks\<close>

text \<open>What follows the height of the coinbase in the bytes of a block.\<close>

definition block_tail :: "block \<Rightarrow> bytes" where
  "block_tail bl =
     as_bytes (cb_miner_address (bl_coinbase bl)) @ [0] @
     to_le_bytes (cb_reward_amount (bl_coinbase bl)) @
     to_le_bytes (cb_transaction_fees (bl_coinbase bl)) @
     to_le_bytes (bl_height bl) @ to_le_bytes (bl_timestamp bl)"

lemma block_to_bytes_tail:
  "block_to_bytes bl =
   header_to_bytes (bl_header bl) @ to_le_bytes (cb_block_height (bl_coinbase bl)) @ block_tail bl"
  by (simp add: block_to_bytes_def coinbase_to_bytes_def block_tail_def)

lemma length_block_tail: "length (block_tail bl) = length (cb_miner_address (bl_coinbase bl)) + 49"
  by (simp add: block_tail_def)

lemma slice_append: "from \<ge> length xs \<Longrightarrow> slice from to (xs @ ys) = slice (from - length xs) (to - length xs) ys"
  by (simp add: slice_def)

lemma slice_within: "to \<le> length xs \<Longrightarrow> slice from to (xs @ ys) = slice from to xs"
  by (cases "from \<le> length xs") (auto simp: slice_def)

lemma slice_all: "slice 0 (length xs) xs = xs"
  by (simp add: slice_def)

text \<open>\<open>Block::from_hex\<close> does not invert \<open>Block::to_hex\<close>. Of a block's own encoding it recovers the
  header and the coinbase height. The timestamp it reads is the first eight bytes of what follows,
  so of the miner address; the address it reads is the hexadecimal text of the twenty bytes after
  those, the fees are eight bytes further on, and the reward is always 50 SLVR.\<close>

theorem block_hex_misread:
  assumes "header_wf (bl_header bl)" and "hex_decode (hex_encode (block_to_bytes bl)) = Inr (block_to_bytes bl)"
  shows "block_from_hex mist hex_encode hex_decode (block_to_hex hex_encode bl) =
    Some (Inr (new_block (bl_header bl)
      (new_coinbase (cb_block_height (bl_coinbase bl)) (hex_encode (take 20 (drop 8 (block_tail bl))))
        (50 * ucast mist) (ucast (from_le_bytes (take 8 (drop 28 (block_tail bl))) :: u64)))
      (cb_block_height (bl_coinbase bl)) (from_le_bytes (take 8 (block_tail bl)))))"
proof -
  let ?h = "header_to_bytes (bl_header bl)" and ?bs = "block_to_bytes bl"
  have h: "length ?h = 80" using assms(1) by (rule length_header_to_bytes)
  have len: "137 \<le> length ?bs" by (simp add: block_to_bytes_tail h length_block_tail)
  have "slice 0 80 ?bs = ?h"
    using h slice_all [of ?h] by (simp add: block_to_bytes_tail slice_within)
  then have 1: "header_from_bytes (slice 0 80 ?bs) = Inr (bl_header bl)"
    using header_enc.dec_enc [OF assms(1)] by (simp add: header_from_bytes_def h)
  have 2: "from_le_bytes (slice 80 88 ?bs) = cb_block_height (bl_coinbase bl)"
    by (simp add: block_to_bytes_tail slice_append h slice_within from_to_le_bytes slice_def)
  have tail: "slice (88 + i) (88 + j) ?bs = take (j - i) (drop i (block_tail bl))" for i j
    by (simp add: block_to_bytes_tail slice_def h)
  from tail [of 0 8] tail [of 8 28] tail [of 28 36]
  have 3: "slice 88 96 ?bs = take 8 (block_tail bl)"
    "slice 96 116 ?bs = take 20 (drop 8 (block_tail bl))"
    "slice 116 124 ?bs = take 8 (drop 28 (block_tail bl))" by simp_all
  have "min 116 (length ?bs) = 116" using len by simp
  with len show ?thesis
    by (simp add: block_from_hex_def block_to_hex_def assms(2) 1 2 3 Let_def)
qed

definition sample_block :: block where
  "sample_block = new_block sample_bb_header (new_coinbase 9 ''miner-address-of-28-chars-xx'' 7 1) 9 1700000000"

theorem block_hex_misread_witness:
  "\<exists>bl. block_from_hex 100000000 hex_of hex_read (block_to_hex hex_of sample_block) = Some (Inr bl) \<and>
    bl_header bl = bl_header sample_block \<and> bl_height bl = 9 \<and>
    bl_timestamp bl = from_le_bytes (as_bytes ''miner-ad'') \<and>
    cb_reward_amount (bl_coinbase bl) = 5000000000"
proof -
  have "header_wf (bl_header sample_block)"
    by (simp add: sample_block_def new_block_def sample_bb_header_wf)
  note parsed = block_hex_misread [where mist = 100000000 and hex_decode = hex_read and hex_encode = hex_of, OF this hex_read_of]
  show ?thesis
    by (rule exI, rule conjI, rule parsed)
       (simp add: sample_block_def new_block_def new_coinbase_def block_tail_def as_bytes_def)
qed

text \<open>Parsing the hexadecimal text of a byte list panics exactly when it has 117 to 123 bytes, where
  the eight bytes of the fees run past the end; shorter than 96 bytes it is an error, and every
  other length parses.\<close>

theorem block_from_hex_outcome:
  assumes "hex_decode s = Inr bs"
  shows "(block_from_hex mist hex_encode hex_decode s = None) = (117 \<le> length bs \<and> length bs \<le> 123) \<and>
    (\<exists>e. block_from_hex mist hex_encode hex_decode s = Some (Inl e)) = (length bs < 96) \<and>
    (\<exists>bl. block_from_hex mist hex_encode hex_decode s = Some (Inr bl)) =
      (length bs \<in> {96..116} \<union> {124..})"
proof (cases "length bs < 96")
  case True
  then show ?thesis by (simp add: block_from_hex_def assms)
next
  case False
  then have "header_from_bytes (slice 0 80 bs) = Inr (header_fields (slice 0 80 bs))"
    by (simp add: header_from_bytes_def length_slice)
  with False show ?thesis by (auto simp: block_from_hex_def assms Let_def)
qed

theorem block_from_hex_outcome_witness:
  "block_from_hex 100000000 hex_of hex_read (hex_of (replicate 120 1)) = None"
  using block_from_hex_outcome [where hex_decode = hex_read and s = "hex_of (replicate 120 1)",
      OF hex_read_of, of 100000000 hex_of] by simp

end
