(* ===== verification/Block_Submission.thy ===== *)
theory Block_Submission
  imports Block_Builder
begin

text \<open>
  The submission of built blocks to a node (\<open>src/block_submission.rs\<close>). The node is reached over
  HTTP: what comes back is an argument, a function from the hexadecimal text of the block to an
  \<open>rpc_outcome\<close>, the four cases that \<open>submit_to_node\<close> distinguishes. The clock is an argument
  (\<open>Inl\<close> of its error text when it stands before the epoch): \<open>submit_built_block\<close>, a submission that
  nothing interrupts, takes one reading for all its parts; \<open>Concurrent_Submission\<close> gives each part its
  own. The URL and the client do not matter beyond that.
\<close>

datatype submission_status = Accepted | Rejected | SubmissionFailed

record submission_result =
  sr_block_hash :: string
  sr_block_height :: u64
  sr_miner_address :: string
  sr_status :: submission_status
  sr_error :: "string option"
  sr_timestamp :: u64

record submission_handler =
  bs_prev_block_hash :: bytes
  bs_current_height :: u64

definition new_submission_handler :: submission_handler where
  "new_submission_handler = \<lparr>bs_prev_block_hash = replicate 32 0, bs_current_height = 0\<rparr>"

definition update_prev_block_hash :: "submission_handler \<Rightarrow> bytes \<Rightarrow> u64 \<Rightarrow> submission_handler" where
  "update_prev_block_hash s h height = s\<lparr>bs_prev_block_hash := h, bs_current_height := height\<rparr>"

text \<open>What the request to the node yields: no answer in time, no answer, an answer that is not
  JSON, or JSON whose \<open>error\<close> is or is not null.\<close>

datatype rpc_outcome =
  RpcTimeout | RpcFailed string | RpcUnparsable string | RpcReply bool

definition validate_block ::
    "build \<Rightarrow> string + u64 \<Rightarrow> submission_handler \<Rightarrow> block \<Rightarrow> (string + unit) option" where
  "validate_block b clock s bl =
     (if bb_version (bl_header bl) \<noteq> 1
      then Some (Inl (''Invalid block version: '' @ fmt_w (bb_version (bl_header bl))))
      else case clock of
        Inl e \<Rightarrow> Some (Inl (''Time error: '' @ e))
      | Inr now \<Rightarrow> do {
          limit \<leftarrow> add_w b now 7200;
          if ucast (bb_timestamp (bl_header bl)) > limit
          then Some (Inl ''Block timestamp too far in future'')
          else if cb_miner_address (bl_coinbase bl) = []
          then Some (Inl ''Coinbase missing miner address'')
          else if cb_reward_amount (bl_coinbase bl) = 0 then Some (Inl ''Coinbase reward is zero'')
          else do {
            expected \<leftarrow> add_w b (bs_current_height s) 1;
            Some (if bl_height bl \<noteq> expected
                  then Inl (''Invalid block height: expected '' @ fmt_w expected @ '', got '' @
                            fmt_w (bl_height bl))
                  else Inr ())
          }
        })"

definition submit_to_node :: "(bytes \<Rightarrow> string) \<Rightarrow> (string \<Rightarrow> rpc_outcome) \<Rightarrow> block \<Rightarrow> string + bool" where
  "submit_to_node hex_encode node bl =
     (case node (block_to_hex hex_encode bl) of
        RpcReply error_is_null \<Rightarrow> Inr error_is_null
      | RpcUnparsable e \<Rightarrow> Inl (''Failed to parse node response: '' @ e)
      | RpcFailed e \<Rightarrow> Inl (''RPC request failed: '' @ e)
      | RpcTimeout \<Rightarrow> Inl ''RPC request timeout'')"

definition submit_built_block ::
    "build \<Rightarrow> (bytes \<Rightarrow> bytes) \<Rightarrow> (bytes \<Rightarrow> string) \<Rightarrow> (string \<Rightarrow> rpc_outcome) \<Rightarrow> string + u64 \<Rightarrow>
     submission_handler \<Rightarrow> u32 \<Rightarrow> u64 \<Rightarrow> string \<Rightarrow> u128 \<Rightarrow> u128 \<Rightarrow> u32 \<Rightarrow>
     ((string + submission_result) \<times> submission_handler) option" where
  "submit_built_block b sha hex_encode node clock s nonce block_height miner_address reward_amount
     transaction_fees difficulty_bits =
     (case clock of
        Inl e \<Rightarrow> Some (Inl (''Time error: '' @ e), s)
      | Inr now \<Rightarrow>
          (case build_block clock (new_block_builder 1 (bs_prev_block_hash s) (replicate 32 0) difficulty_bits)
                  nonce block_height miner_address reward_amount transaction_fees of
             Inl e \<Rightarrow> Some (Inl (''Block build failed: '' @ e), s)
           | Inr bl \<Rightarrow> do {
               let result = (\<lambda>status err.
                 \<lparr>sr_block_hash = block_hash_hex sha hex_encode bl, sr_block_height = block_height,
                  sr_miner_address = miner_address, sr_status = status, sr_error = err,
                  sr_timestamp = now\<rparr>);
               v \<leftarrow> validate_block b clock s bl;
               Some (case v of
                   Inl e \<Rightarrow> (Inr (result Rejected (Some e)), s)
                 | Inr _ \<Rightarrow>
                     (case submit_to_node hex_encode node bl of
                        Inr True \<Rightarrow>
                          (Inr (result Accepted None),
                           update_prev_block_hash s (take 32 (block_hash sha bl)) block_height)
                      | Inr False \<Rightarrow> (Inr (result Rejected (Some ''Node rejected block'')), s)
                      | Inl e \<Rightarrow> (Inr (result SubmissionFailed (Some e)), s)))
             }))"

record submission_stats =
  ss_current_height :: u64
  ss_prev_block_hash :: string

definition get_submission_stats :: "(bytes \<Rightarrow> string) \<Rightarrow> submission_handler \<Rightarrow> submission_stats" where
  "get_submission_stats hex_encode s =
     \<lparr>ss_current_height = bs_current_height s, ss_prev_block_hash = hex_encode (bs_prev_block_hash s)\<rparr>"

text \<open>The block that a submission builds.\<close>

definition built :: "submission_handler \<Rightarrow> u64 \<Rightarrow> u32 \<Rightarrow> u64 \<Rightarrow> string \<Rightarrow> u128 \<Rightarrow> u128 \<Rightarrow> u32 \<Rightarrow> block" where
  "built s now nonce height addr reward fees bits =
     new_block (new_bb_header 1 (bs_prev_block_hash s) (replicate 32 0) (ucast now) bits nonce)
       (new_coinbase height addr reward fees) height now"

lemma build_block_built:
  "build_block (Inr now) (new_block_builder 1 (bs_prev_block_hash s) (replicate 32 0) bits)
     nonce height addr reward fees = Inr (built s now nonce height addr reward fees bits)"
  by (simp add: build_block_def new_block_builder_def built_def)

end
