(* ===== verification/Locks.thy ===== *)
theory Locks
  imports Main
begin

text \<open>
  The reader-writer locks that guard the components' state (\<open>tokio::sync::RwLock\<close>). An operation is
  the list of its lock actions in program order: a guard bound by \<open>let\<close> is released at the end of
  its block, a temporary guard at the end of its statement. Tasks run such lists concurrently; a
  lock keeps its holders and a queue of requests and grants the head of the queue when it is
  compatible with the holders, which is the fair policy that tokio documents. The locale
  \<open>ranked_locks\<close> proves, from an order on the locks that every program respects, that tasks always
  finish; it is interpreted on the lock programs of the components that keep such an order.
  Branches and early returns are arguments of the programs of those components. The programs of the
  mining pool, the UTXO set, the transaction engine and the difficulty manager, which keep no order,
  list the path on which no error returns early.
\<close>

datatype mode = Read | Write

datatype 'l action = Acquire 'l mode | Release 'l

text \<open>Guards taken one after another and dropped together, in reverse order.\<close>

definition nested :: "('l \<times> mode) list \<Rightarrow> 'l action list" where
  "nested ls = map (\<lambda>(l, m). Acquire l m) ls @ map (\<lambda>(l, m). Release l) (rev ls)"

record 'l lock_state =
  programs :: "'l action list list"
  holders :: "'l \<Rightarrow> (nat \<times> mode) list"
  waiting :: "'l \<Rightarrow> (nat \<times> mode) list"

definition start :: "'l action list list \<Rightarrow> 'l lock_state" where
  "start ps = \<lparr>programs = ps, holders = (\<lambda>_. []), waiting = (\<lambda>_. [])\<rparr>"

fun compatible :: "mode \<Rightarrow> (nat \<times> mode) list \<Rightarrow> bool" where
  "compatible Write hs = (hs = [])"
| "compatible Read hs = list_all (\<lambda>(_, m). m = Read) hs"

inductive lock_step :: "'l lock_state \<Rightarrow> 'l lock_state \<Rightarrow> bool" where
  request: "\<lbrakk>i < length (programs s); programs s ! i = Acquire l m # rest; i \<notin> fst ` set (waiting s l)\<rbrakk> \<Longrightarrow>
     lock_step s (s\<lparr>waiting := (waiting s)(l := waiting s l @ [(i, m)])\<rparr>)"
| grant: "\<lbrakk>waiting s l = (i, m) # q; i < length (programs s); programs s ! i = Acquire l m # rest;
     compatible m (holders s l)\<rbrakk> \<Longrightarrow>
     lock_step s (s\<lparr>programs := (programs s)[i := rest], holders := (holders s)(l := (i, m) # holders s l),
                    waiting := (waiting s)(l := q)\<rparr>)"
| release: "\<lbrakk>i < length (programs s); programs s ! i = Release l # rest\<rbrakk> \<Longrightarrow>
     lock_step s (s\<lparr>programs := (programs s)[i := rest],
                    holders := (holders s)(l := filter (\<lambda>(j, _). j \<noteq> i) (holders s l))\<rparr>)"

inductive_simps lock_step_simps: "lock_step s s'"

definition finished :: "'l lock_state \<Rightarrow> bool" where
  "finished s \<longleftrightarrow> list_all (\<lambda>p. p = []) (programs s)"

definition stuck :: "'l lock_state \<Rightarrow> bool" where
  "stuck s \<longleftrightarrow> \<not> (\<exists>s'. lock_step s s')"

text \<open>A deadlock: reachable, nothing can happen, and some task has not finished.\<close>

definition can_deadlock :: "'l action list list \<Rightarrow> bool" where
  "can_deadlock ps \<longleftrightarrow> (\<exists>s. lock_step\<^sup>*\<^sup>* (start ps) s \<and> stuck s \<and> \<not> finished s)"

section \<open>Every run is finite\<close>

definition work_left :: "'l lock_state \<Rightarrow> nat" where
  "work_left s = sum_list (map length (programs s))"

definition unqueued :: "'l lock_state \<Rightarrow> nat set" where
  "unqueued s = {i. i < length (programs s) \<and>
     (\<exists>l m rest. programs s ! i = Acquire l m # rest \<and> i \<notin> fst ` set (waiting s l))}"

lemma finite_unqueued: "finite (unqueued s)"
  by (simp add: unqueued_def)

lemma card_unqueued_le: "card (unqueued s) \<le> length (programs s)"
  using card_mono [of "{..<length (programs s)}" "unqueued s"] by (auto simp: unqueued_def)

lemma work_left_tl:
  "i < length ps \<Longrightarrow> ps ! i = a # rest \<Longrightarrow>
   Suc (sum_list (map length (ps[i := rest]))) = sum_list (map length ps)"
proof (induction ps arbitrary: i)
  case (Cons p ps)
  then show ?case by (cases i) auto
qed simp

lemma length_programs_step: "lock_step s s' \<Longrightarrow> length (programs s') = length (programs s)"
  by (auto elim: lock_step.cases)

text \<open>Requests are bounded between two other steps, so a step decreases the remaining work
  lexicographically.\<close>

lemma lock_step_decreases:
  assumes "lock_step s s'"
  shows "(s', s) \<in> measures [work_left, \<lambda>s. card (unqueued s)]"
  using assms
proof cases
  case (request i l m rest)
  have "unqueued s' \<subseteq> unqueued s" using request by (auto simp: unqueued_def split: if_splits)
  moreover have "i \<in> unqueued s" "i \<notin> unqueued s'" using request by (auto simp: unqueued_def)
  ultimately have "unqueued s' \<subset> unqueued s" by blast
  then have "card (unqueued s') < card (unqueued s)" by (rule psubset_card_mono [OF finite_unqueued])
  with request show ?thesis by (simp add: work_left_def)
next
  case (grant l i m q rest)
  then have "work_left s' < work_left s"
    using work_left_tl [of i "programs s" "Acquire l m" rest] by (simp add: work_left_def)
  then show ?thesis by simp
next
  case (release i l rest)
  then have "work_left s' < work_left s"
    using work_left_tl [of i "programs s" "Release l" rest] by (simp add: work_left_def)
  then show ?thesis by simp
qed

lemma wf_lock_step: "wf {(s', s). lock_step s s'}"
  by (rule wf_subset [OF wf_measures]) (auto dest: lock_step_decreases)

lemma run_ends: "\<exists>s'. lock_step\<^sup>*\<^sup>* s s' \<and> stuck s'"
  using wf_lock_step
proof (induction s rule: wf_induct_rule)
  case (less s)
  show ?case
  proof (cases "stuck s")
    case False
    then obtain t where "lock_step s t" by (auto simp: stuck_def)
    with less.IH [of t] show ?thesis by (auto intro: converse_rtranclp_into_rtranclp)
  qed blast
qed

section \<open>Programs that respect an order\<close>

text \<open>A task that holds \<open>H\<close> acquires only locks above those in \<open>H\<close>, releases what it holds, and ends
  with nothing held.\<close>

fun ordered :: "('l \<Rightarrow> nat) \<Rightarrow> 'l set \<Rightarrow> 'l action list \<Rightarrow> bool" where
  "ordered rank H [] = (H = {})"
| "ordered rank H (Acquire l m # p) = ((\<forall>h \<in> H. rank h < rank l) \<and> ordered rank (insert l H) p)"
| "ordered rank H (Release l # p) = (l \<in> H \<and> ordered rank (H - {l}) p)"

definition held :: "'l lock_state \<Rightarrow> nat \<Rightarrow> 'l set" where
  "held s i = {l. i \<in> fst ` set (holders s l)}"

definition lock_invar :: "('l \<Rightarrow> nat) \<Rightarrow> 'l lock_state \<Rightarrow> bool" where
  "lock_invar rank s \<longleftrightarrow>
     (\<forall>i < length (programs s). ordered rank (held s i) (programs s ! i)) \<and>
     (\<forall>l i m. (i, m) \<in> set (holders s l) \<longrightarrow> i < length (programs s)) \<and>
     (\<forall>l i m. (i, m) \<in> set (waiting s l) \<longrightarrow>
        i < length (programs s) \<and> (\<exists>rest. programs s ! i = Acquire l m # rest)) \<and>
     (\<forall>l. distinct (map fst (waiting s l)))"

lemma lock_invar_start:
  "(\<And>p. p \<in> set ps \<Longrightarrow> ordered rank {} p) \<Longrightarrow> lock_invar rank (start ps)"
  by (simp add: lock_invar_def start_def held_def)

lemma lock_invar_step:
  assumes "lock_step s s'" and "lock_invar rank s"
  shows "lock_invar rank s'"
  using assms(1)
proof cases
  case (request i l m rest)
  have "held s' = held s" using request(1) by (simp add: held_def fun_eq_iff)
  then show ?thesis using assms(2) request
    by (auto simp: lock_invar_def image_iff)
next
  case (grant l i m q rest)
  have h: "held s' j = (if j = i then insert l (held s i) else held s j)" for j
    using grant(1) by (auto simp: held_def)
  have "distinct (map fst (waiting s l))" using assms(2) by (simp add: lock_invar_def)
  then have d: "i \<notin> fst ` set q" and dq: "distinct (map fst q)" using grant(2) by simp_all
  have other: "k \<noteq> i" if "(k, m') \<in> set (waiting s' l')" for k l' m'
  proof (cases "l' = l")
    case True
    with that grant(1) d show ?thesis by force
  next
    case False
    with that grant(1) have "(k, m') \<in> set (waiting s l')" by simp
    then have "\<exists>rest'. programs s ! k = Acquire l' m' # rest'" using assms(2) by (simp add: lock_invar_def)
    with grant(4) False show ?thesis by auto
  qed
  have "ordered rank (held s' j) (programs s' ! j)" if "j < length (programs s)" for j
    using assms(2) that grant(1,3,4) h by (cases "j = i") (auto simp: lock_invar_def)
  moreover have "(\<exists>rest'. programs s' ! k = Acquire l' m' # rest') \<and> k < length (programs s')"
    if "(k, m') \<in> set (waiting s' l')" for k l' m'
  proof -
    have "(k, m') \<in> set (waiting s l')" using that grant(1,2) by (auto split: if_splits)
    with assms(2) other [OF that] grant(1) show ?thesis by (simp add: lock_invar_def)
  qed
  moreover have "distinct (map fst (waiting s' l'))" for l'
    using assms(2) grant(1) dq by (simp add: lock_invar_def)
  moreover have "k < length (programs s')" if "(k, m') \<in> set (holders s' l')" for k l' m'
    using that assms(2) grant(1,3) by (auto simp: lock_invar_def split: if_splits)
  ultimately show ?thesis using grant(1) by (simp add: lock_invar_def)
next
  case (release i l rest)
  have h: "held s' j = (if j = i then held s i - {l} else held s j)" for j
    using release(1) by (auto simp: held_def)
  have "ordered rank (held s' j) (programs s' ! j)" if "j < length (programs s)" for j
    using assms(2) that release(1,2,3) h by (cases "j = i") (auto simp: lock_invar_def)
  moreover have "(\<exists>rest'. programs s' ! k = Acquire l' m' # rest') \<and> k < length (programs s')"
    if "(k, m') \<in> set (waiting s' l')" for k l' m'
  proof -
    have "(k, m') \<in> set (waiting s l')" using that release(1) by simp
    then have *: "k < length (programs s)" "\<exists>rest'. programs s ! k = Acquire l' m' # rest'"
      using assms(2) by (simp_all add: lock_invar_def)
    with release(3) have "k \<noteq> i" by auto
    with * release(1) show ?thesis by simp
  qed
  moreover have "distinct (map fst (waiting s' l'))" for l'
    using assms(2) release(1) by (simp add: lock_invar_def)
  moreover have "k < length (programs s')" if "(k, m') \<in> set (holders s' l')" for k l' m'
    using that assms(2) release(1) by (auto simp: lock_invar_def split: if_splits)
  ultimately show ?thesis using release(1) by (simp add: lock_invar_def)
qed

lemma lock_invar_steps: "lock_step\<^sup>*\<^sup>* s s' \<Longrightarrow> lock_invar rank s \<Longrightarrow> lock_invar rank s'"
  by (induction rule: rtranclp_induct) (auto intro: lock_invar_step)

text \<open>In a stuck state every unfinished task waits in a queue whose lock has a holder; the holder of
  the highest lock waited for would itself wait for a higher one.\<close>

lemma stuck_waits:
  assumes "stuck s" and "lock_invar rank s" and "i < length (programs s)" and "programs s ! i \<noteq> []"
  shows "\<exists>l m rest j. programs s ! i = Acquire l m # rest \<and> j < length (programs s) \<and> l \<in> held s j"
proof -
  obtain a rest where p: "programs s ! i = a # rest" using assms(4) by (cases "programs s ! i") auto
  show ?thesis
  proof (cases a)
    case (Release l)
    with assms(1,3) p lock_step.release [of i s l rest] show ?thesis by (auto simp: stuck_def)
  next
    case (Acquire l m)
    with assms(1,3) p lock_step.request [of i s l m rest] have "i \<in> fst ` set (waiting s l)"
      by (auto simp: stuck_def)
    then obtain j m' q where q: "waiting s l = (j, m') # q" by (cases "waiting s l") auto
    then have "(j, m') \<in> set (waiting s l)" by simp
    then obtain rest' where j: "j < length (programs s)" "programs s ! j = Acquire l m' # rest'"
      using assms(2) unfolding lock_invar_def by blast
    have "\<not> compatible m' (holders s l)"
      using assms(1) lock_step.grant [OF q j] by (auto simp: stuck_def)
    then have "holders s l \<noteq> []" by (cases m') auto
    then obtain k m'' where k: "(k, m'') \<in> set (holders s l)" by (cases "holders s l") auto
    then have "k < length (programs s)" using assms(2) unfolding lock_invar_def by blast
    moreover have "l \<in> held s k" using k by (force simp: held_def)
    ultimately show ?thesis using p Acquire by blast
  qed
qed

lemma ordered_stuck_finished:
  assumes "stuck s" and inv: "lock_invar rank s"
  shows "finished s"
proof (rule ccontr)
  assume "\<not> finished s"
  define wanted where "wanted = {l. \<exists>i m rest. i < length (programs s) \<and> programs s ! i = Acquire l m # rest}"
  have "wanted \<subseteq> (\<lambda>i. case hd (programs s ! i) of Acquire l m \<Rightarrow> l | Release l \<Rightarrow> l) ` {..<length (programs s)}"
    by (force simp: wanted_def)
  then have fin: "finite wanted" by (rule finite_subset) simp
  obtain i where i: "i < length (programs s)" "programs s ! i \<noteq> []"
    using \<open>\<not> finished s\<close> by (auto simp: finished_def list_all_length)
  have up: "\<exists>l' \<in> wanted. rank l < rank l'" if l: "l \<in> wanted" for l
  proof -
    obtain i m rest where "i < length (programs s)" "programs s ! i = Acquire l m # rest"
      using l unfolding wanted_def by blast
    with stuck_waits [OF assms, of i] obtain j where j: "j < length (programs s)" "l \<in> held s j" by auto
    then have o: "ordered rank (held s j) (programs s ! j)" using inv by (simp add: lock_invar_def)
    with j have "programs s ! j \<noteq> []" by auto
    with stuck_waits [OF assms j(1)] obtain l' m' rest' where "programs s ! j = Acquire l' m' # rest'" by auto
    with o j show ?thesis by (auto simp: wanted_def)
  qed
  have "wanted \<noteq> {}" using stuck_waits [OF assms i] i by (auto simp: wanted_def)
  then obtain l where "l \<in> wanted" "rank l = Max (rank ` wanted)"
    using fin by (metis (mono_tags, lifting) Max_in finite_imageI image_iff image_is_empty)
  moreover from up [OF this(1)] obtain l' where "l' \<in> wanted" "rank l < rank l'" by blast
  ultimately show False using fin by (metis Max_ge finite_imageI image_eqI not_le)
qed

locale ranked_locks =
  fixes rank :: "'l \<Rightarrow> nat"
    and progs :: "'l action list set"
  assumes progs_ordered: "p \<in> progs \<Longrightarrow> ordered rank {} p"
begin

lemma tasks_invar: "set ps \<subseteq> progs \<Longrightarrow> lock_step\<^sup>*\<^sup>* (start ps) s \<Longrightarrow> lock_invar rank s"
  using lock_invar_steps lock_invar_start progs_ordered by blast

lemma no_deadlock: "set ps \<subseteq> progs \<Longrightarrow> \<not> can_deadlock ps"
  using tasks_invar ordered_stuck_finished unfolding can_deadlock_def by blast

lemma tasks_finish: "set ps \<subseteq> progs \<Longrightarrow> lock_step\<^sup>*\<^sup>* (start ps) s \<Longrightarrow>
    \<exists>s'. lock_step\<^sup>*\<^sup>* s s' \<and> finished s'"
  using run_ends [of s] tasks_invar ordered_stuck_finished
  by (meson rtranclp_trans)

end

text \<open>Guards taken in increasing order respect it.\<close>

lemma ordered_releases: "distinct ls \<Longrightarrow> set ls = H \<Longrightarrow> ordered rank H (map Release ls)"
proof (induction ls arbitrary: H)
  case (Cons l ls)
  then have "set ls = H - {l}" by auto
  with Cons show ?case by auto
qed simp

lemma ordered_append: "ordered rank H (xs @ ys)" if "ordered rank {} ys" "ordered rank H xs"
  using that by (induction rank H xs rule: ordered.induct) auto

end
