(* ===== verification/Lock_Programs.thy ===== *)
theory Lock_Programs
  imports Locks
begin

text \<open>
  The lock programs of the operations of \<open>src/consensus.rs\<close>, \<open>src/reward_distribution.rs\<close>,
  \<open>src/difficulty_adjustment.rs\<close>, \<open>src/mining_pool.rs\<close> and \<open>src/transaction_engine.rs\<close>: which
  guard each takes, in which order, and where it drops them. The first two respect an order on
  their locks, so their operations always finish; the others do not, and the schedules that
  deadlock them are run.
\<close>

section \<open>Scheduling\<close>

text \<open>The only step that a given task can take, if any, and the run of a schedule of tasks.\<close>

definition step_task :: "'l lock_state \<Rightarrow> nat \<Rightarrow> 'l lock_state option" where
  "step_task s i =
     (case programs s ! i of
        [] \<Rightarrow> None
      | Release l # rest \<Rightarrow>
          Some (s\<lparr>programs := (programs s)[i := rest],
                  holders := (holders s)(l := filter (\<lambda>(j, _). j \<noteq> i) (holders s l))\<rparr>)
      | Acquire l m # rest \<Rightarrow>
          if i \<notin> fst ` set (waiting s l) then Some (s\<lparr>waiting := (waiting s)(l := waiting s l @ [(i, m)])\<rparr>)
          else (case waiting s l of
                  [] \<Rightarrow> None
                | (j, m') # q \<Rightarrow>
                    if j = i \<and> m' = m \<and> compatible m (holders s l)
                    then Some (s\<lparr>programs := (programs s)[i := rest],
                                 holders := (holders s)(l := (i, m) # holders s l),
                                 waiting := (waiting s)(l := q)\<rparr>)
                    else None))"

fun run :: "nat list \<Rightarrow> 'l lock_state \<Rightarrow> 'l lock_state option" where
  "run [] s = Some s"
| "run (i # is) s =
     (if i < length (programs s) then case step_task s i of Some s' \<Rightarrow> run is s' | None \<Rightarrow> None else None)"

lemma step_task_sound:
  assumes i: "i < length (programs s)" and step: "step_task s i = Some s'"
  shows "lock_step s s'"
proof (cases "programs s ! i")
  case Nil
  with step show ?thesis by (simp add: step_task_def)
next
  case (Cons a rest)
  show ?thesis
  proof (cases a)
    case (Release l)
    with lock_step.release [of i s l rest] i step Cons show ?thesis by (simp add: step_task_def)
  next
    case (Acquire l m)
    show ?thesis
    proof (cases "i \<in> fst ` set (waiting s l)")
      case False
      with lock_step.request [of i s l m rest] i step Cons Acquire show ?thesis
        by (simp add: step_task_def)
    next
      case True
      then obtain j m' q where q: "waiting s l = (j, m') # q" by (cases "waiting s l") auto
      with True step Cons Acquire have "j = i" "m' = m" "compatible m (holders s l)"
        by (simp_all add: step_task_def split: if_splits)
      with lock_step.grant [of s l i m q rest] q True i step Cons Acquire show ?thesis
        by (simp add: step_task_def)
    qed
  qed
qed

lemma step_task_complete: "lock_step s s' \<Longrightarrow> \<exists>i < length (programs s). step_task s i \<noteq> None"
  by (erule lock_step.cases) (force simp: step_task_def)+

lemma run_sound: "run is s = Some s' \<Longrightarrow> lock_step\<^sup>*\<^sup>* s s'"
  by (induction "is" arbitrary: s)
     (auto split: option.splits if_splits dest: step_task_sound intro: converse_rtranclp_into_rtranclp)

definition deadlocks :: "nat list \<Rightarrow> 'l action list list \<Rightarrow> bool" where
  "deadlocks is ps =
     (case run is (start ps) of
        None \<Rightarrow> False
      | Some s \<Rightarrow> list_all (\<lambda>i. Option.is_none (step_task s i)) [0..<length (programs s)] \<and> \<not> finished s)"

lemma deadlockI:
  assumes "deadlocks is ps"
  shows "can_deadlock ps"
proof -
  obtain s where s: "run is (start ps) = Some s" "\<not> finished s"
    and "\<forall>i < length (programs s). step_task s i = None"
    using assms by (auto simp: deadlocks_def list_all_length Option.is_none_def split: option.splits)
  then have "stuck s" using step_task_complete [of s] unfolding stuck_def by metis
  with s run_sound show ?thesis unfolding can_deadlock_def by blast
qed

section \<open>Consensus\<close>

datatype consensus_lock = ChainStates | ConsensusMiners | BlockHistory

text \<open>An identifier out of range is refused before any lock, a chain that exists with the first one held.\<close>

definition initialize_chain_locks :: "bool \<Rightarrow> bool \<Rightarrow> consensus_lock action list" where
  "initialize_chain_locks in_range exists =
     (if \<not> in_range then []
      else if exists then nested [(ChainStates, Write)]
      else nested [(ChainStates, Write), (ConsensusMiners, Write)])"

definition get_chain_state_locks :: "consensus_lock action list" where
  "get_chain_state_locks = nested [(ChainStates, Read)]"

text \<open>Every error of \<open>submit_block\<close> (no such chain, wrong height, insufficient work, a failed adjustment)
  returns with the chains locked and before the history is.\<close>

definition submit_block_locks :: "bool \<Rightarrow> consensus_lock action list" where
  "submit_block_locks accepted =
     (if accepted then nested [(ChainStates, Write), (BlockHistory, Write)] else nested [(ChainStates, Write)])"

definition get_block_history_locks :: "consensus_lock action list" where
  "get_block_history_locks = nested [(BlockHistory, Read)]"

definition consensus_stats_locks :: "consensus_lock action list" where
  "consensus_stats_locks = nested [(ChainStates, Read), (BlockHistory, Read)]"

definition get_miner_locks :: "consensus_lock action list" where
  "get_miner_locks = nested [(ConsensusMiners, Read)]"

definition consensus_programs :: "consensus_lock action list set" where
  "consensus_programs = {get_chain_state_locks, get_block_history_locks, consensus_stats_locks, get_miner_locks} \<union>
     range (\<lambda>(r, e). initialize_chain_locks r e) \<union> range submit_block_locks"

fun consensus_rank :: "consensus_lock \<Rightarrow> nat" where
  "consensus_rank ChainStates = 0"
| "consensus_rank ConsensusMiners = 1"
| "consensus_rank BlockHistory = 2"

interpretation consensus_locks: ranked_locks consensus_rank consensus_programs
  by unfold_locales
     (auto simp: consensus_programs_def nested_def initialize_chain_locks_def get_chain_state_locks_def
       submit_block_locks_def get_block_history_locks_def consensus_stats_locks_def get_miner_locks_def)

section \<open>Reward distribution\<close>

datatype reward_lock = RewardAccounts | RewardHistory | TotalDistributed

definition record_block_reward_locks :: "reward_lock action list" where
  "record_block_reward_locks = nested [(RewardAccounts, Write), (RewardHistory, Write)]"

definition get_miner_account_locks :: "reward_lock action list" where
  "get_miner_account_locks = nested [(RewardAccounts, Read)]"

text \<open>A payout is refused (no account, too little balance) with the accounts locked.\<close>

definition process_payout_locks :: "bool \<Rightarrow> reward_lock action list" where
  "process_payout_locks paid =
     (if paid then nested [(RewardAccounts, Write), (TotalDistributed, Write)] else nested [(RewardAccounts, Write)])"

definition get_miner_reward_history_locks :: "reward_lock action list" where
  "get_miner_reward_history_locks = nested [(RewardHistory, Read)]"

definition get_total_distributed_locks :: "reward_lock action list" where
  "get_total_distributed_locks = nested [(TotalDistributed, Read)]"

definition reward_stats_locks :: "reward_lock action list" where
  "reward_stats_locks = nested [(RewardAccounts, Read), (RewardHistory, Read), (TotalDistributed, Read)]"

definition reward_programs :: "reward_lock action list set" where
  "reward_programs = {record_block_reward_locks, get_miner_account_locks, get_miner_reward_history_locks,
     get_total_distributed_locks, reward_stats_locks} \<union> range process_payout_locks"

fun reward_rank :: "reward_lock \<Rightarrow> nat" where
  "reward_rank RewardAccounts = 0"
| "reward_rank RewardHistory = 1"
| "reward_rank TotalDistributed = 2"

interpretation reward_locks: ranked_locks reward_rank reward_programs
  by unfold_locales
     (auto simp: reward_programs_def nested_def record_block_reward_locks_def get_miner_account_locks_def
       process_payout_locks_def get_miner_reward_history_locks_def get_total_distributed_locks_def
       reward_stats_locks_def)

text \<open>However many operations of the consensus engine, or of the reward manager, run concurrently,
  and however they are scheduled, they do not deadlock: from every state of a run all of them can
  still finish, and no run is infinite.\<close>

theorem consensus_and_rewards_finish:
  assumes "set ps \<subseteq> consensus_programs" and "lock_step\<^sup>*\<^sup>* (start ps) s"
    and "set qs \<subseteq> reward_programs" and "lock_step\<^sup>*\<^sup>* (start qs) t"
  shows "(\<exists>s'. lock_step\<^sup>*\<^sup>* s s' \<and> finished s') \<and> (\<exists>t'. lock_step\<^sup>*\<^sup>* t t' \<and> finished t') \<and>
    \<not> can_deadlock ps \<and> \<not> can_deadlock qs \<and>
    wf {(s', s). lock_step s (s' :: consensus_lock lock_state)} \<and>
    wf {(t', t). lock_step t (t' :: reward_lock lock_state)}"
proof (intro conjI)
  show "\<exists>s'. lock_step\<^sup>*\<^sup>* s s' \<and> finished s'" "\<not> can_deadlock ps"
    by (rule consensus_locks.tasks_finish [OF assms(1,2)], rule consensus_locks.no_deadlock [OF assms(1)])
  show "\<exists>t'. lock_step\<^sup>*\<^sup>* t t' \<and> finished t'" "\<not> can_deadlock qs"
    by (rule reward_locks.tasks_finish [OF assms(3,4)], rule reward_locks.no_deadlock [OF assms(3)])
qed (rule wf_lock_step)+

theorem consensus_and_rewards_finish_witness:
  "\<not> can_deadlock [submit_block_locks True, initialize_chain_locks True False, consensus_stats_locks, submit_block_locks False] \<and>
   \<not> can_deadlock [process_payout_locks True, record_block_reward_locks, process_payout_locks False, reward_stats_locks]"
proof -
  have "set [submit_block_locks True, initialize_chain_locks True False, consensus_stats_locks, submit_block_locks False]
      \<subseteq> consensus_programs" unfolding consensus_programs_def by force
  moreover have "set [process_payout_locks True, record_block_reward_locks, process_payout_locks False, reward_stats_locks]
      \<subseteq> reward_programs"
    by (simp add: reward_programs_def)
  ultimately show ?thesis
    using consensus_and_rewards_finish [OF _ rtranclp.rtrancl_refl _ rtranclp.rtrancl_refl] by blast
qed

section \<open>Components without an order\<close>

datatype pool_lock = Miners | MinerAccounts | Stats | Shares

definition register_miner_locks :: "pool_lock action list" where
  "register_miner_locks = nested [(Miners, Write), (MinerAccounts, Write), (Stats, Write)]"

definition submit_share_locks :: "pool_lock action list" where
  "submit_share_locks = nested [(Stats, Write), (MinerAccounts, Write), (Shares, Write)]"

datatype utxo_lock = Utxos | AddressUtxos

definition add_utxo_locks :: "utxo_lock action list" where
  "add_utxo_locks = nested [(Utxos, Write), (AddressUtxos, Write)]"

definition get_address_utxos_locks :: "utxo_lock action list" where
  "get_address_utxos_locks = nested [(AddressUtxos, Read), (Utxos, Read)]"

datatype engine_lock = EngineAccounts | EngineTransactions | EngineMempool | EngineExecuted

text \<open>The execution of a transaction with \<open>n\<close> outputs, and the engine's statistics.\<close>

definition execute_transaction_locks :: "nat \<Rightarrow> engine_lock action list" where
  "execute_transaction_locks n =
     Acquire EngineMempool Write # nested [(EngineAccounts, Write)] @
     concat (replicate n (nested [(EngineAccounts, Write)] @ nested [(EngineAccounts, Write)])) @
     nested [(EngineAccounts, Write)] @
     nested [(EngineTransactions, Write), (EngineExecuted, Write)] @ [Release EngineMempool]"

definition engine_stats_locks :: "engine_lock action list" where
  "engine_stats_locks = nested [(EngineAccounts, Read), (EngineTransactions, Read),
     (EngineMempool, Read), (EngineExecuted, Read)]"

datatype difficulty_lock = BlockTimes | CurrentDifficulty | AdjustmentHistory

definition record_block_time_locks :: "difficulty_lock action list" where
  "record_block_time_locks = nested [(BlockTimes, Write)]"

definition calculate_new_difficulty_locks :: "difficulty_lock action list" where
  "calculate_new_difficulty_locks =
     Acquire BlockTimes Read # nested [(CurrentDifficulty, Read)] @
     nested [(AdjustmentHistory, Write), (CurrentDifficulty, Write)] @ [Release BlockTimes]"

definition difficulty_stats_locks :: "difficulty_lock action list" where
  "difficulty_stats_locks =
     nested [(CurrentDifficulty, Read)] @ nested [(AdjustmentHistory, Read), (BlockTimes, Read)]"

lemmas lock_run_simps = deadlocks_def start_def step_task_def nested_def finished_def
  numeral_2_eq_2 numeral_3_eq_3

text \<open>C22: Four pairs or triples of operations can deadlock, because they take the same locks in different
  orders: registering a miner and submitting a share; adding an output and listing those of an
  address; executing a transaction and reading the engine's statistics; and, since a waiting writer
  blocks later readers, computing a difficulty, reading the difficulty statistics and recording a
  block time.\<close>

theorem lock_order_deadlocks:
  "can_deadlock [register_miner_locks, submit_share_locks] \<and>
   can_deadlock [add_utxo_locks, get_address_utxos_locks] \<and>
   can_deadlock [execute_transaction_locks n, engine_stats_locks] \<and>
   can_deadlock [calculate_new_difficulty_locks, difficulty_stats_locks, record_block_time_locks]"
proof (intro conjI)
  show "can_deadlock [register_miner_locks, submit_share_locks]"
    by (rule deadlockI [of "[0, 0, 0, 0, 1, 1, 0, 1]"])
       (simp add: register_miner_locks_def submit_share_locks_def lock_run_simps)
  show "can_deadlock [add_utxo_locks, get_address_utxos_locks]"
    by (rule deadlockI [of "[0, 0, 1, 1, 0, 1]"])
       (simp add: add_utxo_locks_def get_address_utxos_locks_def lock_run_simps)
  show "can_deadlock [execute_transaction_locks n, engine_stats_locks]"
    by (rule deadlockI [of "[0, 0, 1, 1, 1, 1, 0, 1]"])
       (simp add: execute_transaction_locks_def engine_stats_locks_def lock_run_simps)
  show "can_deadlock [calculate_new_difficulty_locks, difficulty_stats_locks, record_block_time_locks]"
    by (rule deadlockI [of "[0, 0, 0, 0, 0, 1, 1, 1, 1, 1, 2, 0, 1]"])
       (simp add: calculate_new_difficulty_locks_def difficulty_stats_locks_def
         record_block_time_locks_def lock_run_simps)
qed

end
