(* ===== verification/Network_Locks.thy ===== *)
theory Network_Locks
  imports Lock_Programs
begin

text \<open>
  The lock programs of the miner (\<open>src/miner.rs\<close>), the block submission handler
  (\<open>src/block_submission.rs\<close>), the stratum pool (\<open>src/stratum_pool.rs\<close>), the stratum server
  (\<open>src/stratum.rs\<close>), the websocket server (\<open>src/websocket_server.rs\<close>) and the stratum client
  (\<open>src/stratum_client.rs\<close>). Early returns and branches are arguments, so that a program stands for
  every path. A \<open>tokio::sync::Mutex\<close>, which the client uses, is a lock that is only taken for writing.
  Each component orders its locks, so its operations always finish; what they wait for besides
  locks (sockets, the node) is not part of a program.
\<close>

section \<open>Sequences of operations\<close>

lemma ordered_replicate:
  "ordered rank {} p \<Longrightarrow> ordered rank {} (concat (replicate n p))"
  by (induction n) (auto intro: ordered_append)

lemmas lock_order_simps = nested_def ordered_append ordered_replicate

definition operations_finish :: "'l action list set \<Rightarrow> bool" where
  "operations_finish progs \<longleftrightarrow>
     (\<forall>ps s. set ps \<subseteq> progs \<longrightarrow> lock_step\<^sup>*\<^sup>* (start ps) s \<longrightarrow>
        (\<exists>s'. lock_step\<^sup>*\<^sup>* s s' \<and> finished s') \<and> (stuck s \<longrightarrow> finished s))"

context ranked_locks
begin

lemma operations_finish: "operations_finish progs"
  using tasks_finish no_deadlock unfolding operations_finish_def can_deadlock_def by blast

end

section \<open>The miner\<close>

datatype miner_lock = CurrentWork | MinerStats | ProofTimes

definition miner_set_work_locks :: "miner_lock action list" where
  "miner_set_work_locks = nested [(CurrentWork, Write)]"

definition get_current_work_locks :: "miner_lock action list" where
  "get_current_work_locks = nested [(CurrentWork, Read)]"

text \<open>The search: checks for new work that found none, and how it ends.\<close>

datatype search_end = FoundProof | NewWork | ProofError

definition mine_work_locks :: "nat \<Rightarrow> search_end \<Rightarrow> miner_lock action list" where
  "mine_work_locks checks result =
     concat (replicate checks (get_current_work_locks @ nested [(MinerStats, Write)])) @
     (case result of
        FoundProof \<Rightarrow> nested [(MinerStats, Write), (ProofTimes, Write)]
      | NewWork \<Rightarrow> get_current_work_locks
      | ProofError \<Rightarrow> [])"

text \<open>One turn of the endless loop, with or without work.\<close>

definition mine_continuous_locks :: "(nat \<times> search_end) option \<Rightarrow> miner_lock action list" where
  "mine_continuous_locks work =
     get_current_work_locks @ (case work of None \<Rightarrow> [] | Some (checks, result) \<Rightarrow> mine_work_locks checks result)"

definition miner_get_stats_locks :: "miner_lock action list" where
  "miner_get_stats_locks = nested [(MinerStats, Read)]"

definition reset_stats_locks :: "miner_lock action list" where
  "reset_stats_locks = nested [(MinerStats, Write)]"

definition miner_programs :: "miner_lock action list set" where
  "miner_programs = {miner_set_work_locks, get_current_work_locks, miner_get_stats_locks, reset_stats_locks} \<union>
     range (\<lambda>(n, e). mine_work_locks n e) \<union> range mine_continuous_locks"

fun miner_rank :: "miner_lock \<Rightarrow> nat" where
  "miner_rank CurrentWork = 0"
| "miner_rank MinerStats = 1"
| "miner_rank ProofTimes = 2"

lemma mine_work_ordered: "ordered miner_rank {} (mine_work_locks n e)"
  unfolding mine_work_locks_def get_current_work_locks_def
  by (intro ordered_append ordered_replicate) (auto simp: nested_def split: search_end.splits)

interpretation miner_locks: ranked_locks miner_rank miner_programs
  by unfold_locales
     (auto simp: miner_programs_def mine_work_ordered mine_continuous_locks_def nested_def
       miner_set_work_locks_def get_current_work_locks_def miner_get_stats_locks_def reset_stats_locks_def
       split: option.splits prod.splits)

section \<open>Block submission\<close>

datatype submission_lock = PrevBlockHash | CurrentHeight

definition update_prev_block_hash_locks :: "submission_lock action list" where
  "update_prev_block_hash_locks = nested [(PrevBlockHash, Write), (CurrentHeight, Write)]"

text \<open>The guards that \<open>*lock.read().await\<close> makes last for one statement; the validation may fail
  before it reads the height.\<close>

definition validate_block_locks :: "bool \<Rightarrow> submission_lock action list" where
  "validate_block_locks well_formed = (if well_formed then nested [(CurrentHeight, Read)] else [])"

definition submit_built_block_locks :: "bool \<Rightarrow> bool \<Rightarrow> bool \<Rightarrow> submission_lock action list" where
  "submit_built_block_locks built well_formed accepted =
     nested [(PrevBlockHash, Read)] @
     (if built then
        validate_block_locks well_formed @
        (if well_formed \<and> accepted then update_prev_block_hash_locks else [])
      else [])"

definition submission_stats_locks :: "submission_lock action list" where
  "submission_stats_locks = nested [(CurrentHeight, Read)] @ nested [(PrevBlockHash, Read)]"

definition submission_programs :: "submission_lock action list set" where
  "submission_programs = {update_prev_block_hash_locks, submission_stats_locks} \<union>
     range validate_block_locks \<union> range (\<lambda>(built, formed, accepted). submit_built_block_locks built formed accepted)"

fun submission_rank :: "submission_lock \<Rightarrow> nat" where
  "submission_rank PrevBlockHash = 0"
| "submission_rank CurrentHeight = 1"

interpretation submission_locks: ranked_locks submission_rank submission_programs
  by unfold_locales
     (auto simp: submission_programs_def lock_order_simps update_prev_block_hash_locks_def
       submission_stats_locks_def validate_block_locks_def submit_built_block_locks_def)

section \<open>The stratum pool\<close>

datatype stratum_pool_lock = PoolMiners | TotalShares | TotalValidShares | PoolWork

definition register_pool_miner_locks :: "bool \<Rightarrow> stratum_pool_lock action list" where
  "register_pool_miner_locks valid = (if valid then nested [(PoolMiners, Write)] else [])"

definition get_work_locks :: "stratum_pool_lock action list" where
  "get_work_locks = nested [(PoolWork, Read)]"

definition update_work_locks :: "stratum_pool_lock action list" where
  "update_work_locks = nested [(PoolWork, Write)]"

definition sync_block_height_locks :: "bool \<Rightarrow> stratum_pool_lock action list" where
  "sync_block_height_locks answered = (if answered then nested [(PoolWork, Write)] else [])"

text \<open>The height is read once the hash has been parsed, and that guard is dropped before the node is
  asked; when the node takes the block, the height is synchronized.\<close>

type_synonym block_path = "(bool \<times> bool) option"

fun submit_block_to_node_locks :: "block_path \<Rightarrow> stratum_pool_lock action list" where
  "submit_block_to_node_locks (Some (taken, answered)) =
     nested [(PoolWork, Read)] @ (if taken then sync_block_height_locks answered else [])"
| "submit_block_to_node_locks None = []"

text \<open>The miners stay locked while the share is judged and while a block is sent to the node; so does
  the count of valid shares, which is bound inside the branch of a valid share. \<open>None\<close> is a share
  that is no block, or a block whose hash does not parse.\<close>

definition pool_submit_share_locks :: "bool \<Rightarrow> bool \<Rightarrow> block_path \<Rightarrow> stratum_pool_lock action list" where
  "pool_submit_share_locks known valid candidate =
     Acquire PoolMiners Write #
     (if known \<and> valid
      then Acquire TotalValidShares Write # submit_block_to_node_locks candidate @ [Release TotalValidShares]
      else []) @
     [Release PoolMiners]"

text \<open>A \<open>mining.submit\<close> of an authorized connection: the height, then, unless the share is stale, the
  block that the miner claims and the share. The synchronization that it spawns is a task of its own.\<close>

definition share_request_locks ::
    "bool \<Rightarrow> block_path \<Rightarrow> bool \<Rightarrow> bool \<Rightarrow> block_path \<Rightarrow> stratum_pool_lock action list" where
  "share_request_locks stale claimed known valid candidate =
     nested [(PoolWork, Read)] @
     (if stale then [] else submit_block_to_node_locks claimed @ pool_submit_share_locks known valid candidate)"

definition get_miner_stats_locks :: "stratum_pool_lock action list" where
  "get_miner_stats_locks = nested [(PoolMiners, Read)]"

definition get_pool_stats_locks :: "stratum_pool_lock action list" where
  "get_pool_stats_locks = nested [(PoolMiners, Read), (TotalShares, Read), (TotalValidShares, Read)]"

definition stratum_pool_programs :: "stratum_pool_lock action list set" where
  "stratum_pool_programs = {get_work_locks, update_work_locks, get_miner_stats_locks, get_pool_stats_locks} \<union>
     range register_pool_miner_locks \<union> range sync_block_height_locks \<union> range submit_block_to_node_locks \<union>
     range (\<lambda>(known, valid, candidate). pool_submit_share_locks known valid candidate) \<union>
     range (\<lambda>(stale, claimed, known, valid, candidate). share_request_locks stale claimed known valid candidate)"

fun stratum_pool_rank :: "stratum_pool_lock \<Rightarrow> nat" where
  "stratum_pool_rank PoolMiners = 0"
| "stratum_pool_rank TotalShares = 1"
| "stratum_pool_rank TotalValidShares = 2"
| "stratum_pool_rank PoolWork = 3"

lemma submit_block_to_node_ordered:
  "ordered stratum_pool_rank {} (submit_block_to_node_locks path)"
  by (induction path rule: submit_block_to_node_locks.induct)
     (auto simp: nested_def sync_block_height_locks_def)

lemma pool_submit_share_ordered:
  "ordered stratum_pool_rank {} (pool_submit_share_locks known valid candidate)"
  by (cases candidate rule: submit_block_to_node_locks.cases)
     (auto simp: pool_submit_share_locks_def nested_def sync_block_height_locks_def)

interpretation stratum_pool_locks: ranked_locks stratum_pool_rank stratum_pool_programs
  by unfold_locales
     (auto simp: stratum_pool_programs_def nested_def get_work_locks_def update_work_locks_def
       get_miner_stats_locks_def get_pool_stats_locks_def register_pool_miner_locks_def
       sync_block_height_locks_def share_request_locks_def
       intro!: submit_block_to_node_ordered pool_submit_share_ordered ordered_append)

section \<open>The stratum server\<close>

datatype server_lock = ServerWork | ServerDifficulty | IpRateLimits | ServerClients

definition server_set_work_locks :: "server_lock action list" where
  "server_set_work_locks = nested [(ServerWork, Write)]"

definition server_set_difficulty_locks :: "server_lock action list" where
  "server_set_difficulty_locks = nested [(ServerDifficulty, Write)]"

definition is_ip_blocked_locks :: "server_lock action list" where
  "is_ip_blocked_locks = nested [(IpRateLimits, Read)]"

definition check_ip_rate_limit_locks :: "server_lock action list" where
  "check_ip_rate_limit_locks = nested [(IpRateLimits, Write)]"

text \<open>One turn of the accept loop.\<close>

definition accept_connection_locks :: "bool \<Rightarrow> bool \<Rightarrow> server_lock action list" where
  "accept_connection_locks blocked limited =
     is_ip_blocked_locks @
     (if blocked then []
      else check_ip_rate_limit_locks @ (if limited then [] else nested [(ServerClients, Read)]))"

text \<open>One turn of a connection's loop: a message, the end of the connection or a timeout either writes
  the clients or takes no lock.\<close>

definition client_turn_locks :: "bool \<Rightarrow> server_lock action list" where
  "client_turn_locks changes = (if changes then nested [(ServerClients, Write)] else [])"

definition get_client_count_locks :: "server_lock action list" where
  "get_client_count_locks = nested [(ServerClients, Read)]"

definition get_clients_locks :: "server_lock action list" where
  "get_clients_locks = nested [(ServerClients, Read)]"

definition broadcast_work_locks :: "bool \<Rightarrow> server_lock action list" where
  "broadcast_work_locks has_work =
     Acquire ServerWork Read # (if has_work then nested [(ServerClients, Read)] else []) @ [Release ServerWork]"

definition server_programs :: "server_lock action list set" where
  "server_programs = {server_set_work_locks, server_set_difficulty_locks, is_ip_blocked_locks,
       check_ip_rate_limit_locks, get_client_count_locks, get_clients_locks} \<union>
     range (\<lambda>(blocked, limited). accept_connection_locks blocked limited) \<union>
     range client_turn_locks \<union> range broadcast_work_locks"

fun server_rank :: "server_lock \<Rightarrow> nat" where
  "server_rank ServerWork = 0"
| "server_rank ServerDifficulty = 1"
| "server_rank IpRateLimits = 2"
| "server_rank ServerClients = 3"

interpretation server_locks: ranked_locks server_rank server_programs
  by unfold_locales
     (auto simp: server_programs_def nested_def server_set_work_locks_def server_set_difficulty_locks_def
       is_ip_blocked_locks_def check_ip_rate_limit_locks_def get_client_count_locks_def get_clients_locks_def
       accept_connection_locks_def client_turn_locks_def broadcast_work_locks_def)

section \<open>The websocket server\<close>

datatype websocket_lock = WsClients

definition open_connection_locks :: "websocket_lock action list" where
  "open_connection_locks = nested [(WsClients, Write)]"

text \<open>One turn of the loop: a command that changes the subscriptions, an event, or anything else.\<close>

datatype ws_turn_kind = Resubscribes | HandlesEvent | TakesNoLock

definition connection_turn_locks :: "ws_turn_kind \<Rightarrow> websocket_lock action list" where
  "connection_turn_locks kind =
     (case kind of
        Resubscribes \<Rightarrow> nested [(WsClients, Write)]
      | HandlesEvent \<Rightarrow> nested [(WsClients, Read)]
      | TakesNoLock \<Rightarrow> [])"

text \<open>A connection; \<open>None\<close> is one whose greeting cannot be sent, which ends without removing the client.\<close>

definition connection_locks :: "ws_turn_kind list option \<Rightarrow> websocket_lock action list" where
  "connection_locks turns =
     open_connection_locks @
     (case turns of
        None \<Rightarrow> []
      | Some kinds \<Rightarrow> concat (map connection_turn_locks kinds) @ nested [(WsClients, Write)])"

definition websocket_programs :: "websocket_lock action list set" where
  "websocket_programs = range connection_locks"

lemma ordered_concat: "(\<And>x. ordered rank {} (f x)) \<Longrightarrow> ordered rank {} (concat (map f xs))"
  by (induction xs) (auto intro: ordered_append)

interpretation websocket_locks: ranked_locks "\<lambda>_. 0" websocket_programs
proof
  have "ordered (\<lambda>_. 0) {} (connection_turn_locks kind)" for kind
    by (auto simp: connection_turn_locks_def nested_def split: ws_turn_kind.split)
  then show "ordered (\<lambda>_. 0) {} p" if "p \<in> websocket_programs" for p
    using that unfolding websocket_programs_def connection_locks_def open_connection_locks_def
    by (auto simp: nested_def intro!: ordered_append ordered_concat split: option.splits)
qed

section \<open>The stratum client\<close>

datatype client_lock = Reader | Writer | SubscriptionId | RequestId | LastKeepalive | BlockHeight | ClientState

definition send_request_locks :: "bool \<Rightarrow> client_lock action list" where
  "send_request_locks failed =
     Acquire Writer Write # (if failed then nested [(ClientState, Write)] else []) @ [Release Writer]"

definition read_response_locks :: "client_lock action list" where
  "read_response_locks = nested [(Reader, Write)]"

definition get_next_request_id_locks :: "client_lock action list" where
  "get_next_request_id_locks = nested [(RequestId, Write)]"

text \<open>How an exchange goes: the request is not sent, no answer is read, the answer refuses, or it agrees.\<close>

datatype exchange = NotSent bool | NoAnswer | Refused | Agreed

definition exchange_locks :: "exchange \<Rightarrow> client_lock action list \<Rightarrow> client_lock action list" where
  "exchange_locks e final =
     get_next_request_id_locks @
     (case e of
        NotSent failed \<Rightarrow> send_request_locks failed
      | _ \<Rightarrow> send_request_locks False @ read_response_locks @ (if e = Agreed then final else []))"

definition subscribe_locks :: "exchange \<Rightarrow> client_lock action list" where
  "subscribe_locks e = exchange_locks e (nested [(SubscriptionId, Write), (ClientState, Write)])"

definition authorize_locks :: "exchange \<Rightarrow> client_lock action list" where
  "authorize_locks e = exchange_locks e (nested [(ClientState, Write)])"

definition connect_locks :: "bool \<Rightarrow> exchange \<Rightarrow> exchange \<Rightarrow> client_lock action list" where
  "connect_locks connected subscribed authorized =
     (if connected
      then nested [(Reader, Write)] @ nested [(Writer, Write)] @ nested [(ClientState, Write)] @
        subscribe_locks subscribed @ (if subscribed = Agreed then authorize_locks authorized else [])
      else [])"

definition client_submit_share_locks :: "bool \<Rightarrow> bool option \<Rightarrow> nat \<Rightarrow> client_lock action list" where
  "client_submit_share_locks authorized unsent reads =
     nested [(ClientState, Write)] @
     (if authorized
      then get_next_request_id_locks @
        (case unsent of
           Some failed \<Rightarrow> send_request_locks failed
         | None \<Rightarrow> send_request_locks False @ concat (replicate reads read_response_locks))
      else [])"

definition client_state_locks :: "client_lock action list" where
  "client_state_locks = nested [(ClientState, Write)]"

definition reconnect_locks :: "bool \<Rightarrow> exchange \<Rightarrow> exchange \<Rightarrow> client_lock action list" where
  "reconnect_locks connected subscribed authorized =
     nested [(Reader, Write)] @ nested [(Writer, Write)] @ nested [(ClientState, Write)] @
     connect_locks connected subscribed authorized"

definition send_keepalive_locks :: "bool \<Rightarrow> bool \<Rightarrow> bool option \<Rightarrow> client_lock action list" where
  "send_keepalive_locks due authorized unsent =
     nested [(LastKeepalive, Write)] @
     (if due then
        nested [(ClientState, Write)] @
        (if authorized
         then get_next_request_id_locks @
           (case unsent of
              None \<Rightarrow> send_request_locks False @ nested [(LastKeepalive, Write)]
            | Some failed \<Rightarrow> send_request_locks failed @ nested [(ClientState, Write)])
         else [])
      else [])"

definition block_height_locks :: "client_lock action list" where
  "block_height_locks = nested [(BlockHeight, Write)]"

definition process_work_notification_locks :: "bool \<Rightarrow> client_lock action list" where
  "process_work_notification_locks has_height = (if has_height then block_height_locks else [])"

definition client_programs :: "client_lock action list set" where
  "client_programs = {client_state_locks, block_height_locks} \<union>
     range (\<lambda>(c, s, a). connect_locks c s a) \<union> range (\<lambda>(c, s, a). reconnect_locks c s a) \<union>
     range (\<lambda>(a, u, n). client_submit_share_locks a u n) \<union> range (\<lambda>(d, a, u). send_keepalive_locks d a u) \<union>
     range process_work_notification_locks"

fun client_rank :: "client_lock \<Rightarrow> nat" where
  "client_rank ClientState = 1"
| "client_rank _ = 0"

lemma client_parts_ordered:
  "ordered client_rank {} (send_request_locks failed)" "ordered client_rank {} read_response_locks"
  "ordered client_rank {} get_next_request_id_locks" "ordered client_rank {} (nested [(l, Write)])"
  "ordered client_rank {} (nested [(SubscriptionId, Write), (ClientState, Write)])"
  by (auto simp: send_request_locks_def read_response_locks_def get_next_request_id_locks_def nested_def)

lemma exchange_ordered: "ordered client_rank {} final \<Longrightarrow> ordered client_rank {} (exchange_locks e final)"
  unfolding exchange_locks_def
  by (auto intro!: ordered_append client_parts_ordered split: exchange.split)

lemma connect_ordered: "ordered client_rank {} (connect_locks c s a)"
  unfolding connect_locks_def subscribe_locks_def authorize_locks_def
  by (auto intro!: ordered_append client_parts_ordered exchange_ordered)

lemma client_share_ordered: "ordered client_rank {} (client_submit_share_locks a u n)"
  unfolding client_submit_share_locks_def
  by (auto intro!: ordered_append ordered_replicate client_parts_ordered split: option.split)

lemma keepalive_ordered: "ordered client_rank {} (send_keepalive_locks d a u)"
  unfolding send_keepalive_locks_def
  by (auto intro!: ordered_append client_parts_ordered split: option.split)

interpretation client_locks: ranked_locks client_rank client_programs
proof
  show "ordered client_rank {} p" if "p \<in> client_programs" for p
    using that unfolding client_programs_def client_state_locks_def block_height_locks_def reconnect_locks_def
      process_work_notification_locks_def
    by (auto intro!: ordered_append client_parts_ordered connect_ordered client_share_ordered keepalive_ordered)
qed

section \<open>All components that order their locks\<close>

text \<open>C21: The operations of eight components never deadlock, on the paths without errors and on those that
  return early, however many of them run and however they are scheduled: from every state that a run
  of the consensus engine, the reward manager, the miner, the block submission handler, the stratum
  pool, the stratum server, the websocket server or the stratum client reaches, every task can still
  finish, and a state in which nothing can happen is one in which all have finished. That every run
  is finite holds of all lock programs (\<open>wf_lock_step\<close>).\<close>

theorem operations_never_deadlock:
  "operations_finish consensus_programs \<and> operations_finish reward_programs \<and>
   operations_finish miner_programs \<and> operations_finish submission_programs \<and>
   operations_finish stratum_pool_programs \<and> operations_finish server_programs \<and>
   operations_finish websocket_programs \<and> operations_finish client_programs"
  by (intro conjI consensus_locks.operations_finish reward_locks.operations_finish
      miner_locks.operations_finish submission_locks.operations_finish stratum_pool_locks.operations_finish
      server_locks.operations_finish websocket_locks.operations_finish client_locks.operations_finish)

end
