(* ===== verification/Lock_Conflicts.thy ===== *)
theory Lock_Conflicts
  imports Network_Locks
begin

text \<open>
  The remaining lock programs of the mining pool (\<open>src/mining_pool.rs\<close>), the output set and the
  transaction engine (\<open>src/transaction_engine.rs\<close>) and the difficulty manager
  (\<open>src/difficulty_adjustment.rs\<close>), and which of their operations cannot run together: without one
  of the two sides of each conflict that \<open>Lock_Programs\<close> exhibits, the others are ordered.
\<close>

section \<open>Guards taken under guards\<close>

lemma ordered_guard:
  assumes "\<forall>h \<in> H. rank h < rank l" and "ordered rank H rest"
  shows "ordered rank H (nested [(l, m)] @ rest)"
proof -
  have "l \<notin> H" using assms(1) by blast
  then have "insert l H - {l} = H" by simp
  with assms show ?thesis by (simp add: nested_def)
qed

lemma ordered_guards:
  assumes "\<And>i. \<forall>h \<in> H. rank h < rank (f i)" and "ordered rank H rest"
  shows "ordered rank H (concat (map (\<lambda>i. nested [(f i, m)]) xs) @ rest)"
  using assms by (induction xs) (auto intro: ordered_guard)

lemma ordered_map_action:
  assumes "inj f" shows "ordered rank (f ` H) (map (map_action f) p) = ordered (rank \<circ> f) H p"
proof (induction p arbitrary: H)
  case (Cons x p)
  have acquire: "ordered rank (insert (f l) (f ` H)) (map (map_action f) p) = ordered (rank \<circ> f) (insert l H) p" for l
    using Cons [of "insert l H"] by (simp add: o_def)
  have "f ` H - {f l} = f ` (H - {l})" for l
    using assms by (auto dest: injD)
  then have "ordered rank (f ` H - {f l}) (map (map_action f) p) = ordered (rank \<circ> f) (H - {l}) p" for l
    using Cons [of "H - {l}"] by (simp add: o_def)
  with acquire assms show ?case by (cases x) (auto simp: inj_image_mem_iff o_def)
qed simp

section \<open>The mining pool and its miners\<close>

text \<open>The locks of the pool, and those of the miner numbered \<open>i\<close> in the map of miners.\<close>

datatype mining_pool_lock = Guard pool_lock | PoolCurrentWork | OfMiner nat miner_lock

definition of_pool :: "pool_lock action list \<Rightarrow> mining_pool_lock action list" where
  "of_pool = map (map_action Guard)"

definition each_miner :: "miner_lock \<Rightarrow> mode \<Rightarrow> nat list \<Rightarrow> mining_pool_lock action list" where
  "each_miner l m ids = concat (map (\<lambda>i. nested [(OfMiner i l, m)]) ids)"

definition unregister_miner_locks :: "pool_lock action list" where
  "unregister_miner_locks = nested [(Miners, Write), (MinerAccounts, Write), (Stats, Write)]"

definition get_miner_count_locks :: "pool_lock action list" where
  "get_miner_count_locks = nested [(Miners, Read)]"

definition distribute_work_locks :: "nat list \<Rightarrow> mining_pool_lock action list" where
  "distribute_work_locks ids =
     Acquire (Guard Miners) Read #
     (if ids = [] then [] else each_miner CurrentWork Write ids @ nested [(PoolCurrentWork, Write)]) @
     [Release (Guard Miners)]"

definition get_stats_locks :: "nat list \<Rightarrow> mining_pool_lock action list" where
  "get_stats_locks ids =
     nested [(Guard Stats, Read)] @
     Acquire (Guard Miners) Read # each_miner MinerStats Read ids @ [Release (Guard Miners)]"

definition shares_read_locks :: "pool_lock action list" where
  "shares_read_locks = nested [(Shares, Read)]"

definition calculate_miner_payout_locks :: "bool \<Rightarrow> bool \<Rightarrow> pool_lock action list" where
  "calculate_miner_payout_locks valid has_shares =
     (if valid then shares_read_locks @ (if has_shares then nested [(Shares, Read)] else []) else [])"

definition pool_process_payout_locks :: "bool \<Rightarrow> pool_lock action list" where
  "pool_process_payout_locks valid = (if valid then nested [(MinerAccounts, Write)] else [])"

definition accounts_read_locks :: "pool_lock action list" where
  "accounts_read_locks = nested [(MinerAccounts, Read)]"

definition clear_old_shares_locks :: "pool_lock action list" where
  "clear_old_shares_locks = nested [(Shares, Write)]"

definition get_pool_fee_collected_locks :: "pool_lock action list" where
  "get_pool_fee_collected_locks = nested [(Stats, Read)]"

definition add_pool_fee_locks :: "pool_lock action list" where
  "add_pool_fee_locks = nested [(Stats, Write)]"

definition get_average_hashrate_locks :: "nat list \<Rightarrow> mining_pool_lock action list" where
  "get_average_hashrate_locks ids =
     Acquire (Guard Miners) Read # each_miner MinerStats Read ids @ [Release (Guard Miners)]"

definition get_pool_efficiency_locks :: "pool_lock action list" where
  "get_pool_efficiency_locks = nested [(Stats, Read), (Shares, Read)]"

definition get_detailed_stats_locks :: "nat list \<Rightarrow> mining_pool_lock action list" where
  "get_detailed_stats_locks ids =
     nested [(Guard Stats, Read)] @
     Acquire (Guard Miners) Read # Acquire (Guard Shares) Read # each_miner MinerStats Read ids @
     [Release (Guard Shares), Release (Guard Miners)]"

text \<open>All operations but those that register, unregister and submit.\<close>

definition mining_pool_programs :: "mining_pool_lock action list set" where
  "mining_pool_programs =
     of_pool ` ({get_miner_count_locks, shares_read_locks, accounts_read_locks, clear_old_shares_locks,
         get_pool_fee_collected_locks, add_pool_fee_locks, get_pool_efficiency_locks} \<union>
       range (\<lambda>(valid, has). calculate_miner_payout_locks valid has) \<union> range pool_process_payout_locks) \<union>
     range distribute_work_locks \<union> range get_stats_locks \<union> range get_average_hashrate_locks \<union>
     range get_detailed_stats_locks"

fun pool_rank :: "(pool_lock \<Rightarrow> nat) \<Rightarrow> mining_pool_lock \<Rightarrow> nat" where
  "pool_rank rank (Guard l) = rank l"
| "pool_rank rank PoolCurrentWork = 4"
| "pool_rank rank (OfMiner i l) = 5"

fun registering_rank :: "pool_lock \<Rightarrow> nat" where
  "registering_rank Miners = 0"
| "registering_rank MinerAccounts = 1"
| "registering_rank Stats = 2"
| "registering_rank Shares = 3"

fun submitting_rank :: "pool_lock \<Rightarrow> nat" where
  "submitting_rank Stats = 0"
| "submitting_rank MinerAccounts = 1"
| "submitting_rank Miners = 2"
| "submitting_rank Shares = 3"

lemma of_pool_ordered: "ordered (pool_rank rank) {} (of_pool p) = ordered rank {} p"
proof -
  have "pool_rank rank \<circ> Guard = rank" by (simp add: fun_eq_iff)
  with ordered_map_action [of Guard "pool_rank rank" "{}" p] show ?thesis
    by (simp add: of_pool_def inj_def)
qed

lemma mining_pool_ordered:
  assumes "rank Miners < rank Shares" "rank Stats < rank Shares" "rank Shares = 3" and "p \<in> mining_pool_programs"
  shows "ordered (pool_rank rank) {} p"
  using assms
  by (auto simp: mining_pool_programs_def of_pool_ordered nested_def get_miner_count_locks_def shares_read_locks_def
      accounts_read_locks_def clear_old_shares_locks_def get_pool_fee_collected_locks_def add_pool_fee_locks_def
      get_pool_efficiency_locks_def calculate_miner_payout_locks_def pool_process_payout_locks_def
      distribute_work_locks_def get_stats_locks_def get_average_hashrate_locks_def get_detailed_stats_locks_def
      each_miner_def intro!: ordered_guards [unfolded nested_def, simplified])

interpretation registering_locks: ranked_locks "pool_rank registering_rank"
    "mining_pool_programs \<union> {of_pool register_miner_locks, of_pool unregister_miner_locks}"
  by unfold_locales
     (auto simp: mining_pool_ordered of_pool_ordered register_miner_locks_def unregister_miner_locks_def nested_def)

interpretation submitting_locks: ranked_locks "pool_rank submitting_rank"
    "mining_pool_programs \<union> {of_pool submit_share_locks}"
  by unfold_locales (auto simp: mining_pool_ordered of_pool_ordered submit_share_locks_def nested_def)

section \<open>The output set\<close>

definition utxo_read_locks :: "utxo_lock action list" where
  "utxo_read_locks = nested [(Utxos, Read)]"

definition spend_utxo_locks :: "utxo_lock action list" where
  "spend_utxo_locks = nested [(Utxos, Write)]"

text \<open>The validation of a transaction looks up one output after another.\<close>

definition validate_with_utxo_set_locks :: "nat \<Rightarrow> utxo_lock action list" where
  "validate_with_utxo_set_locks lookups = concat (replicate lookups utxo_read_locks)"

definition utxo_programs :: "utxo_lock action list set" where
  "utxo_programs = {utxo_read_locks, spend_utxo_locks} \<union> range validate_with_utxo_set_locks"

fun adding_rank :: "utxo_lock \<Rightarrow> nat" where
  "adding_rank Utxos = 0"
| "adding_rank AddressUtxos = 1"

fun listing_rank :: "utxo_lock \<Rightarrow> nat" where
  "listing_rank AddressUtxos = 0"
| "listing_rank Utxos = 1"

lemma utxo_ordered: "p \<in> utxo_programs \<Longrightarrow> ordered rank {} p"
  by (auto simp: utxo_programs_def lock_order_simps utxo_read_locks_def spend_utxo_locks_def
      validate_with_utxo_set_locks_def)

interpretation adding_locks: ranked_locks adding_rank "utxo_programs \<union> {add_utxo_locks}"
  by unfold_locales (auto simp: utxo_ordered add_utxo_locks_def nested_def)

interpretation listing_locks: ranked_locks listing_rank "utxo_programs \<union> {get_address_utxos_locks}"
  by unfold_locales (auto simp: utxo_ordered get_address_utxos_locks_def nested_def)

section \<open>The transaction engine\<close>

definition get_or_create_account_locks :: "engine_lock action list" where
  "get_or_create_account_locks = nested [(EngineAccounts, Write)]"

definition submit_transaction_locks :: "bool \<Rightarrow> bool \<Rightarrow> engine_lock action list" where
  "submit_transaction_locks valid funded =
     (if valid
      then get_or_create_account_locks @ (if funded then nested [(EngineMempool, Write)] else [])
      else [])"

text \<open>The paths of an execution that changes no balance: a hash that is not in the mempool, and a sender
  without the money.\<close>

definition refused_execution_locks :: "bool \<Rightarrow> engine_lock action list" where
  "refused_execution_locks found =
     Acquire EngineMempool Write #
     (if found then get_or_create_account_locks @ nested [(EngineTransactions, Write), (EngineExecuted, Write)]
      else []) @
     [Release EngineMempool]"

definition mempool_read_locks :: "engine_lock action list" where
  "mempool_read_locks = nested [(EngineMempool, Read)]"

definition transactions_read_locks :: "engine_lock action list" where
  "transactions_read_locks = nested [(EngineTransactions, Read)]"

definition executed_read_locks :: "engine_lock action list" where
  "executed_read_locks = nested [(EngineExecuted, Read)]"

definition engine_programs :: "engine_lock action list set" where
  "engine_programs = {get_or_create_account_locks, mempool_read_locks, transactions_read_locks,
     executed_read_locks} \<union> range (\<lambda>(valid, funded). submit_transaction_locks valid funded)"

fun executing_rank :: "engine_lock \<Rightarrow> nat" where
  "executing_rank EngineMempool = 0"
| "executing_rank EngineAccounts = 1"
| "executing_rank EngineTransactions = 2"
| "executing_rank EngineExecuted = 3"

fun reporting_rank :: "engine_lock \<Rightarrow> nat" where
  "reporting_rank EngineAccounts = 0"
| "reporting_rank EngineTransactions = 1"
| "reporting_rank EngineMempool = 2"
| "reporting_rank EngineExecuted = 3"

lemma engine_ordered: "p \<in> engine_programs \<Longrightarrow> ordered rank {} p"
  by (auto simp: engine_programs_def nested_def get_or_create_account_locks_def mempool_read_locks_def
      transactions_read_locks_def executed_read_locks_def submit_transaction_locks_def)

lemma execution_ordered: "ordered executing_rank {} (execute_transaction_locks n)"
proof -
  have "ordered executing_rank {EngineMempool}
      (concat (replicate n (nested [(EngineAccounts, Write)] @ nested [(EngineAccounts, Write)])) @ rest)"
    if "ordered executing_rank {EngineMempool} rest" for rest
    using that by (induction n) (simp_all add: nested_def insert_commute insert_Diff_if)
  then show ?thesis by (simp add: execute_transaction_locks_def nested_def insert_Diff_if)
qed

interpretation executing_locks: ranked_locks executing_rank
    "engine_programs \<union> range execute_transaction_locks \<union> range refused_execution_locks"
  by unfold_locales
     (auto simp: engine_ordered execution_ordered refused_execution_locks_def get_or_create_account_locks_def
       nested_def)

interpretation reporting_locks: ranked_locks reporting_rank "engine_programs \<union> {engine_stats_locks}"
  by unfold_locales (auto simp: engine_ordered engine_stats_locks_def nested_def)

section \<open>The difficulty manager\<close>

definition early_difficulty_locks :: "difficulty_lock action list" where
  "early_difficulty_locks = nested [(BlockTimes, Read), (CurrentDifficulty, Read)]"

definition get_current_difficulty_locks :: "difficulty_lock action list" where
  "get_current_difficulty_locks = nested [(CurrentDifficulty, Read)]"

definition set_difficulty_locks :: "difficulty_lock action list" where
  "set_difficulty_locks = nested [(CurrentDifficulty, Write)]"

definition adjustments_read_locks :: "difficulty_lock action list" where
  "adjustments_read_locks = nested [(AdjustmentHistory, Read)]"

definition difficulty_programs :: "difficulty_lock action list set" where
  "difficulty_programs = {record_block_time_locks, get_current_difficulty_locks, set_difficulty_locks,
     adjustments_read_locks}"

fun calculating_rank :: "difficulty_lock \<Rightarrow> nat" where
  "calculating_rank BlockTimes = 0"
| "calculating_rank AdjustmentHistory = 1"
| "calculating_rank CurrentDifficulty = 2"

fun observing_rank :: "difficulty_lock \<Rightarrow> nat" where
  "observing_rank AdjustmentHistory = 0"
| "observing_rank BlockTimes = 1"
| "observing_rank CurrentDifficulty = 2"

lemma difficulty_ordered: "p \<in> difficulty_programs \<Longrightarrow> ordered rank {} p"
  by (auto simp: difficulty_programs_def nested_def record_block_time_locks_def get_current_difficulty_locks_def
      set_difficulty_locks_def adjustments_read_locks_def)

interpretation calculating_locks: ranked_locks calculating_rank
    "difficulty_programs \<union> {calculate_new_difficulty_locks, early_difficulty_locks}"
  by unfold_locales
     (auto simp: difficulty_ordered calculate_new_difficulty_locks_def early_difficulty_locks_def nested_def)

interpretation observing_locks: ranked_locks observing_rank
    "difficulty_programs \<union> {difficulty_stats_locks, early_difficulty_locks}"
  by unfold_locales
     (auto simp: difficulty_ordered difficulty_stats_locks_def early_difficulty_locks_def nested_def)

section \<open>Every conflict has two sides\<close>

text \<open>C23: The conflicts are the only ones: the operations of the mining pool always finish when no share is
  submitted, and also when no miner is registered or unregistered; those of the output set when no
  output is added, and when none are listed; those of the transaction engine when nothing is
  executed, and when no statistics are read; those of the difficulty manager when no difficulty is
  computed at an adjustment, and when no statistics are read.\<close>

theorem conflicts_have_two_sides:
  "operations_finish (mining_pool_programs \<union> {of_pool register_miner_locks, of_pool unregister_miner_locks}) \<and>
   operations_finish (mining_pool_programs \<union> {of_pool submit_share_locks}) \<and>
   operations_finish (utxo_programs \<union> {add_utxo_locks}) \<and>
   operations_finish (utxo_programs \<union> {get_address_utxos_locks}) \<and>
   operations_finish (engine_programs \<union> range execute_transaction_locks \<union> range refused_execution_locks) \<and>
   operations_finish (engine_programs \<union> {engine_stats_locks}) \<and>
   operations_finish (difficulty_programs \<union> {calculate_new_difficulty_locks, early_difficulty_locks}) \<and>
   operations_finish (difficulty_programs \<union> {difficulty_stats_locks, early_difficulty_locks})"
  by (intro conjI registering_locks.operations_finish submitting_locks.operations_finish
      adding_locks.operations_finish listing_locks.operations_finish executing_locks.operations_finish
      reporting_locks.operations_finish calculating_locks.operations_finish observing_locks.operations_finish)

end
