(* ===== verification/Concurrent_Submission.thy ===== *)
theory Concurrent_Submission
  imports Block_Submission
begin

text \<open>
  Submissions that run concurrently on one handler (\<open>src/block_submission.rs\<close>). Unlike the other
  methods that change a component, \<open>submit_block\<close> holds no lock from beginning to end: it reads
  \<open>prev_block_hash\<close>, lets go, builds, reads \<open>current_height\<close>, lets go, waits for the node, and writes
  both at the end. A task is therefore suspended between these parts, and \<open>resume\<close> runs the next one.
  Alone, a task computes \<open>submit_built_block\<close>; among others it keeps less of the chain.
\<close>

section \<open>Tasks\<close>

record submission_args =
  ag_nonce :: u32
  ag_height :: u64
  ag_miner :: string
  ag_reward :: u128
  ag_fees :: u128
  ag_bits :: u32

text \<open>Where a task of \<open>submit_block\<close>, or of \<open>get_stats\<close>, can be suspended.\<close>

datatype task =
    Started submission_args
  | BlockBuilt submission_args u64 block
  | BlockValid submission_args u64 block
  | NodeAccepted submission_args u64 block
  | Returned "string + submission_result"
  | StatsStarted
  | StatsHeight u64
  | StatsRead submission_stats

definition submission_outcome ::
    "(bytes \<Rightarrow> bytes) \<Rightarrow> (bytes \<Rightarrow> string) \<Rightarrow> submission_args \<Rightarrow> u64 \<Rightarrow> block \<Rightarrow> submission_status \<Rightarrow>
     string option \<Rightarrow> task" where
  "submission_outcome sha hex_encode a now bl status err =
     Returned (Inr \<lparr>sr_block_hash = block_hash_hex sha hex_encode bl, sr_block_height = ag_height a,
       sr_miner_address = ag_miner a, sr_status = status, sr_error = err, sr_timestamp = now\<rparr>)"

fun resume ::
    "build \<Rightarrow> (bytes \<Rightarrow> bytes) \<Rightarrow> (bytes \<Rightarrow> string) \<Rightarrow> (string \<Rightarrow> rpc_outcome) \<Rightarrow> string + u64 \<Rightarrow>
     submission_handler \<Rightarrow> task \<Rightarrow> (task \<times> submission_handler) option" where
  "resume b sha hex_encode node clock s (Started a) =
     (case clock of
        Inl e \<Rightarrow> Some (Returned (Inl (''Time error: '' @ e)), s)
      | Inr now \<Rightarrow>
          (case build_block clock (new_block_builder 1 (bs_prev_block_hash s) (replicate 32 0) (ag_bits a))
                  (ag_nonce a) (ag_height a) (ag_miner a) (ag_reward a) (ag_fees a) of
             Inl e \<Rightarrow> Some (Returned (Inl (''Block build failed: '' @ e)), s)
           | Inr bl \<Rightarrow> Some (BlockBuilt a now bl, s)))"
| "resume b sha hex_encode node clock s (BlockBuilt a now bl) =
     (case validate_block b clock s bl of
        None \<Rightarrow> None
      | Some (Inl e) \<Rightarrow> Some (submission_outcome sha hex_encode a now bl Rejected (Some e), s)
      | Some (Inr _) \<Rightarrow> Some (BlockValid a now bl, s))"
| "resume b sha hex_encode node clock s (BlockValid a now bl) =
     Some (case submit_to_node hex_encode node bl of
             Inr True \<Rightarrow> NodeAccepted a now bl
           | Inr False \<Rightarrow> submission_outcome sha hex_encode a now bl Rejected (Some ''Node rejected block'')
           | Inl e \<Rightarrow> submission_outcome sha hex_encode a now bl SubmissionFailed (Some e), s)"
| "resume b sha hex_encode node clock s (NodeAccepted a now bl) =
     Some (submission_outcome sha hex_encode a now bl Accepted None,
           update_prev_block_hash s (take 32 (block_hash sha bl)) (ag_height a))"
| "resume b sha hex_encode node clock s StatsStarted = Some (StatsHeight (bs_current_height s), s)"
| "resume b sha hex_encode node clock s (StatsHeight h) =
     Some (StatsRead \<lparr>ss_current_height = h, ss_prev_block_hash = hex_encode (bs_prev_block_hash s)\<rparr>, s)"
| "resume b sha hex_encode node clock s t = Some (t, s)"

text \<open>A task that nothing interrupts.\<close>

fun run_alone ::
    "nat \<Rightarrow> build \<Rightarrow> (bytes \<Rightarrow> bytes) \<Rightarrow> (bytes \<Rightarrow> string) \<Rightarrow> (string \<Rightarrow> rpc_outcome) \<Rightarrow> string + u64 \<Rightarrow>
     submission_handler \<Rightarrow> task \<Rightarrow> (task \<times> submission_handler) option" where
  "run_alone 0 b sha hex_encode node clock s t = Some (t, s)"
| "run_alone (Suc n) b sha hex_encode node clock s t =
     Option.bind (resume b sha hex_encode node clock s t)
       (\<lambda>(t, s). run_alone n b sha hex_encode node clock s t)"

lemma run_alone_steps:
  "run_alone 4 b sha hex_encode node clock s t =
     run_alone (Suc (Suc (Suc (Suc 0)))) b sha hex_encode node clock s t"
  "run_alone 2 b sha hex_encode node clock s t = run_alone (Suc (Suc 0)) b sha hex_encode node clock s t"
  by (simp_all only: numeral_eq_Suc pred_numeral_simps eval_nat_numeral BitM.simps)

lemma run_alone_submission:
  "run_alone 4 b sha hex_encode node clock s (Started \<lparr>ag_nonce = nonce, ag_height = height, ag_miner = addr,
       ag_reward = reward, ag_fees = fees, ag_bits = bits\<rparr>) =
   map_option (\<lambda>(r, s'). (Returned r, s'))
     (submit_built_block b sha hex_encode node clock s nonce height addr reward fees bits)"
proof (cases clock)
  case (Inl e)
  then show ?thesis by (simp add: submit_built_block_def run_alone_steps)
next
  case (Inr now)
  let ?bl = "built s now nonce height addr reward fees bits"
  show ?thesis
  proof (cases "validate_block b clock s ?bl")
    case None
    with Inr show ?thesis
      by (simp add: submit_built_block_def run_alone_steps build_block_built Let_def)
  next
    case (Some v)
    with Inr show ?thesis
      by (cases v)
         (auto simp: submit_built_block_def run_alone_steps build_block_built submission_outcome_def Let_def
            split: sum.split bool.split)
  qed
qed

lemma run_alone_stats:
  "run_alone 2 b sha hex_encode node clock s StatsStarted = Some (StatsRead (get_submission_stats hex_encode s), s)"
  by (simp add: run_alone_steps get_submission_stats_def)

section \<open>Runs of concurrent tasks\<close>

text \<open>The handler, its tasks, and the blocks the node has accepted, the newest first. Each part of a task
  has its own clock reading and its own answer of the node.\<close>

type_synonym submission_system = "submission_handler \<times> task list \<times> block list"

definition newly_accepted :: "task \<Rightarrow> task \<Rightarrow> block list" where
  "newly_accepted t t' =
     (case (t, t') of (BlockValid _ _ _, NodeAccepted _ _ bl) \<Rightarrow> [bl] | _ \<Rightarrow> [])"

inductive task_step ::
    "build \<Rightarrow> (bytes \<Rightarrow> bytes) \<Rightarrow> (bytes \<Rightarrow> string) \<Rightarrow> submission_system \<Rightarrow> submission_system \<Rightarrow> bool"
  for b sha hex_encode where
  submit: "task_step b sha hex_encode (s, ts, bls) (s, ts @ [Started a], bls)"
| stats: "task_step b sha hex_encode (s, ts, bls) (s, ts @ [StatsStarted], bls)"
| continue: "i < length ts \<Longrightarrow> resume b sha hex_encode node clock s (ts ! i) = Some (t, s') \<Longrightarrow>
     task_step b sha hex_encode (s, ts, bls) (s', ts[i := t], newly_accepted (ts ! i) t @ bls)"

inductive_cases task_stepE: "task_step b sha hex_encode c c'"

section \<open>What every run keeps\<close>

definition zeros :: bytes where
  "zeros = replicate 32 0"

definition parent_known :: "(bytes \<Rightarrow> bytes) \<Rightarrow> block list \<Rightarrow> bytes \<Rightarrow> bool" where
  "parent_known sha bls h \<longleftrightarrow> h = zeros \<or> (\<exists>bl \<in> set bls. h = take 32 (block_hash sha bl))"

definition height_known :: "block list \<Rightarrow> u64 \<Rightarrow> bool" where
  "height_known bls h \<longleftrightarrow> h = 0 \<or> (\<exists>bl \<in> set bls. h = bl_height bl)"

text \<open>The handler holds the hash and the height of one block.\<close>

definition tip_known :: "(bytes \<Rightarrow> bytes) \<Rightarrow> block list \<Rightarrow> bytes \<Rightarrow> u64 \<Rightarrow> bool" where
  "tip_known sha bls h height \<longleftrightarrow>
     h = zeros \<and> height = 0 \<or> (\<exists>bl \<in> set bls. h = take 32 (block_hash sha bl) \<and> height = bl_height bl)"

definition block_founded :: "(bytes \<Rightarrow> bytes) \<Rightarrow> block list \<Rightarrow> block \<Rightarrow> bool" where
  "block_founded sha bls bl \<longleftrightarrow>
     parent_known sha bls (bb_prev_block_hash (bl_header bl)) \<and> height_known bls (bl_height bl - 1) \<and>
     cb_miner_address (bl_coinbase bl) \<noteq> [] \<and> cb_reward_amount (bl_coinbase bl) \<noteq> 0"

fun task_founded :: "(bytes \<Rightarrow> bytes) \<Rightarrow> block list \<Rightarrow> task \<Rightarrow> bool" where
  "task_founded sha bls (BlockBuilt a now bl) =
     (bl_height bl = ag_height a \<and> parent_known sha bls (bb_prev_block_hash (bl_header bl)))"
| "task_founded sha bls (BlockValid a now bl) = (bl_height bl = ag_height a \<and> block_founded sha bls bl)"
| "task_founded sha bls (NodeAccepted a now bl) = (bl_height bl = ag_height a \<and> bl \<in> set bls)"
| "task_founded sha bls t = True"

fun chain_founded :: "(bytes \<Rightarrow> bytes) \<Rightarrow> block list \<Rightarrow> bool" where
  "chain_founded sha [] = True"
| "chain_founded sha (bl # bls) = (block_founded sha bls bl \<and> chain_founded sha bls)"

definition system_founded :: "(bytes \<Rightarrow> bytes) \<Rightarrow> submission_system \<Rightarrow> bool" where
  "system_founded sha c \<longleftrightarrow> (case c of (s, ts, bls) \<Rightarrow>
     tip_known sha bls (bs_prev_block_hash s) (bs_current_height s) \<and>
     (\<forall>t \<in> set ts. task_founded sha bls t) \<and> chain_founded sha bls)"

lemma tip_parent_known: "tip_known sha bls h height \<Longrightarrow> parent_known sha bls h"
  and tip_height_known: "tip_known sha bls h height \<Longrightarrow> height_known bls height"
  by (auto simp: tip_known_def parent_known_def height_known_def)

lemma founded_mono:
  assumes "set bls \<subseteq> set bls'"
  shows "parent_known sha bls h \<Longrightarrow> parent_known sha bls' h"
    and "height_known bls n \<Longrightarrow> height_known bls' n"
    and "tip_known sha bls h n \<Longrightarrow> tip_known sha bls' h n"
    and "block_founded sha bls bl \<Longrightarrow> block_founded sha bls' bl"
    and "task_founded sha bls t \<Longrightarrow> task_founded sha bls' t"
proof -
  show parent: "parent_known sha bls h \<Longrightarrow> parent_known sha bls' h" for h
    using assms by (auto simp: parent_known_def)
  show height: "height_known bls n \<Longrightarrow> height_known bls' n" for n
    using assms by (auto simp: height_known_def)
  show "tip_known sha bls h n \<Longrightarrow> tip_known sha bls' h n"
    using assms by (auto simp: tip_known_def)
  show block: "block_founded sha bls bl \<Longrightarrow> block_founded sha bls' bl" for bl
    using parent height by (simp add: block_founded_def)
  show "task_founded sha bls t \<Longrightarrow> task_founded sha bls' t"
    using assms parent block by (cases t) auto
qed

lemma validate_block_Inr:
  assumes "validate_block b clock s bl = Some (Inr u)"
  shows "bs_current_height s = bl_height bl - 1 \<and> cb_miner_address (bl_coinbase bl) \<noteq> [] \<and>
    cb_reward_amount (bl_coinbase bl) \<noteq> 0"
  using assms
  by (auto simp: validate_block_def bind_eq_Some_conv split: if_splits sum.splits dest!: add_w_Some)

lemma build_block_fields:
  assumes "build_block clock (new_block_builder 1 prev zs bits) nonce height addr reward fees = Inr bl"
  shows "bl_height bl = height \<and> bb_prev_block_hash (bl_header bl) = prev"
  using assms
  by (auto simp: build_block_def new_block_builder_def new_block_def new_bb_header_def split: sum.splits)

lemma resume_founded:
  assumes tip: "tip_known sha bls (bs_prev_block_hash s) (bs_current_height s)"
    and task: "task_founded sha bls t"
    and step: "resume b sha hex_encode node clock s t = Some (t', s')"
  shows "task_founded sha (newly_accepted t t' @ bls) t' \<and>
    tip_known sha (newly_accepted t t' @ bls) (bs_prev_block_hash s') (bs_current_height s') \<and>
    (\<forall>bl \<in> set (newly_accepted t t'). block_founded sha bls bl)"
proof (cases t)
  case (Started a)
  with step tip tip_parent_known [OF tip] show ?thesis
    by (auto simp: newly_accepted_def split: sum.splits dest: build_block_fields)
next
  case (BlockBuilt a now bl)
  with step tip task tip_height_known [OF tip] show ?thesis
    by (auto simp: newly_accepted_def submission_outcome_def block_founded_def
        split: option.splits sum.splits dest: validate_block_Inr)
next
  case (BlockValid a now bl)
  have "tip_known sha (bl # bls) (bs_prev_block_hash s) (bs_current_height s)"
    using tip by (rule founded_mono(3) [rotated]) auto
  with BlockValid step task tip show ?thesis
    by (auto simp: newly_accepted_def submission_outcome_def split: sum.splits bool.splits)
next
  case (NodeAccepted a now bl)
  with step task show ?thesis
    by (auto simp: newly_accepted_def submission_outcome_def update_prev_block_hash_def tip_known_def)
qed (use assms in \<open>auto simp: newly_accepted_def\<close>)

lemma task_step_founded:
  assumes "task_step b sha hex_encode c c'" and "system_founded sha c"
  shows "system_founded sha c'"
  using assms
proof (cases rule: task_step.cases)
  case (continue i ts node clock s t s' bls)
  let ?new = "newly_accepted (ts ! i) t"
  from continue assms(2) have tip: "tip_known sha bls (bs_prev_block_hash s) (bs_current_height s)"
    and tasks: "\<forall>t \<in> set ts. task_founded sha bls t" and chain: "chain_founded sha bls"
    by (simp_all add: system_founded_def)
  from resume_founded [OF tip _ continue(4)] tasks continue(3)
  have new: "task_founded sha (?new @ bls) t"
      "tip_known sha (?new @ bls) (bs_prev_block_hash s') (bs_current_height s')"
      "\<forall>bl \<in> set ?new. block_founded sha bls bl"
    by auto
  have "task_founded sha (?new @ bls) u" if "u \<in> set (ts[i := t])" for u
    using that new(1) tasks founded_mono(5) [of bls "?new @ bls"] set_update_subset_insert [of ts i t] by auto
  moreover have "chain_founded sha (?new @ bls)"
    using new(3) chain by (cases "(ts ! i, t)" rule: prod.exhaust)
      (auto simp: newly_accepted_def split: task.splits)
  ultimately show ?thesis using new(2) continue(2) by (simp add: system_founded_def)
qed (simp_all add: system_founded_def)

lemma chain_founded_split: "chain_founded sha (newer @ bl # older) \<Longrightarrow> block_founded sha older bl"
  by (induction newer) auto

lemma system_founded_reachable:
  "(task_step b sha hex_encode)\<^sup>*\<^sup>* (new_submission_handler, [], []) c \<Longrightarrow> system_founded sha c"
  by (induction rule: rtranclp_induct)
     (simp add: system_founded_def tip_known_def new_submission_handler_def zeros_def,
      blast intro: task_step_founded)

lemma newly_accepted_simps [simp]:
  "newly_accepted (Started a) t = []" "newly_accepted (BlockBuilt a now bl) t = []"
  "newly_accepted (NodeAccepted a now bl) t = []" "newly_accepted (Returned r) t = []"
  "newly_accepted (BlockValid a now bl) (NodeAccepted a' now' bl') = [bl']"
  "newly_accepted t (Returned r) = []"
  "newly_accepted StatsStarted t = []" "newly_accepted (StatsHeight h) t = []"
  by (auto simp: newly_accepted_def split: task.splits)

text \<open>C6: Whatever submissions and statistics run concurrently on a handler whose tip nobody else sets, and
  however they interleave:
  a block that the node has accepted names zeros or the hash of a block accepted before it, its
  height is one or one above that of a block accepted before it, and it has a miner address and a
  reward; the handler holds the hash and the height of one and the same accepted block, or its
  initial values.\<close>

theorem concurrent_blocks_founded:
  assumes "(task_step b sha hex_encode)\<^sup>*\<^sup>* (new_submission_handler, [], []) (s, ts, bls)"
    and "bls = newer @ bl # older"
  shows "(bb_prev_block_hash (bl_header bl) = replicate 32 0 \<or>
      (\<exists>bl' \<in> set older. bb_prev_block_hash (bl_header bl) = take 32 (block_hash sha bl'))) \<and>
    (bl_height bl = 1 \<or> (\<exists>bl' \<in> set older. bl_height bl = bl_height bl' + 1)) \<and>
    cb_miner_address (bl_coinbase bl) \<noteq> [] \<and> cb_reward_amount (bl_coinbase bl) \<noteq> 0 \<and>
    (bs_prev_block_hash s = replicate 32 0 \<and> bs_current_height s = 0 \<or>
     (\<exists>bl' \<in> set bls. bs_prev_block_hash s = take 32 (block_hash sha bl') \<and> bs_current_height s = bl_height bl'))"
proof -
  have founded: "system_founded sha (s, ts, bls)" by (rule system_founded_reachable [OF assms(1)])
  then have "block_founded sha older bl"
    using chain_founded_split assms(2) by (auto simp: system_founded_def)
  moreover from founded have "tip_known sha bls (bs_prev_block_hash s) (bs_current_height s)"
    by (simp add: system_founded_def)
  ultimately show ?thesis
    by (auto simp: block_founded_def parent_known_def height_known_def tip_known_def zeros_def
        eq_diff_eq diff_eq_eq)
qed

section \<open>Submissions that do not overlap\<close>

text \<open>Runs in which a submission starts only when every other has returned, and in which others may set
  the tip of the handler (\<open>update_prev_block_hash\<close>) while none is under way; statistics run at any time.
  The state keeps the tip that was last set, and the blocks that the node has accepted since then.\<close>

type_synonym serial_system = "submission_handler \<times> task list \<times> block list \<times> bytes \<times> u64"

fun quiet :: "task \<Rightarrow> bool" where
  "quiet (Started a) = False"
| "quiet (BlockBuilt a now bl) = False"
| "quiet (BlockValid a now bl) = False"
| "quiet (NodeAccepted a now bl) = False"
| "quiet t = True"

inductive serial_step ::
    "build \<Rightarrow> (bytes \<Rightarrow> bytes) \<Rightarrow> (bytes \<Rightarrow> string) \<Rightarrow> serial_system \<Rightarrow> serial_system \<Rightarrow> bool"
  for b sha hex_encode where
  submit: "list_all quiet ts \<Longrightarrow>
     serial_step b sha hex_encode (s, ts, bls, base) (s, ts @ [Started a], bls, base)"
| stats: "serial_step b sha hex_encode (s, ts, bls, base) (s, ts @ [StatsStarted], bls, base)"
| continue: "i < length ts \<Longrightarrow> resume b sha hex_encode node clock s (ts ! i) = Some (t, s') \<Longrightarrow>
     serial_step b sha hex_encode (s, ts, bls, base) (s', ts[i := t], newly_accepted (ts ! i) t @ bls, base)"
| update: "list_all quiet ts \<Longrightarrow>
     serial_step b sha hex_encode (s, ts, bls, base) (update_prev_block_hash s h height, ts, [], h, height)"

text \<open>The blocks count up from the height of the base, each naming the hash of the one before it.\<close>

definition chain_from :: "(bytes \<Rightarrow> bytes) \<Rightarrow> bytes \<Rightarrow> u64 \<Rightarrow> block list \<Rightarrow> bool" where
  "chain_from sha h0 n0 bls \<longleftrightarrow>
     (\<forall>i < length bls. bl_height (bls ! i) = n0 + of_nat (length bls - i) \<and>
        bb_prev_block_hash (bl_header (bls ! i)) =
          (if Suc i < length bls then take 32 (block_hash sha (bls ! Suc i)) else h0) \<and>
        cb_miner_address (bl_coinbase (bls ! i)) \<noteq> [] \<and> cb_reward_amount (bl_coinbase (bls ! i)) \<noteq> 0)"

definition at_tip :: "(bytes \<Rightarrow> bytes) \<Rightarrow> bytes \<Rightarrow> u64 \<Rightarrow> submission_handler \<Rightarrow> block list \<Rightarrow> bool" where
  "at_tip sha h0 n0 s bls \<longleftrightarrow> bs_current_height s = n0 + of_nat (length bls) \<and>
     bs_prev_block_hash s = (case bls of [] \<Rightarrow> h0 | bl # _ \<Rightarrow> take 32 (block_hash sha bl))"

fun fits :: "(bytes \<Rightarrow> bytes) \<Rightarrow> bytes \<Rightarrow> u64 \<Rightarrow> submission_handler \<Rightarrow> block list \<Rightarrow> task \<Rightarrow> bool" where
  "fits sha h0 n0 s bls (Started a) = at_tip sha h0 n0 s bls"
| "fits sha h0 n0 s bls (BlockBuilt a now bl) = (at_tip sha h0 n0 s bls \<and> bl_height bl = ag_height a \<and>
     bb_prev_block_hash (bl_header bl) = bs_prev_block_hash s)"
| "fits sha h0 n0 s bls (BlockValid a now bl) = (at_tip sha h0 n0 s bls \<and> bl_height bl = ag_height a \<and>
     bb_prev_block_hash (bl_header bl) = bs_prev_block_hash s \<and> bl_height bl = bs_current_height s + 1 \<and>
     cb_miner_address (bl_coinbase bl) \<noteq> [] \<and> cb_reward_amount (bl_coinbase bl) \<noteq> 0)"
| "fits sha h0 n0 s bls (NodeAccepted a now bl) = (\<exists>bls'. bls = bl # bls' \<and> at_tip sha h0 n0 s bls' \<and>
     bl_height bl = ag_height a)"
| "fits sha h0 n0 s bls t = True"

definition serial_ok :: "(bytes \<Rightarrow> bytes) \<Rightarrow> serial_system \<Rightarrow> bool" where
  "serial_ok sha c \<longleftrightarrow> (case c of (s, ts, bls, h0, n0) \<Rightarrow>
     chain_from sha h0 n0 bls \<and> (list_all quiet ts \<longrightarrow> at_tip sha h0 n0 s bls) \<and>
     (\<forall>t \<in> set ts. fits sha h0 n0 s bls t) \<and>
     (\<forall>i < length ts. \<forall>j < length ts. \<not> quiet (ts ! i) \<longrightarrow> \<not> quiet (ts ! j) \<longrightarrow> i = j))"

lemma fits_quiet: "quiet t \<Longrightarrow> fits sha h0 n0 s bls t"
  by (cases t) auto

lemma chain_from_Cons:
  assumes "chain_from sha h0 n0 bls" and "at_tip sha h0 n0 s bls" and "bl_height bl = bs_current_height s + 1"
    and "bb_prev_block_hash (bl_header bl) = bs_prev_block_hash s"
    and "cb_miner_address (bl_coinbase bl) \<noteq> []" and "cb_reward_amount (bl_coinbase bl) \<noteq> 0"
  shows "chain_from sha h0 n0 (bl # bls)"
  unfolding chain_from_def
proof (intro allI impI)
  fix i assume "i < length (bl # bls)"
  then show "bl_height ((bl # bls) ! i) = n0 + of_nat (length (bl # bls) - i) \<and>
      bb_prev_block_hash (bl_header ((bl # bls) ! i)) =
        (if Suc i < length (bl # bls) then take 32 (block_hash sha ((bl # bls) ! Suc i)) else h0) \<and>
      cb_miner_address (bl_coinbase ((bl # bls) ! i)) \<noteq> [] \<and> cb_reward_amount (bl_coinbase ((bl # bls) ! i)) \<noteq> 0"
    using assms by (cases i; cases bls) (simp_all add: at_tip_def chain_from_def)
qed

lemma resume_quiet:
  assumes "quiet t" and "resume b sha hex_encode node clock s t = Some (t', s')"
  shows "quiet t' \<and> s' = s \<and> newly_accepted t t' = []"
  using assms by (cases t) (auto simp: newly_accepted_def)

lemma resume_serial:
  assumes chain: "chain_from sha h0 n0 bls" and fits: "fits sha h0 n0 s bls t" and "\<not> quiet t"
    and step: "resume b sha hex_encode node clock s t = Some (t', s')"
  shows "chain_from sha h0 n0 (newly_accepted t t' @ bls) \<and> fits sha h0 n0 s' (newly_accepted t t' @ bls) t' \<and>
    (quiet t' \<longrightarrow> at_tip sha h0 n0 s' (newly_accepted t t' @ bls))"
proof (cases t)
  case (Started a)
  with assms show ?thesis by (auto split: sum.splits dest: build_block_fields)
next
  case (BlockBuilt a now bl)
  with assms show ?thesis
    by (auto simp: submission_outcome_def split: option.splits sum.splits dest: validate_block_Inr)
next
  case (BlockValid a now bl)
  have "chain_from sha h0 n0 (bl # bls)"
    using chain_from_Cons [OF chain] fits unfolding BlockValid fits.simps by blast
  with BlockValid assms show ?thesis
    by (auto simp: submission_outcome_def split: sum.splits bool.splits)
next
  case (NodeAccepted a now bl)
  with fits obtain bls' where bls: "bls = bl # bls'" "bl_height bl = ag_height a" by auto
  then have "bl_height bl = n0 + of_nat (length bls)" using chain by (auto simp: chain_from_def)
  with NodeAccepted step chain bls show ?thesis
    by (auto simp: submission_outcome_def update_prev_block_hash_def at_tip_def)
qed (use \<open>\<not> quiet t\<close> in auto)

lemma serial_step_ok:
  assumes "serial_step b sha hex_encode c c'" and "serial_ok sha c"
  shows "serial_ok sha c'"
  using assms
proof (cases rule: serial_step.cases)
  case (submit ts s bls base a)
  with assms(2) show ?thesis
    by (cases base) (auto simp: serial_ok_def nth_append list_all_length split: if_splits)
next
  case (stats s ts bls base)
  with assms(2) show ?thesis
    by (cases base) (auto simp: serial_ok_def nth_append list_all_length split: if_splits)
next
  case (update ts s bls base h height)
  with assms(2) show ?thesis
    by (cases base) (auto simp: serial_ok_def list_all_length chain_from_def at_tip_def
        update_prev_block_hash_def all_set_conv_all_nth intro!: fits_quiet)
next
  case (continue i ts node clock s t s' bls base)
  obtain h0 n0 where base: "base = (h0, n0)" by (cases base)
  let ?new = "newly_accepted (ts ! i) t @ bls"
  from assms(2) have ok: "chain_from sha h0 n0 bls" "list_all quiet ts \<longrightarrow> at_tip sha h0 n0 s bls"
      "fits sha h0 n0 s bls (ts ! i)"
    and fits: "\<forall>u \<in> set ts. fits sha h0 n0 s bls u"
    and one: "\<And>i j. i < length ts \<Longrightarrow> j < length ts \<Longrightarrow> \<not> quiet (ts ! i) \<Longrightarrow> \<not> quiet (ts ! j) \<Longrightarrow> i = j"
    using continue(3) by (simp_all add: serial_ok_def continue(1) base)
  show ?thesis
  proof (cases "quiet (ts ! i)")
    case True
    from resume_quiet [OF this continue(4)] have *: "quiet t" "s' = s" "?new = bls" by simp_all
    then have "list_all quiet (ts[i := t]) \<longleftrightarrow> list_all quiet ts"
      using True by (metis list_all_length length_list_update nth_list_update_eq nth_list_update_neq)
    moreover have "fits sha h0 n0 s bls u" if "u \<in> set (ts[i := t])" for u
      using that fits fits_quiet [OF *(1)] set_update_subset_insert [of ts i t] by auto
    moreover have "j = k" if "j < length ts" "k < length ts" "\<not> quiet (ts[i := t] ! j)" "\<not> quiet (ts[i := t] ! k)" for j k
      using one [OF that(1,2)] that(3,4) *(1) by (metis nth_list_update_eq nth_list_update_neq that(1,2))
    ultimately show ?thesis
      using * ok unfolding serial_ok_def continue(2) base prod.case length_list_update *(3) *(2) by blast
  next
    case False
    from resume_serial [OF ok(1,3) False continue(4)] have new: "chain_from sha h0 n0 ?new"
        "fits sha h0 n0 s' ?new t" "quiet t \<longrightarrow> at_tip sha h0 n0 s' ?new" by auto
    have others: "quiet (ts ! j)" if "j < length ts" "j \<noteq> i" for j
      using one [OF that(1) continue(3)] that False by blast
    then have "fits sha h0 n0 s' ?new u" if "u \<in> set (ts[i := t])" for u
    proof -
      from that obtain j where j: "j < length ts" "u = ts[i := t] ! j" by (auto simp: in_set_conv_nth)
      then show ?thesis using new(2) others fits_quiet by (cases "j = i") auto
    qed
    moreover have "list_all quiet (ts[i := t]) \<longrightarrow> quiet t"
      using continue(3) by (auto simp: list_all_length nth_list_update)
    moreover have "j = i" if "j < length ts" "\<not> quiet (ts[i := t] ! j)" for j
      using others [of j] that by (metis nth_list_update_neq)
    then have "j = k" if "j < length ts" "k < length ts" "\<not> quiet (ts[i := t] ! j)" "\<not> quiet (ts[i := t] ! k)" for j k
      using that by metis
    ultimately show ?thesis
      using new unfolding serial_ok_def continue(2) base prod.case length_list_update by blast
  qed
qed

lemma serial_ok_reachable:
  "(serial_step b sha hex_encode)\<^sup>*\<^sup>* (new_submission_handler, [], [], replicate 32 0, 0) c \<Longrightarrow> serial_ok sha c"
  by (induction rule: rtranclp_induct)
     (simp add: serial_ok_def chain_from_def at_tip_def new_submission_handler_def, blast intro: serial_step_ok)

text \<open>C5: Where submissions do not overlap, statistics may interleave with the parts of a submission
  anywhere: the blocks that the node has accepted since the tip of the handler was last set form a chain
  on that tip. Their heights count up from its height without a gap, each header names the first 32
  bytes of the hash of the block accepted before it, the first one the hash that was set (zeros for a
  new handler), and none lacks a miner address or a reward; whenever no submission is under way, the
  handler holds the height and the hash of the newest. Refused and failed submissions change none of
  this. Submissions that overlap can break it, as the schedules below show.\<close>

theorem serial_blocks_chain:
  assumes "(serial_step b sha hex_encode)\<^sup>*\<^sup>*
      (new_submission_handler, [], [], replicate 32 0, 0) (s, ts, bls, h0, n0)"
  shows "(\<forall>i < length bls. bl_height (bls ! i) = n0 + of_nat (length bls - i) \<and>
      bb_prev_block_hash (bl_header (bls ! i)) =
        (if Suc i < length bls then take 32 (block_hash sha (bls ! Suc i)) else h0) \<and>
      cb_miner_address (bl_coinbase (bls ! i)) \<noteq> [] \<and> cb_reward_amount (bl_coinbase (bls ! i)) \<noteq> 0) \<and>
      (list_all quiet ts \<longrightarrow> bs_current_height s = n0 + of_nat (length bls) \<and>
      bs_prev_block_hash s = (case bls of [] \<Rightarrow> h0 | bl # _ \<Rightarrow> take 32 (block_hash sha bl)))"
    (is "?A \<and> ?B")
proof -
  have "serial_ok sha (s, ts, bls, h0, n0)" using assms by (rule serial_ok_reachable)
  then have hA: ?A
    and hB: ?B
    by (simp_all add: serial_ok_def chain_from_def at_tip_def)
  show ?thesis by (rule conjI [OF hA hB])
qed

section \<open>Schedules\<close>

datatype task_event = Submit submission_args | AskStats | Continue nat

text \<open>A run in which the clock stands still and the node accepts every block.\<close>

fun play :: "build \<Rightarrow> (bytes \<Rightarrow> bytes) \<Rightarrow> (bytes \<Rightarrow> string) \<Rightarrow> u64 \<Rightarrow> task_event list \<Rightarrow> submission_system \<Rightarrow>
    submission_system option" where
  "play b sha hex_encode now [] c = Some c"
| "play b sha hex_encode now (Submit a # es) (s, ts, bls) = play b sha hex_encode now es (s, ts @ [Started a], bls)"
| "play b sha hex_encode now (AskStats # es) (s, ts, bls) = play b sha hex_encode now es (s, ts @ [StatsStarted], bls)"
| "play b sha hex_encode now (Continue i # es) (s, ts, bls) =
     (if i < length ts then
        (case resume b sha hex_encode (\<lambda>_. RpcReply True) (Inr now) s (ts ! i) of
           Some (t, s') \<Rightarrow> play b sha hex_encode now es (s', ts[i := t], newly_accepted (ts ! i) t @ bls)
         | None \<Rightarrow> None)
      else None)"

lemma play_sound: "play b sha hex_encode now es c = Some c' \<Longrightarrow> (task_step b sha hex_encode)\<^sup>*\<^sup>* c c'"
proof (induction b sha hex_encode now es c rule: play.induct)
  case (4 b sha hex_encode now i es s ts bls)
  then show ?case
    by (auto split: if_splits option.splits prod.splits
        intro: converse_rtranclp_into_rtranclp task_step.continue)
qed (auto intro: converse_rtranclp_into_rtranclp task_step.submit task_step.stats)

definition args_at :: "u32 \<Rightarrow> u64 \<Rightarrow> submission_args" where
  "args_at nonce height = \<lparr>ag_nonce = nonce, ag_height = height, ag_miner = ''miner'', ag_reward = 5000000000,
     ag_fees = 0, ag_bits = 0x1d00ffff\<rparr>"

definition block_at :: "bytes \<Rightarrow> u32 \<Rightarrow> u64 \<Rightarrow> block" where
  "block_at prev nonce height = built \<lparr>bs_prev_block_hash = prev, bs_current_height = 0\<rparr> 1700000000 nonce height
     ''miner'' 5000000000 0 0x1d00ffff"

lemma block_at_fields [simp]:
  "bl_height (block_at prev nonce height) = height"
  "bb_prev_block_hash (bl_header (block_at prev nonce height)) = prev"
  "bb_nonce (bl_header (block_at prev nonce height)) = nonce"
  "bb_version (bl_header (block_at prev nonce height)) = 1"
  "bb_timestamp (bl_header (block_at prev nonce height)) = 1700000000"
  "cb_miner_address (bl_coinbase (block_at prev nonce height)) = ''miner''"
  "cb_reward_amount (bl_coinbase (block_at prev nonce height)) = 5000000000"
  by (simp_all add: block_at_def built_def new_block_def new_bb_header_def new_coinbase_def)

lemma resume_start:
  "resume b sha hex_encode node (Inr 1700000000) s (Started (args_at nonce height)) =
     Some (BlockBuilt (args_at nonce height) 1700000000 (block_at (bs_prev_block_hash s) nonce height), s)"
  by (simp add: args_at_def build_block_built block_at_def built_def)

lemma resume_validate:
  assumes "bs_current_height s + 1 = height" and "height \<in> {1, 2}"
  shows "resume b sha hex_encode node (Inr 1700000000) s
       (BlockBuilt (args_at nonce height) 1700000000 (block_at prev nonce height)) =
     Some (BlockValid (args_at nonce height) 1700000000 (block_at prev nonce height), s)"
proof -
  have s: "bs_current_height s = height - 1" using assms(1) by (simp add: eq_diff_eq)
  have "validate_block b (Inr 1700000000) s (block_at prev nonce height) = Some (Inr ())"
    using assms(2) unfolding validate_block_def s
    by (cases b) (auto simp: add_w_def word_less_nat_alt unat_ucast_mod)
  then show ?thesis by simp
qed

lemma resume_accept:
  "resume b sha hex_encode (\<lambda>_. RpcReply True) clock s (BlockValid a now bl) = Some (NodeAccepted a now bl, s)"
  by (simp add: submit_to_node_def)

lemma resume_finish:
  "resume b sha hex_encode node clock s (NodeAccepted (args_at nonce height) now bl) =
     Some (submission_outcome sha hex_encode (args_at nonce height) now bl Accepted None,
       \<lparr>bs_prev_block_hash = take 32 (block_hash sha bl), bs_current_height = height\<rparr>)"
  by (simp add: update_prev_block_hash_def args_at_def)

lemma newly_accepted_outcome [simp]: "newly_accepted t (submission_outcome sha hex_encode a now bl st err) = []"
  by (simp add: submission_outcome_def)

lemmas play_simps = resume_start resume_validate resume_accept resume_finish resume.simps(5-8)
  new_submission_handler_def

text \<open>C7: What concurrency loses, whatever the hash function and the build: with a node that accepts what it
  is sent, two blocks of height one can be accepted, with the same parent; a block of height two
  can be accepted whose parent is not the accepted block of height one; the height of the handler
  can go back from two to one; and the statistics can pair the initial height with the hash of
  the block of height one.\<close>

theorem concurrent_submissions_fork:
  "(\<exists>s ts. (task_step b sha hex_encode)\<^sup>*\<^sup>* (new_submission_handler, [], [])
      (s, ts, [block_at (replicate 32 0) 6 1, block_at (replicate 32 0) 5 1])) \<and>
   (\<exists>s ts. (task_step b sha hex_encode)\<^sup>*\<^sup>* (new_submission_handler, [], [])
      (s, ts, [block_at (replicate 32 0) 6 2, block_at (replicate 32 0) 5 1])) \<and>
   (\<exists>s ts s' ts' bls. (task_step b sha hex_encode)\<^sup>*\<^sup>* (new_submission_handler, [], []) (s, ts, bls) \<and>
      bs_current_height s = 2 \<and> task_step b sha hex_encode (s, ts, bls) (s', ts', bls) \<and>
      bs_current_height s' = 1) \<and>
   (\<exists>s ts bls. (task_step b sha hex_encode)\<^sup>*\<^sup>* (new_submission_handler, [], []) (s, ts, bls) \<and>
      StatsRead \<lparr>ss_current_height = 0,
        ss_prev_block_hash = hex_encode (take 32 (block_hash sha (block_at (replicate 32 0) 5 1)))\<rparr> \<in> set ts)"
    (is "?fork \<and> ?orphan \<and> ?rewind \<and> ?torn")
proof (intro conjI)
  let ?run = "\<lambda>es c. play b sha hex_encode 1700000000 es (new_submission_handler, [], []) = Some c"
  have reach: "?run es c \<Longrightarrow> (task_step b sha hex_encode)\<^sup>*\<^sup>* (new_submission_handler, [], []) c" for es c
    by (rule play_sound)
  let ?twice = "map Continue [0, 1, 0, 1, 0, 1]"
  have "\<exists>s ts. ?run ([Submit (args_at 5 1), Submit (args_at 6 1)] @ ?twice)
      (s, ts, [block_at (replicate 32 0) 6 1, block_at (replicate 32 0) 5 1])"
    by (simp del: resume.simps add: play_simps)
  then show ?fork using reach by blast
  have "\<exists>s ts. ?run ([Submit (args_at 5 1), Submit (args_at 6 2)] @ map Continue [0, 1, 0, 0, 0, 1, 1])
      (s, ts, [block_at (replicate 32 0) 6 2, block_at (replicate 32 0) 5 1])"
    by (simp del: resume.simps add: play_simps)
  then show ?orphan using reach by blast
  have "\<exists>s ts bls. ?run ([Submit (args_at 5 1), Submit (args_at 6 1)] @ ?twice @ [Continue 0, Submit (args_at 7 2)] @
      map Continue [2, 2, 2, 2]) (s, ts, bls) \<and> bs_current_height s = 2 \<and> 1 < length ts \<and>
      ts ! 1 = NodeAccepted (args_at 6 1) 1700000000 (block_at (replicate 32 0) 6 1)"
    by (simp del: resume.simps add: play_simps)
  then obtain s ts bls where "?run ([Submit (args_at 5 1), Submit (args_at 6 1)] @ ?twice @
      [Continue 0, Submit (args_at 7 2)] @ map Continue [2, 2, 2, 2]) (s, ts, bls)"
    and s: "bs_current_height s = 2" "1 < length ts"
      "ts ! 1 = NodeAccepted (args_at 6 1) 1700000000 (block_at (replicate 32 0) 6 1)" by blast
  moreover have "\<exists>s' ts'. task_step b sha hex_encode (s, ts, bls) (s', ts', bls) \<and> bs_current_height s' = 1"
    using task_step.continue [of 1 ts b sha hex_encode _ _ s _ _ bls, OF s(2), unfolded s(3), OF resume_finish]
    by fastforce
  ultimately show ?rewind using reach by blast
  have "\<exists>s ts bls. ?run ([AskStats, Submit (args_at 5 1)] @ map Continue [0, 1, 1, 1, 1, 0]) (s, ts, bls) \<and>
      StatsRead \<lparr>ss_current_height = 0,
        ss_prev_block_hash = hex_encode (take 32 (block_hash sha (block_at (replicate 32 0) 5 1)))\<rparr> \<in> set ts"
    by (simp del: resume.simps add: play_simps)
  then show ?torn using reach by blast
qed

theorem concurrent_blocks_founded_witness:
  "\<exists>bl' \<in> {block_at (replicate 32 0) 5 1}. bl_height (block_at (replicate 32 0) 6 2) = bl_height bl' + 1"
proof -
  have "\<exists>s ts. play Debug id hex_of 1700000000 ([Submit (args_at 5 1), Submit (args_at 6 2)] @
      map Continue [0, 1, 0, 0, 0, 1, 1]) (new_submission_handler, [], []) =
      Some (s, ts, [block_at (replicate 32 0) 6 2, block_at (replicate 32 0) 5 1])"
    by (simp del: resume.simps add: play_simps)
  then obtain s ts where "(task_step Debug id hex_of)\<^sup>*\<^sup>* (new_submission_handler, [], [])
      (s, ts, [block_at (replicate 32 0) 6 2, block_at (replicate 32 0) 5 1])"
    using play_sound by blast
  from concurrent_blocks_founded [OF this, of "[]"] show ?thesis by simp
qed

lemma serial_alone:
  assumes "resume b sha hex_encode node clock s t = Some (t', s')"
  shows "serial_step b sha hex_encode (s, ts @ [t], bls, base) (s', ts @ [t'], newly_accepted t t' @ bls, base)"
  using serial_step.continue [of "length ts" "ts @ [t]" b sha hex_encode node clock s t' s' bls base] assms by simp

theorem serial_blocks_chain_witness:
  "\<exists>s ts. (serial_step Debug id hex_of)\<^sup>*\<^sup>* (new_submission_handler, [], [], replicate 32 0, 0)
      (s, ts, [block_at (replicate 32 7) 6 2], replicate 32 7, 1) \<and>
    bs_current_height s = 2 \<and> bs_prev_block_hash s = take 32 (block_hash id (block_at (replicate 32 7) 6 2))"
proof -
  let ?bl = "block_at (replicate 32 7) 6 2" and ?a = "args_at 6 2"
  let ?s = "\<lparr>bs_prev_block_hash = replicate 32 7, bs_current_height = 1\<rparr>"
  let ?s' = "\<lparr>bs_prev_block_hash = take 32 (block_hash id ?bl), bs_current_height = 2\<rparr>"
  let ?step = "serial_step Debug id hex_of" and ?base = "(replicate 32 7, 1)"
  let ?done = "submission_outcome id hex_of ?a 1700000000 ?bl Accepted None"
  note [simp del] = resume.simps(1-4)
  have "?step (new_submission_handler, [], [], replicate 32 0, 0) (?s, [], [], ?base)"
    using serial_step.update [of "[]" Debug id hex_of new_submission_handler "[]" "(replicate 32 0, 0)" "replicate 32 7" 1]
    by (simp add: update_prev_block_hash_def new_submission_handler_def)
  moreover have "?step (?s, [], [], ?base) (?s, [Started ?a], [], ?base)"
    using serial_step.submit [of "[]" Debug id hex_of ?s "[]" ?base ?a] by simp
  moreover have "?step (?s, [Started ?a], [], ?base) (?s, [BlockBuilt ?a 1700000000 ?bl], [], ?base)"
    using serial_alone [where ts = "[]" and bls = "[]" and base = ?base, OF resume_start [where b = Debug and sha = id and hex_encode = hex_of and s = ?s and nonce = 6 and height = 2]]
    by simp
  moreover have "?step (?s, [BlockBuilt ?a 1700000000 ?bl], [], ?base) (?s, [BlockValid ?a 1700000000 ?bl], [], ?base)"
    using serial_alone [where ts = "[]" and bls = "[]" and base = ?base, OF resume_validate [where b = Debug and sha = id and hex_encode = hex_of and s = ?s and nonce = 6 and height = 2 and prev = "replicate 32 7"]]
    by simp
  moreover have "?step (?s, [BlockValid ?a 1700000000 ?bl], [], ?base) (?s, [NodeAccepted ?a 1700000000 ?bl], [?bl], ?base)"
    using serial_alone [where ts = "[]" and bls = "[]" and base = ?base, OF resume_accept [where b = Debug and sha = id and hex_encode = hex_of and s = ?s and a = ?a and now = 1700000000 and bl = ?bl]]
    by simp
  moreover have "?step (?s, [NodeAccepted ?a 1700000000 ?bl], [?bl], ?base) (?s', [?done], [?bl], ?base)"
    using serial_alone [where ts = "[]" and bls = "[?bl]" and base = ?base, OF resume_finish [where b = Debug and sha = id and hex_encode = hex_of and s = ?s and nonce = 6 and height = 2 and now = 1700000000 and bl = ?bl]]
    by simp
  ultimately have run: "?step\<^sup>*\<^sup>* (new_submission_handler, [], [], replicate 32 0, 0) (?s', [?done], [?bl], ?base)"
    by (meson converse_rtranclp_into_rtranclp rtranclp.rtrancl_refl)
  have "list_all quiet [?done]" by (simp add: submission_outcome_def)
  with serial_blocks_chain [OF run] have "bs_current_height ?s' = 2 \<and>
      bs_prev_block_hash ?s' = take 32 (block_hash id ?bl)" by simp
  with run show ?thesis by blast
qed

end
