(* ===== verification/Json.thy ===== *)
theory Json
  imports Float64 Encoding Hash_Map
begin

text \<open>
  JSON values as \<open>serde_json::Value\<close> has them, with the accessors the crate uses, what a request to
  the node can yield, and the text formats of numbers (\<open>{:08x}\<close>, \<open>str::parse\<close>,
  \<open>from_str_radix\<close>). The text of a value (its \<open>Display\<close>) is an argument where it is needed.
\<close>

datatype json =
  JNull
| JBool bool
| JPos u64
| JNeg int
| JFloat f64
| JStr string
| JArr "json list"
| JObj "(string \<times> json) list"

definition json_get :: "json \<Rightarrow> string \<Rightarrow> json option" where
  "json_get v key = (case v of JObj m \<Rightarrow> map_of m key | _ \<Rightarrow> None)"

text \<open>\<open>v[key]\<close>, which is null when there is no such member.\<close>

definition json_index :: "json \<Rightarrow> string \<Rightarrow> json" where
  "json_index v key = (case json_get v key of Some x \<Rightarrow> x | None \<Rightarrow> JNull)"

definition as_u64 :: "json \<Rightarrow> u64 option" where
  "as_u64 v = (case v of JPos n \<Rightarrow> Some n | _ \<Rightarrow> None)"

definition as_i64 :: "json \<Rightarrow> int option" where
  "as_i64 v = (case v of JPos n \<Rightarrow> if unat n < 2 ^ 63 then Some (uint n) else None
                       | JNeg i \<Rightarrow> Some i | _ \<Rightarrow> None)"

definition as_f64 :: "json \<Rightarrow> f64 option" where
  "as_f64 v = (case v of JPos n \<Rightarrow> Some (f_of_w n) | JNeg i \<Rightarrow> Some (Num (rne (of_int i)))
                       | JFloat f \<Rightarrow> Some f | _ \<Rightarrow> None)"

definition as_str :: "json \<Rightarrow> string option" where
  "as_str v = (case v of JStr s \<Rightarrow> Some s | _ \<Rightarrow> None)"

definition as_bool :: "json \<Rightarrow> bool option" where
  "as_bool v = (case v of JBool b \<Rightarrow> Some b | _ \<Rightarrow> None)"

definition as_array :: "json \<Rightarrow> json list option" where
  "as_array v = (case v of JArr xs \<Rightarrow> Some xs | _ \<Rightarrow> None)"

abbreviation is_null :: "json \<Rightarrow> bool" where
  "is_null v \<equiv> v = JNull"

text \<open>\<open>json!\<close> makes a float that is not finite null.\<close>

definition json_of_f64 :: "f64 \<Rightarrow> json" where
  "json_of_f64 f = (case f of Num q \<Rightarrow> JFloat f | _ \<Rightarrow> JNull)"

text \<open>The answer to a request of the stratum protocol, as the pools' \<open>json!\<close> builds it.\<close>

definition response :: "json \<Rightarrow> json \<Rightarrow> json \<Rightarrow> json" where
  "response request_id result error = JObj [(''id'', request_id), (''result'', result), (''error'', error)]"

text \<open>\<open>str::starts_with\<close>, \<open>ends_with\<close>.\<close>

definition starts_with :: "string \<Rightarrow> string \<Rightarrow> bool" where
  "starts_with s prefix \<longleftrightarrow> take (length prefix) s = prefix"

definition ends_with :: "string \<Rightarrow> string \<Rightarrow> bool" where
  "ends_with s suffix \<longleftrightarrow> length suffix \<le> length s \<and> drop (length s - length suffix) s = suffix"

text \<open>\<open>slice::get\<close>.\<close>

definition nth_opt :: "'a list \<Rightarrow> nat \<Rightarrow> 'a option" where
  "nth_opt xs i = (if i < length xs then Some (xs ! i) else None)"

text \<open>What a request to the node yields: no answer in time, no answer, or an HTTP status with a
  body, which is \<open>Inl\<close> of the parser's error when it is not JSON.\<close>

datatype node_reply = NodeTimeout | NodeFailed string | NodeReply u16 "string + json"

section \<open>Numbers as text\<close>

fun hex_nat :: "nat \<Rightarrow> string" where
  "hex_nat n = (if n < 16 then [hex_digit n] else hex_nat (n div 16) @ [hex_digit (n mod 16)])"

declare hex_nat.simps [simp del]

text \<open>\<open>{:0Nx}\<close>.\<close>

definition fmt_hex :: "nat \<Rightarrow> 'a::len word \<Rightarrow> string" where
  "fmt_hex n w = replicate (n - length (hex_nat (unat w))) (CHR ''0'') @ hex_nat (unat w)"

definition fmt_int :: "int \<Rightarrow> string" where
  "fmt_int i = (if i < 0 then CHR ''-'' # fmt_nat (nat (- i)) else fmt_nat (nat i))"

text \<open>\<open>u64::from_str_radix\<close>: an optional plus sign, then at least one digit, no overflow.\<close>

definition digit_value :: "nat \<Rightarrow> char \<Rightarrow> nat option" where
  "digit_value radix c =
     (let n = of_char c :: nat;
          d = (if 48 \<le> n \<and> n \<le> 57 then Some (n - 48)
               else if 97 \<le> n \<and> n \<le> 122 then Some (n - 87)
               else if 65 \<le> n \<and> n \<le> 90 then Some (n - 55) else None)
      in case d of Some v \<Rightarrow> if v < radix then Some v else None | None \<Rightarrow> None)"

fun parse_digits :: "nat \<Rightarrow> nat \<Rightarrow> string \<Rightarrow> nat option" where
  "parse_digits radix acc [] = Some acc"
| "parse_digits radix acc (c # cs) =
     (case digit_value radix c of
        Some d \<Rightarrow> if 2 ^ 64 \<le> radix * acc + d then None else parse_digits radix (radix * acc + d) cs
      | None \<Rightarrow> None)"

definition parse_u64 :: "nat \<Rightarrow> string \<Rightarrow> u64 option" where
  "parse_u64 radix s =
     (let digits = (case s of c # cs \<Rightarrow> if c = CHR ''+'' then cs else s | [] \<Rightarrow> [])
      in if digits = [] then None else map_option of_nat (parse_digits radix 0 digits))"

lemma digit_value_fmt: "d < 10 \<Longrightarrow> digit_value 10 (digit_char d) = Some d"
  by (simp add: digit_value_def digit_char_def Let_def)

lemma parse_digits_append:
  "parse_digits r acc (xs @ ys) =
   (case parse_digits r acc xs of Some a \<Rightarrow> parse_digits r a ys | None \<Rightarrow> None)"
  by (induction r acc xs rule: parse_digits.induct) (auto split: option.splits)

lemma parse_digits_fmt: "n < 2 ^ 64 \<Longrightarrow> parse_digits 10 0 (fmt_nat n) = Some n"
proof (induction n rule: fmt_nat.induct)
  case (1 n)
  show ?case
  proof (cases "n < 10")
    case True
    then show ?thesis by (simp add: fmt_nat.simps [of n] digit_value_fmt)
  next
    case False
    have "parse_digits 10 0 (fmt_nat (n div 10)) = Some (n div 10)"
      using 1 False by (simp add: less_mult_imp_div_less)
    moreover have "10 * (n div 10) + n mod 10 = n" by simp
    ultimately show ?thesis
      using False "1.prems" by (simp add: fmt_nat.simps [of n] parse_digits_append digit_value_fmt)
  qed
qed

lemma fmt_nat_not_empty: "fmt_nat n \<noteq> []"
  by (simp add: fmt_nat.simps [of n])

text \<open>Printing a \<open>u64\<close> and parsing it gives it back.\<close>

lemma parse_fmt_u64: "parse_u64 10 (fmt_w (n :: u64)) = Some n"
proof -
  have no_plus: "CHR ''+'' \<notin> set (fmt_w n)" using set_fmt_nat [of "unat n"] by (auto simp: fmt_w_def)
  have "unat n < 2 ^ 64" using unat_lt_pow [of n] by simp
  then have "parse_digits 10 0 (fmt_w n) = Some (unat n)" by (simp add: fmt_w_def parse_digits_fmt)
  moreover have "fmt_w n \<noteq> []" by (simp add: fmt_w_def fmt_nat_not_empty)
  ultimately show ?thesis using no_plus by (cases "fmt_w n") (auto simp: parse_u64_def)
qed

lemma length_hex_nat: "n < 16 ^ k \<Longrightarrow> 0 < k \<Longrightarrow> length (hex_nat n) \<le> k"
proof (induction n arbitrary: k rule: hex_nat.induct)
  case (1 n)
  show ?case
  proof (cases "n < 16")
    case True
    with 1 show ?thesis by (simp add: hex_nat.simps [of n])
  next
    case False
    then obtain j where j: "k = Suc j" "0 < j" using 1 by (cases k; cases "k - 1") auto
    with 1 False have "length (hex_nat (n div 16)) \<le> j" by (simp add: less_mult_imp_div_less mult.commute)
    with False j show ?thesis by (simp add: hex_nat.simps [of n])
  qed
qed

lemma length_fmt_hex: "LENGTH('a::len) \<le> 4 * k \<Longrightarrow> 0 < k \<Longrightarrow> length (fmt_hex k (w :: 'a word)) = k"
proof -
  assume k: "LENGTH('a) \<le> 4 * k" "0 < k"
  have "unat w < 2 ^ LENGTH('a)" by (rule unat_lt_pow)
  also have "(2::nat) ^ LENGTH('a) \<le> 2 ^ (4 * k)" using k by (intro power_increasing) auto
  also have "(2::nat) ^ (4 * k) = 16 ^ k" by (simp add: power_mult)
  finally have "length (hex_nat (unat w)) \<le> k" using k by (intro length_hex_nat)
  then show ?thesis by (simp add: fmt_hex_def)
qed

end
