(* ===== verification/Stratum_Pool.thy ===== *)
theory Stratum_Pool
  imports Json Pow_Config Block_Validator Difficulty
begin

text \<open>
  The state of the stratum pool server and its operations (\<open>PoolState\<close> of
  \<open>src/stratum_pool.rs\<close>). The node is reached over HTTP: its replies are arguments
  (\<open>pool_env\<close>), as are the clock, the fresh identifiers, SHA-512, the hexadecimal and base-58
  codecs, \<open>f64::log2\<close> and \<open>powf\<close>, \<open>silver_core::MIST_PER_SLVR\<close>, the text of a JSON value and the
  reason phrase of an HTTP status. The connections are in \<open>Stratum_Session\<close>.
\<close>

record sp_config =
  sc_node_rpc_url :: string
  sc_pool_difficulty :: u64
  sc_min_difficulty :: u64
  sc_max_difficulty :: u64
  sc_share_timeout :: u64
  sc_pool_address :: string

record miner_session =
  se_miner_id :: string
  se_address :: string
  se_difficulty :: u64
  se_shares :: u64
  se_valid_shares :: u64
  se_invalid_shares :: u64
  se_last_share_time :: u64
  se_connected_time :: u64
  se_hashrate :: f64

record sp_work =
  sw_id :: string
  sw_header :: string
  sw_target :: string
  sw_height :: u64
  sw_timestamp :: u64

record pool_state =
  po_miners :: "(string, miner_session) hmap"
  po_current_work :: sp_work
  po_config :: sp_config
  po_total_shares :: u64
  po_total_valid_shares :: u64

text \<open>What the surroundings answer during one operation: the clock, a fresh identifier, and the
  node's replies to \<open>getdifficulty\<close> (asked by \<open>is_block_candidate\<close> and again by the submission),
  \<open>getblockhash\<close>, \<open>submitblock\<close> with the text of the block, and \<open>getblockcount\<close>.\<close>

record pool_env =
  pe_now :: u64
  pe_uuid :: string
  pe_candidate_difficulty :: node_reply
  pe_submit_difficulty :: node_reply
  pe_block_hash :: node_reply
  pe_submit :: "string \<Rightarrow> node_reply"
  pe_block_count :: node_reply

text \<open>The third-party functions.\<close>

record pool_lib =
  pl_hex_encode :: "bytes \<Rightarrow> string"
  pl_hex_decode :: "string \<Rightarrow> string + bytes"
  pl_base58_decode :: "string \<Rightarrow> bytes option"
  pl_alphanumeric :: "string \<Rightarrow> bool"
  pl_sha :: "bytes \<Rightarrow> bytes"
  pl_log2 :: "f64 \<Rightarrow> f64"
  pl_powf :: "f64 \<Rightarrow> f64 \<Rightarrow> f64"
  pl_mist :: u64
  pl_show :: "json \<Rightarrow> string"
  pl_reason :: "u16 \<Rightarrow> string option"

definition new_pool_state :: "string \<Rightarrow> u64 \<Rightarrow> sp_config \<Rightarrow> pool_state" where
  "new_pool_state uuid now c =
     \<lparr>po_miners = [],
      po_current_work = \<lparr>sw_id = uuid, sw_header = replicate 160 (CHR ''0''),
        sw_target = replicate 64 (CHR ''0''), sw_height = 1, sw_timestamp = now\<rparr>,
      po_config = c, po_total_shares = 0, po_total_valid_shares = 0\<rparr>"

section \<open>Requests to the node\<close>

text \<open>A request whose reply must hold a member \<open>result\<close> that \<open>f\<close> reads; \<open>f\<close> answers \<open>None\<close> where
  the code goes on to the member \<open>error\<close>.\<close>

definition read_reply :: "(json \<Rightarrow> string) \<Rightarrow> (json \<Rightarrow> (string + 'a) option) \<Rightarrow> node_reply \<Rightarrow> string + 'a" where
  "read_reply show f reply =
     (case reply of
        NodeTimeout \<Rightarrow> Inl ''RPC request timeout''
      | NodeFailed e \<Rightarrow> Inl (''HTTP request failed: '' @ e)
      | NodeReply status (Inl e) \<Rightarrow> Inl (''Failed to parse RPC response: '' @ e)
      | NodeReply status (Inr v) \<Rightarrow>
          (case Option.bind (json_get v ''result'') f of
             Some r \<Rightarrow> r
           | None \<Rightarrow>
               (case json_get v ''error'' of
                  Some e \<Rightarrow> Inl (''RPC error: '' @ show e)
                | None \<Rightarrow> Inl ''Invalid RPC response format'')))"

definition sync_block_height ::
    "build \<Rightarrow> (json \<Rightarrow> string) \<Rightarrow> pool_env \<Rightarrow> pool_state \<Rightarrow> ((string + u64) \<times> pool_state) option" where
  "sync_block_height b show env p =
     (case read_reply show (\<lambda>v. map_option Inr (as_u64 v)) (pe_block_count env) of
        Inl e \<Rightarrow> Some (Inl e, p)
      | Inr height \<Rightarrow> do {
          next_height \<leftarrow> add_w b height 1;
          Some (Inr height, p\<lparr>po_current_work := (po_current_work p)\<lparr>sw_height := next_height,
                  sw_id := pe_uuid env, sw_timestamp := pe_now env\<rparr>\<rparr>)
        })"

definition current_difficulty_from_node :: "(json \<Rightarrow> string) \<Rightarrow> node_reply \<Rightarrow> string + u64" where
  "current_difficulty_from_node show reply =
     read_reply show (\<lambda>v. Some (case as_u64 v of
         Some num \<Rightarrow> Inr num
       | None \<Rightarrow> (case as_f64 v of
             Some float_val \<Rightarrow> Inr (f_to_w float_val)
           | None \<Rightarrow> Inl ''Invalid difficulty format in RPC response''))) reply"

definition is_hexdigit :: "char \<Rightarrow> bool" where
  "is_hexdigit c \<longleftrightarrow> hex_value c \<noteq> None"

definition previous_block_hash :: "(json \<Rightarrow> string) \<Rightarrow> u64 \<Rightarrow> node_reply \<Rightarrow> string + string" where
  "previous_block_hash show height reply =
     (if height = 0 then Inr (replicate 128 (CHR ''0''))
      else read_reply show (\<lambda>v. map_option (\<lambda>h.
             if length h = 128 \<and> list_all is_hexdigit h then Inr h
             else Inl (''Invalid hash format: '' @ h)) (as_str v)) reply)"

section \<open>Miners and work\<close>

definition validate_pool_address :: "pool_lib \<Rightarrow> string \<Rightarrow> bool" where
  "validate_pool_address lib address \<longleftrightarrow>
     take 4 address = ''SLVR'' \<and> \<not> (length address < 86 \<or> length address > 92) \<and>
     pl_alphanumeric lib address \<and>
     (case pl_base58_decode lib (drop 4 address) of Some decoded \<Rightarrow> length decoded = 64 | None \<Rightarrow> False)"

definition register_pool_miner :: "pool_lib \<Rightarrow> pool_env \<Rightarrow> pool_state \<Rightarrow> string \<Rightarrow> (string + string) \<times> pool_state" where
  "register_pool_miner lib env p address =
     (if \<not> validate_pool_address lib address
      then (Inl (''Invalid miner address format: '' @ address @
                 '' (must be 512-bit SLVR address, 90-92 characters)''), p)
      else
        let miner_id = pe_uuid env;
            session = \<lparr>se_miner_id = miner_id, se_address = address,
              se_difficulty = sc_min_difficulty (po_config p), se_shares = 0, se_valid_shares = 0,
              se_invalid_shares = 0, se_last_share_time = pe_now env, se_connected_time = pe_now env,
              se_hashrate = Num 0\<rparr>
        in (Inr miner_id, p\<lparr>po_miners := hm_insert miner_id session (po_miners p)\<rparr>))"

definition get_work :: "pool_state \<Rightarrow> sp_work" where
  "get_work p = po_current_work p"

text \<open>The clock is \<open>None\<close> when it stands before the epoch; then a fallback is used.\<close>

definition clock_or :: "u64 \<Rightarrow> u64 option \<Rightarrow> u64" where
  "clock_or fallback clock = (case clock of Some now \<Rightarrow> now | None \<Rightarrow> fallback)"

definition update_work :: "u64 option \<Rightarrow> string \<Rightarrow> pool_state \<Rightarrow> string \<Rightarrow> string \<Rightarrow> u64 \<Rightarrow> pool_state" where
  "update_work clock uuid p header target height =
     (let work = po_current_work p;
          timestamp = clock_or (sw_timestamp work) clock
      in p\<lparr>po_current_work := \<lparr>sw_id = uuid, sw_header = header, sw_target = target,
             sw_height = height, sw_timestamp = timestamp\<rparr>\<rparr>)"

section \<open>Targets\<close>

text \<open>The target of a positive difficulty, built as in the block validator.\<close>

definition share_target :: "(f64 \<Rightarrow> f64) \<Rightarrow> u64 \<Rightarrow> bytes" where
  "share_target lg difficulty =
     (let log2_difficulty = lg (f_of_w difficulty);
          leading_zero_bits = (f_to_w log2_difficulty :: u32);
          leading_zero_bytes = unat (leading_zero_bits div 8);
          remaining_bits = leading_zero_bits mod 8;
          target = replicate (min leading_zero_bytes 64) 0x00 @
                   replicate (64 - min leading_zero_bytes 64) 0xFF
      in if remaining_bits > 0 \<and> leading_zero_bytes < 64
         then target[leading_zero_bytes := push_bit (unat (8 - remaining_bits)) 1 - 1]
         else target)"

definition validate_share_difficulty :: "pool_lib \<Rightarrow> string \<Rightarrow> u64 \<Rightarrow> bool" where
  "validate_share_difficulty lib h difficulty =
     (case pl_hex_decode lib h of
        Inl e \<Rightarrow> False
      | Inr hash_bytes \<Rightarrow>
          if length hash_bytes \<noteq> 64 then False
          else if difficulty = 0 then False
          else slice_le hash_bytes (share_target (pl_log2 lib) difficulty))"

definition is_block_candidate :: "pool_lib \<Rightarrow> pool_env \<Rightarrow> pool_state \<Rightarrow> string \<Rightarrow> bool" where
  "is_block_candidate lib env p h =
     (case pl_hex_decode lib h of
        Inl e \<Rightarrow> False
      | Inr hash_bytes \<Rightarrow>
          if length hash_bytes \<noteq> 64 then False
          else
            let network_difficulty =
                  (case current_difficulty_from_node (pl_show lib) (pe_candidate_difficulty env) of
                     Inr diff \<Rightarrow> diff | Inl e \<Rightarrow> sc_pool_difficulty (po_config p))
            in if network_difficulty = 0 then False
               else slice_le hash_bytes (share_target (pl_log2 lib) network_difficulty))"

text \<open>The compact bits that the submission computes inline.\<close>

definition pool_difficulty_bits :: "(f64 \<Rightarrow> f64) \<Rightarrow> (f64 \<Rightarrow> f64 \<Rightarrow> f64) \<Rightarrow> u64 \<Rightarrow> u32" where
  "pool_difficulty_bits lg powf difficulty =
     (if difficulty = 0 then 0
      else if difficulty = 1 then 0x1d00ffff
      else
        let max_target_bits = (0x1d00ffff :: u32);
            max_exponent = drop_bit 24 max_target_bits;
            max_mantissa = max_target_bits AND 0xFFFFFF;
            log2_max_target = f_add (f_mul (f_sub (f_of_w max_exponent) (Num 3)) (Num 8))
                                    (lg (f_of_w max_mantissa));
            log2_difficulty = lg (f_of_w difficulty);
            log2_target = f_sub log2_max_target log2_difficulty;
            exponent_f64 = f_add (f_ceil (f_div (f_sub log2_target (Num 23)) (Num 8))) (Num 3);
            exponent = (f_to_w (f_clamp exponent_f64 (Num 3) (Num 30)) :: u32);
            mantissa_bits = f_sub log2_target (f_mul (Num 8) (f_sub (f_of_w exponent) (Num 3)));
            mantissa_f64 = powf (Num 2) mantissa_bits;
            mantissa = min (max (f_to_w mantissa_f64 :: u32) 1) 0xFFFFFF
        in push_bit 24 (exponent AND 0xFF) OR (mantissa AND 0xFFFFFF))"

text \<open>The unused conversion kept beside it.\<close>

definition difficulty_to_bits :: "(f64 \<Rightarrow> f64) \<Rightarrow> u64 \<Rightarrow> u32" where
  "difficulty_to_bits lg difficulty =
     (if difficulty = 0 then 0
      else if difficulty = 1 then 0x20FFFFFF
      else
        let log2_difficulty = lg (f_of_w difficulty);
            leading_zero_bytes = (f_to_w (f_floor (f_div log2_difficulty (Num 8))) :: u32);
            exponent = sat_sub 64 leading_zero_bytes;
            mantissa = 0xFFFFFF
        in push_bit 24 (exponent AND 0xFF) OR (mantissa AND 0xFFFFFF))"

section \<open>Submitting a block\<close>

text \<open>The text sent to the node, from the text of the previous hash on.\<close>

definition block_text ::
    "pool_lib \<Rightarrow> string \<Rightarrow> string \<Rightarrow> u32 \<Rightarrow> u32 \<Rightarrow> u64 \<Rightarrow> string \<Rightarrow> u128 \<Rightarrow> string" where
  "block_text lib prev_hash h timestamp difficulty_bits nonce miner_address block_reward =
     fmt_hex 8 (1 :: u32) @ prev_hash @
     (if length h \<ge> 64 then take 64 h else replicate (64 - length h) (CHR ''0'') @ h) @
     fmt_hex 8 timestamp @ fmt_hex 8 difficulty_bits @ fmt_hex 16 nonce @
     pl_hex_encode lib (as_bytes miner_address) @ fmt_hex 16 block_reward @ fmt_hex 16 (0 :: u128)"

text \<open>The answer to \<open>submitblock\<close>. A null result, a string or anything else without an error counts
  as success.\<close>

definition submit_reply :: "pool_lib \<Rightarrow> string \<Rightarrow> node_reply \<Rightarrow> string + unit" where
  "submit_reply lib url reply =
     (case reply of
        NodeTimeout \<Rightarrow> Inl (''RPC request timeout (30 seconds) - node at '' @ url @ '' is not responding'')
      | NodeFailed e \<Rightarrow> Inl (''RPC request to node failed: '' @ e @ '' (check if node is running at '' @ url @ '')'')
      | NodeReply status body \<Rightarrow>
          if \<not> (200 \<le> status \<and> status < 300)
          then Inl (''HTTP error from node: '' @ fmt_w status @ '' '' @
                    (case pl_reason lib status of Some r \<Rightarrow> r | None \<Rightarrow> ''Unknown''))
          else (case body of
                  Inl e \<Rightarrow> Inl (''Failed to parse node response: '' @ e @ '' (response body may not be JSON)'')
                | Inr v \<Rightarrow>
                    (case json_get v ''error'' of
                       Some err \<Rightarrow>
                         if is_null err then Inr ()
                         else
                           let code = (case Option.bind (json_get err ''code'') as_i64 of Some c \<Rightarrow> c | None \<Rightarrow> - 1);
                               msg = (case Option.bind (json_get err ''message'') as_str of
                                        Some m \<Rightarrow> m | None \<Rightarrow> ''Unknown error'')
                           in Inl (''Node rejected block (code '' @ fmt_int code @ ''): '' @ msg)
                     | None \<Rightarrow> Inr ())))"

text \<open>Posting the block and, when the node takes it, the synchronisation of the height, whose own
  failure is only logged.\<close>

definition finish_submission ::
    "build \<Rightarrow> pool_lib \<Rightarrow> pool_env \<Rightarrow> pool_state \<Rightarrow> string \<Rightarrow> ((string + unit) \<times> pool_state) option" where
  "finish_submission b lib env p block_hex =
     (case submit_reply lib (sc_node_rpc_url (po_config p)) (pe_submit env block_hex) of
        Inl e \<Rightarrow> Some (Inl e, p)
      | Inr _ \<Rightarrow> do {
          (r, p) \<leftarrow> sync_block_height b (pl_show lib) env p;
          Some (Inr (), p)
        })"

definition submit_block_to_node ::
    "build \<Rightarrow> pool_lib \<Rightarrow> pool_env \<Rightarrow> pool_state \<Rightarrow> string \<Rightarrow> string \<Rightarrow> ((string + unit) \<times> pool_state) option" where
  "submit_block_to_node b lib env p h miner_address =
     (case pl_hex_decode lib h of
        Inl e \<Rightarrow> Some (Inl (''Invalid hash format: '' @ h @ '' (error: '' @ e @ '')''), p)
      | Inr hash_bytes \<Rightarrow>
          if length hash_bytes \<noteq> 64
          then Some (Inl (''Invalid hash length: expected 64 bytes, got '' @ fmt_nat (length hash_bytes)), p)
          else if miner_address = [] \<or> length miner_address > 100
          then Some (Inl (''Invalid miner address: length must be 1-100 characters, got '' @
                          fmt_nat (length miner_address)), p)
          else
            let nonce = (from_le_bytes (drop (length hash_bytes - 8) hash_bytes) :: u64) in
            if nonce = 0 then Some (Inl ''Invalid nonce: cannot be zero'', p)
            else
              let block_height = sw_height (po_current_work p);
                  network_difficulty =
                    (case current_difficulty_from_node (pl_show lib) (pe_submit_difficulty env) of
                       Inr diff \<Rightarrow> diff | Inl e \<Rightarrow> sc_pool_difficulty (po_config p))
              in if network_difficulty = 0
                 then Some (Inl ''Network difficulty is zero, cannot submit block'', p)
                 else do {
                   let difficulty_bits = pool_difficulty_bits (pl_log2 lib) (pl_powf lib) network_difficulty;
                   let block_reward = 50 * ucast (pl_mist lib);
                   prev_hash \<leftarrow> (case previous_block_hash (pl_show lib) block_height (pe_block_hash env) of
                       Inr ph \<Rightarrow> Some ph
                     | Inl e \<Rightarrow> do {
                         prev_height \<leftarrow> sub_w b block_height 1;
                         Some (pl_hex_encode lib (pl_sha lib (as_bytes (''block_height_'' @ fmt_w prev_height))))
                       });
                   let block_hex = block_text lib prev_hash h (ucast (pe_now env)) difficulty_bits nonce
                                     miner_address block_reward;
                   finish_submission b lib env p block_hex
                 })"

section \<open>Shares and statistics\<close>

text \<open>The session is updated in place, so an error of the block submission leaves the counters as
  they are by then. The clock is \<open>None\<close> when it stands before the epoch.\<close>

definition pool_submit_share ::
    "build \<Rightarrow> pool_lib \<Rightarrow> pool_env \<Rightarrow> u64 option \<Rightarrow> pool_state \<Rightarrow> string \<Rightarrow> u64 \<Rightarrow> string \<Rightarrow>
     ((string + bool) \<times> pool_state) option" where
  "pool_submit_share b lib env clock p miner_id nonce h =
     (case hm_get (po_miners p) miner_id of
        None \<Rightarrow> Some (Inl ''Miner not found'', p)
      | Some miner \<Rightarrow> do {
          shares \<leftarrow> add_w b (se_shares miner) 1;
          let miner = miner\<lparr>se_shares := shares\<rparr>;
          if validate_share_difficulty lib h (se_difficulty miner) then do {
            valid \<leftarrow> add_w b (se_valid_shares miner) 1;
            total_valid \<leftarrow> add_w b (po_total_valid_shares p) 1;
            let now = clock_or (se_connected_time miner) clock;
            since \<leftarrow> sub_w b now (se_connected_time miner);
            let elapsed = f_of_w (max since 1);
            let miner = miner\<lparr>se_valid_shares := valid,
                  se_hashrate := f_div (f_mul (f_of_w valid) (f_of_w (se_difficulty miner))) elapsed\<rparr>;
            let p = p\<lparr>po_total_valid_shares := total_valid,
                      po_miners := hm_insert miner_id miner (po_miners p)\<rparr>;
            if is_block_candidate lib env p h then do {
              (r, p) \<leftarrow> submit_block_to_node b lib env p h (se_address miner);
              Some (case r of Inl e \<Rightarrow> (Inl e, p) | Inr _ \<Rightarrow> (Inr True, p))
            }
            else Some (Inr True, p)
          }
          else do {
            invalid \<leftarrow> add_w b (se_invalid_shares miner) 1;
            Some (Inr False, p\<lparr>po_miners := hm_insert miner_id (miner\<lparr>se_invalid_shares := invalid\<rparr>)
                                (po_miners p)\<rparr>)
          }
        })"

definition get_session :: "pool_state \<Rightarrow> string \<Rightarrow> miner_session option" where
  "get_session p miner_id = hm_get (po_miners p) miner_id"

record sp_stats =
  st_connected_miners :: nat
  st_total_shares :: u64
  st_total_valid_shares :: u64
  st_total_hashrate :: f64
  st_pool_difficulty :: u64

definition sp_get_stats :: "pool_state \<Rightarrow> sp_stats" where
  "sp_get_stats p =
     \<lparr>st_connected_miners = length (po_miners p), st_total_shares = po_total_shares p,
      st_total_valid_shares = po_total_valid_shares p,
      st_total_hashrate = foldl f_add (Num 0) (map se_hashrate (hm_values (po_miners p))),
      st_pool_difficulty = sc_pool_difficulty (po_config p)\<rparr>"

section \<open>Accounting of shares\<close>

text \<open>The operations that change the state; identifiers of new miners are fresh.\<close>

inductive server_step :: "build \<Rightarrow> pool_lib \<Rightarrow> pool_state \<Rightarrow> pool_state \<Rightarrow> bool" for b lib where
  register: "hm_get (po_miners p) (pe_uuid env) = None \<Longrightarrow>
     register_pool_miner lib env p address = (r, p') \<Longrightarrow> server_step b lib p p'"
| update: "server_step b lib p (update_work clock uuid p header target height)"
| share: "pool_submit_share b lib env clock p miner_id nonce h = Some (rs, p') \<Longrightarrow> server_step b lib p p'"
| block: "submit_block_to_node b lib env p h address = Some (ru, p') \<Longrightarrow> server_step b lib p p'"
| sync: "sync_block_height b (pl_show lib) env p = Some (rh, p') \<Longrightarrow> server_step b lib p p'"

definition finite_rate :: "f64 \<Rightarrow> bool" where
  "finite_rate f \<longleftrightarrow> (\<exists>q. f = Num q \<and> 0 \<le> q)"

definition session_ok :: "pool_lib \<Rightarrow> sp_config \<Rightarrow> miner_session \<Rightarrow> bool" where
  "session_ok lib c s \<longleftrightarrow> se_shares s = se_valid_shares s + se_invalid_shares s \<and>
     se_difficulty s = sc_min_difficulty c \<and> validate_pool_address lib (se_address s) \<and>
     finite_rate (se_hashrate s)"

definition server_ok :: "pool_lib \<Rightarrow> pool_state \<Rightarrow> bool" where
  "server_ok lib p \<longleftrightarrow> hm_invar (po_miners p) \<and>
     (\<forall>k s. hm_get (po_miners p) k = Some s \<longrightarrow> session_ok lib (po_config p) s \<and> se_miner_id s = k) \<and>
     po_total_shares p = 0 \<and>
     po_total_valid_shares p = sum_list (map se_valid_shares (hm_values (po_miners p)))"

lemma hm_sum_insert:
  fixes f :: "'v \<Rightarrow> 'b::comm_monoid_add"
  assumes "hm_invar m"
  shows "sum_list (map f (hm_values (hm_insert k v m))) +
           (case hm_get m k of None \<Rightarrow> 0 | Some w \<Rightarrow> f w) =
         sum_list (map f (hm_values m)) + f v"
  using hm.total_insert [OF assms, of f k v] by (simp add: case_prod_beta' comp_def)

text \<open>Work updates change nothing else.\<close>

definition same_but_work :: "pool_state \<Rightarrow> pool_state \<Rightarrow> bool" where
  "same_but_work p p' \<longleftrightarrow> po_miners p' = po_miners p \<and> po_config p' = po_config p \<and>
     po_total_shares p' = po_total_shares p \<and> po_total_valid_shares p' = po_total_valid_shares p"

lemma sync_same: "sync_block_height b show env p = Some (r, p') \<Longrightarrow> same_but_work p p'"
  by (auto simp: sync_block_height_def same_but_work_def bind_eq_Some_conv split: sum.splits)

lemma finish_same: "finish_submission b lib env p t = Some (r, p') \<Longrightarrow> same_but_work p p'"
  by (cases "submit_reply lib (sc_node_rpc_url (po_config p)) (pe_submit env t)")
     (auto simp: finish_submission_def bind_eq_Some_conv same_but_work_def dest: sync_same)

lemma same_but_work_refl [simp]: "same_but_work p p"
  by (simp add: same_but_work_def)

lemma submit_block_same:
  assumes "submit_block_to_node b lib env p h address = Some (r, p')"
  shows "same_but_work p p'"
  using assms
  by (auto simp: submit_block_to_node_def Let_def bind_eq_Some_conv
      split: sum.splits if_splits dest: finish_same)

lemma server_ok_same: "same_but_work p p' \<Longrightarrow> server_ok lib p \<Longrightarrow> server_ok lib p'"
  by (simp add: server_ok_def same_but_work_def)

lemma server_ok_session:
  assumes "server_ok lib p" and "hm_get (po_miners p) k = Some s" and "session_ok lib (po_config p) s'"
    and "se_miner_id s' = k" and "tot + se_valid_shares s = po_total_valid_shares p + se_valid_shares s'"
  shows "server_ok lib (p\<lparr>po_total_valid_shares := tot, po_miners := hm_insert k s' (po_miners p)\<rparr>)"
proof -
  have inv: "hm_invar (po_miners p)" using assms(1) by (simp add: server_ok_def)
  have "sum_list (map se_valid_shares (hm_values (hm_insert k s' (po_miners p)))) + se_valid_shares s =
      tot + se_valid_shares s"
    using hm_sum_insert [OF inv, of se_valid_shares k s'] assms(1,2,5) by (simp add: server_ok_def)
  then have "tot = sum_list (map se_valid_shares (hm_values (hm_insert k s' (po_miners p))))" by simp
  with assms(1,3,4) inv show ?thesis by (simp add: server_ok_def hm_get_insert)
qed

text \<open>Where counting overflows there is no result; otherwise these are the results.\<close>

lemma share_overflow:
  assumes "hm_get (po_miners p) k = Some s" and "add_w b (se_shares s) 1 = None"
  shows "pool_submit_share b lib env clock p k nonce h = None"
  unfolding pool_submit_share_def assms option.case bind.simps by (rule refl)

lemma share_invalid_eq:
  assumes "hm_get (po_miners p) k = Some s" and "add_w b (se_shares s) 1 = Some shares"
    and "\<not> validate_share_difficulty lib h (se_difficulty s)"
  shows "pool_submit_share b lib env clock p k nonce h =
    do { inv \<leftarrow> add_w b (se_invalid_shares s) 1;
         Some (Inr False, p\<lparr>po_miners := hm_insert k
           (s\<lparr>se_shares := shares, se_invalid_shares := inv\<rparr>) (po_miners p)\<rparr>) }"
  unfolding pool_submit_share_def assms(1) option.case assms(2) bind.simps Let_def
  by (simp add: assms(3) cong: if_cong)

lemma share_valid_eq:
  assumes "hm_get (po_miners p) k = Some s" and "add_w b (se_shares s) 1 = Some shares"
    and "validate_share_difficulty lib h (se_difficulty s)"
  shows "pool_submit_share b lib env clock p k nonce h =
    do { va \<leftarrow> add_w b (se_valid_shares s) 1;
         tot \<leftarrow> add_w b (po_total_valid_shares p) 1;
         since \<leftarrow> sub_w b (clock_or (se_connected_time s) clock) (se_connected_time s);
         let p1 = p\<lparr>po_total_valid_shares := tot, po_miners := hm_insert k
           (s\<lparr>se_shares := shares, se_valid_shares := va, se_hashrate :=
               f_div (f_mul (f_of_w va) (f_of_w (se_difficulty s))) (f_of_w (max since 1))\<rparr>) (po_miners p)\<rparr>;
         if is_block_candidate lib env p1 h then do {
           (r, p2) \<leftarrow> submit_block_to_node b lib env p1 h (se_address s);
           Some (case r of Inl e \<Rightarrow> (Inl e, p2) | Inr _ \<Rightarrow> (Inr True, p2)) }
         else Some (Inr True, p1) }"
  unfolding pool_submit_share_def assms(1) option.case assms(2) bind.simps Let_def
  by (simp add: assms(3) cong: if_cong)
text \<open>The three outcomes of a share: no session, an invalid share, and a valid one, after which only
  the work may still change.\<close>

lemma finite_rate_share:
  "finite_rate (f_div (f_mul (f_of_w va) (f_of_w d)) (f_of_w (max (since :: u64) 1)))"
proof -
  have "0 < unat (max since 1)" by (auto simp: max_def unat_gt_0 word_le_nat_alt)
  then have "0 < rne (of_nat (unat (max since 1)))" by (rule rne_of_nat_pos)
  moreover have "0 \<le> rne (of_nat n)" for n by (simp add: rne_nonneg)
  ultimately show ?thesis
    by (auto simp: finite_rate_def f_of_w_Num simp del: of_nat_unat intro!: rne_nonneg divide_nonneg_pos mult_nonneg_nonneg)
qed

lemma pool_submit_share_cases:
  assumes "pool_submit_share b lib env clock p k nonce h = Some (r, p')"
  obtains (missing) "hm_get (po_miners p) k = None" "p' = p"
  | (invalid) s where "hm_get (po_miners p) k = Some s" "r = Inr False"
      "p' = p\<lparr>po_miners := hm_insert k
         (s\<lparr>se_shares := se_shares s + 1, se_invalid_shares := se_invalid_shares s + 1\<rparr>) (po_miners p)\<rparr>"
      "\<not> validate_share_difficulty lib h (se_difficulty s)"
  | (valid) s hr p1 where "hm_get (po_miners p) k = Some s" "finite_rate hr"
      "p1 = p\<lparr>po_total_valid_shares := po_total_valid_shares p + 1, po_miners := hm_insert k
         (s\<lparr>se_shares := se_shares s + 1, se_valid_shares := se_valid_shares s + 1, se_hashrate := hr\<rparr>)
         (po_miners p)\<rparr>"
      "same_but_work p1 p'" "validate_share_difficulty lib h (se_difficulty s)"
proof (cases "hm_get (po_miners p) k")
  case None
  have "p' = p" using assms unfolding pool_submit_share_def None option.case by blast
  with None show ?thesis by (rule missing)
next
  case (Some s)
  obtain shares where sh: "add_w b (se_shares s) 1 = Some shares"
    using share_overflow [OF Some] assms by fastforce
  show ?thesis
  proof (cases "validate_share_difficulty lib h (se_difficulty s)")
    case False
    obtain inv where i: "add_w b (se_invalid_shares s) 1 = Some inv"
      and r: "r = Inr False" "p' = p\<lparr>po_miners := hm_insert k
           (s\<lparr>se_shares := shares, se_invalid_shares := inv\<rparr>) (po_miners p)\<rparr>"
      using assms unfolding share_invalid_eq [OF Some sh False] bind_eq_Some_conv by blast
    show ?thesis
      by (rule invalid [OF Some r(1) _ False]) (simp only: r(2) add_w_Some [OF sh] add_w_Some [OF i])
  next
    case True
    obtain va tot hr p1 where v: "add_w b (se_valid_shares s) 1 = Some va"
        "add_w b (po_total_valid_shares p) 1 = Some tot"
      and p1: "p1 = p\<lparr>po_total_valid_shares := tot, po_miners := hm_insert k
         (s\<lparr>se_shares := shares, se_valid_shares := va, se_hashrate := hr\<rparr>) (po_miners p)\<rparr>"
      and hr: "finite_rate hr"
      and rest: "(if is_block_candidate lib env p1 h then do {
         (r, p2) \<leftarrow> submit_block_to_node b lib env p1 h (se_address s);
         Some (case r of Inl e \<Rightarrow> (Inl e, p2) | Inr _ \<Rightarrow> (Inr True, p2)) }
       else Some (Inr True, p1)) = Some (r, p')"
      using assms finite_rate_share unfolding share_valid_eq [OF Some sh True] Let_def bind_eq_Some_conv by blast
    have "same_but_work p1 p'"
    proof (cases "is_block_candidate lib env p1 h")
      case False
      with rest show ?thesis by simp
    next
      case True
      with rest obtain r' p'' where sb: "submit_block_to_node b lib env p1 h (se_address s) = Some (r', p'')"
        by (auto simp: bind_eq_Some_conv)
      with rest True have "p'' = p'" by (cases r') simp_all
      with sb show ?thesis using submit_block_same by blast
    qed
    then show ?thesis
      by (rule valid [OF Some hr _ _ True, rotated])
         (simp only: p1 add_w_Some [OF sh] add_w_Some [OF v(1)] add_w_Some [OF v(2)])
  qed
qed

lemma server_ok_share:
  assumes ok: "server_ok lib p" and step: "pool_submit_share b lib env clock p k nonce h = Some (r, p')"
  shows "server_ok lib p'"
  using step
proof (cases rule: pool_submit_share_cases)
  case missing
  with ok show ?thesis by simp
next
  case (invalid s)
  with ok have "session_ok lib (po_config p) s" "se_miner_id s = k" by (simp_all add: server_ok_def)
  with invalid server_ok_session [OF ok invalid(1), where tot = "po_total_valid_shares p"] show ?thesis
    by (simp add: session_ok_def)
next
  case (valid s hr p1)
  with ok have "session_ok lib (po_config p) s" "se_miner_id s = k" by (simp_all add: server_ok_def)
  with valid(2) have "server_ok lib p1"
    unfolding valid(3) by (intro server_ok_session [OF ok valid(1)]) (simp_all add: session_ok_def)
  with valid(4) show ?thesis by (rule server_ok_same)
qed

lemma server_ok_step: "server_step b lib p p' \<Longrightarrow> server_ok lib p \<Longrightarrow> server_ok lib p'"
proof (induction rule: server_step.induct)
  case (register p env address r p')
  show ?case
  proof (cases "validate_pool_address lib address")
    case False
    with register show ?thesis by (simp add: register_pool_miner_def)
  next
    case True
    have inv: "hm_invar (po_miners p)" using register by (simp add: server_ok_def)
    show ?thesis
      using register True hm_sum_insert [OF inv, of se_valid_shares "pe_uuid env"]
      by (auto simp: register_pool_miner_def Let_def server_ok_def session_ok_def hm_get_insert
            finite_rate_def
          split: if_splits)
  qed
next
  case (update p clock uuid header target height)
  then show ?case by (simp add: server_ok_def update_work_def Let_def)
next
  case (share env clock p miner_id nonce h rs p')
  then show ?case by (blast intro: server_ok_share)
next
  case (block env p h address ru p')
  then show ?case by (blast intro: server_ok_same submit_block_same)
next
  case (sync env p rh p')
  then show ?case by (blast intro: server_ok_same sync_same)
qed

lemma server_ok_reachable:
  assumes "(server_step b lib)\<^sup>*\<^sup>* (new_pool_state uuid now c) p"
  shows "server_ok lib p"
  using assms
proof (induction rule: rtranclp_induct)
  case base
  show ?case by (simp add: server_ok_def new_pool_state_def)
next
  case (step p p')
  then show ?case by (blast intro: server_ok_step)
qed

text \<open>The same operations with the log of the shares submitted for a known miner: the identifier of the
  miner and the hash submitted.\<close>

inductive counted_step ::
    "build \<Rightarrow> pool_lib \<Rightarrow> pool_state \<times> (string \<times> string) list \<Rightarrow> pool_state \<times> (string \<times> string) list \<Rightarrow> bool"
  for b lib where
  register: "hm_get (po_miners p) (pe_uuid env) = None \<Longrightarrow>
     register_pool_miner lib env p address = (r, p') \<Longrightarrow> counted_step b lib (p, subs) (p', subs)"
| update: "counted_step b lib (p, subs) (update_work clock uuid p header target height, subs)"
| share: "pool_submit_share b lib env clock p miner_id nonce h = Some (rs, p') \<Longrightarrow>
     counted_step b lib (p, subs)
       (p', if hm_get (po_miners p) miner_id = None then subs else subs @ [(miner_id, h)])"
| block: "submit_block_to_node b lib env p h address = Some (ru, p') \<Longrightarrow> counted_step b lib (p, subs) (p', subs)"
| sync: "sync_block_height b (pl_show lib) env p = Some (rh, p') \<Longrightarrow> counted_step b lib (p, subs) (p', subs)"

definition passing :: "pool_lib \<Rightarrow> sp_config \<Rightarrow> string \<Rightarrow> bool" where
  "passing lib c h = validate_share_difficulty lib h (sc_min_difficulty c)"

definition counted :: "pool_lib \<Rightarrow> sp_config \<Rightarrow> pool_state \<times> (string \<times> string) list \<Rightarrow> bool" where
  "counted lib c t \<longleftrightarrow> (case t of (p, subs) \<Rightarrow> server_ok lib p \<and> po_config p = c \<and>
     po_total_valid_shares p = of_nat (length (filter (\<lambda>(i, h). passing lib c h) subs)) \<and>
     (\<forall>k. hm_get (po_miners p) k = None \<longrightarrow> k \<notin> fst ` set subs) \<and>
     (\<forall>k s. hm_get (po_miners p) k = Some s \<longrightarrow>
       se_valid_shares s = of_nat (length (filter (\<lambda>(i, h). i = k \<and> passing lib c h) subs)) \<and>
       se_invalid_shares s = of_nat (length (filter (\<lambda>(i, h). i = k \<and> \<not> passing lib c h) subs))))"

lemma counted_same: "same_but_work p p' \<Longrightarrow> counted lib c (p, subs) \<Longrightarrow> counted lib c (p', subs)"
  unfolding counted_def prod.case using server_ok_same [of p p' lib] by (simp add: same_but_work_def)

lemma counted_share:
  assumes ok: "counted lib c (p, subs)" and step: "pool_submit_share b lib env clock p k nonce h = Some (r, p')"
  shows "counted lib c (p', if hm_get (po_miners p) k = None then subs else subs @ [(k, h)])"
  using step
proof (cases rule: pool_submit_share_cases)
  case missing
  with ok show ?thesis by simp
next
  case (invalid s)
  have "server_ok lib p'" using ok step server_ok_share by (auto simp: counted_def)
  moreover have "\<not> passing lib c h" using ok invalid by (simp add: counted_def server_ok_def session_ok_def passing_def)
  ultimately show ?thesis
    using ok invalid(1) unfolding invalid(3) by (auto simp: counted_def hm_get_insert)
next
  case (valid s hr p1)
  from ok have "server_ok lib p" by (simp add: counted_def)
  with valid(1) have so: "session_ok lib (po_config p) s" "se_miner_id s = k" by (simp_all add: server_ok_def)
  with valid(2) have "server_ok lib p1"
    unfolding valid(3) by (intro server_ok_session [OF \<open>server_ok lib p\<close> valid(1)]) (simp_all add: session_ok_def)
  moreover have "passing lib c h" using ok so valid(5) by (simp add: counted_def session_ok_def passing_def)
  ultimately have "counted lib c (p1, subs @ [(k, h)])"
    using ok valid(1) unfolding valid(3) by (auto simp: counted_def hm_get_insert)
  with valid(1,4) show ?thesis by (simp add: counted_same)
qed

lemma counted_step_ok: "counted_step b lib t t' \<Longrightarrow> counted lib c t \<Longrightarrow> counted lib c t'"
proof (induction rule: counted_step.induct)
  case (register p env address r p' subs)
  from register(3) have ok: "server_ok lib p" by (simp add: counted_def)
  have "server_ok lib p'"
    by (rule server_ok_step [OF server_step.register [OF register(1,2)] ok])
  moreover have "filter (\<lambda>(i, h). i = pe_uuid env \<and> P h) subs = []" for P
    using register(1,3) by (force simp: counted_def filter_empty_conv)
  moreover have "p' = p \<or> (\<exists>s. po_config p' = po_config p \<and>
      po_total_valid_shares p' = po_total_valid_shares p \<and> se_valid_shares s = 0 \<and> se_invalid_shares s = 0 \<and>
      po_miners p' = hm_insert (pe_uuid env) s (po_miners p))"
    using register(2) unfolding register_pool_miner_def Let_def
    by (cases "validate_pool_address lib address") (force, simp)
  ultimately show ?case
    using register(3) unfolding counted_def prod.case by (elim disjE exE conjE) (simp_all add: hm_get_insert)
next
  case (update p subs clock uuid header target height)
  have "server_ok lib p \<Longrightarrow> server_ok lib (update_work clock uuid p header target height)"
    by (rule server_ok_step [OF server_step.update])
  moreover have "po_miners (update_work clock uuid p header target height) = po_miners p"
    "po_config (update_work clock uuid p header target height) = po_config p"
    "po_total_valid_shares (update_work clock uuid p header target height) = po_total_valid_shares p"
    by (simp_all add: update_work_def Let_def)
  ultimately show ?case using update unfolding counted_def prod.case by (elim conjE) simp
next
  case (share env clock p miner_id nonce h rs p' subs)
  from share(2) share(1) show ?case by (rule counted_share)
next
  case (block env p h address ru p' subs)
  from submit_block_same [OF block(1)] block(2) show ?case by (rule counted_same)
next
  case (sync env p rh p' subs)
  from sync_same [OF sync(1)] sync(2) show ?case by (rule counted_same)
qed

lemma counted_reachable:
  "(counted_step b lib)\<^sup>*\<^sup>* (new_pool_state uuid now c, []) t \<Longrightarrow> counted lib c t"
  by (induction rule: rtranclp_induct)
     (simp add: counted_def server_ok_def new_pool_state_def, blast intro: counted_step_ok)

text \<open>C1: In every state that a pool reaches, in either build, each session has counted every share that
  was submitted for it exactly once (the counters are 64 bits wide): its valid shares are those whose
  hash meets the target of the configured minimum difficulty, its invalid shares the others, and its
  shares all of them. Its difficulty is that minimum and its address has passed validation. The pool's
  total of valid shares counts the valid shares of all sessions and is the sum of their counters; the
  pool's total of shares is incremented nowhere and stays zero.\<close>

theorem share_accounting:
  assumes "(counted_step b lib)\<^sup>*\<^sup>* (new_pool_state uuid now c, []) (p, subs)"
  shows "(po_total_valid_shares p = sum_list (map se_valid_shares (hm_values (po_miners p)))) \<and>
      (po_total_valid_shares p =
      of_nat (length (filter (\<lambda>(i, h). validate_share_difficulty lib h (sc_min_difficulty c)) subs))) \<and>
      (st_total_shares (sp_get_stats p) = 0) \<and>
      (\<forall>k s. hm_get (po_miners p) k = Some s \<longrightarrow>
       se_shares s = of_nat (length (filter (\<lambda>(i, h). i = k) subs)) \<and>
       se_valid_shares s = of_nat (length (filter
         (\<lambda>(i, h). i = k \<and> validate_share_difficulty lib h (sc_min_difficulty c)) subs)) \<and>
       se_shares s = se_valid_shares s + se_invalid_shares s \<and>
       se_difficulty s = sc_min_difficulty c \<and> validate_pool_address lib (se_address s))"
    (is "?A \<and> ?B \<and> ?C \<and> ?D")
proof -
  have ok: "counted lib c (p, subs)" using assms by (rule counted_reachable)
  have split: "length (filter (\<lambda>(i, h). i = k \<and> passing lib c h) subs) +
      length (filter (\<lambda>(i, h). i = k \<and> \<not> passing lib c h) subs) = length (filter (\<lambda>(i, h). i = k) subs)" for k
    by (induction subs) auto
  have hA: ?A
    and hB: ?B
    and hC: ?C
    using ok unfolding counted_def server_ok_def passing_def prod.case sp_get_stats_def sp_stats.select_convs by blast+
  have hD: ?D
    using ok unfolding counted_def server_ok_def session_ok_def prod.case
    by (simp add: passing_def flip: split of_nat_add)
  show ?thesis by (rule conjI [OF hA conjI [OF hB conjI [OF hC hD]]])
qed

definition sample_lib :: pool_lib where
  "sample_lib = \<lparr>pl_hex_encode = hex_of, pl_hex_decode = hex_read,
     pl_base58_decode = (\<lambda>s. Some (replicate 64 0)), pl_alphanumeric = (\<lambda>s. True),
     pl_sha = (\<lambda>x. replicate 64 0), pl_log2 = log2_floor, pl_powf = (\<lambda>x y. Num 1),
     pl_mist = 100000000, pl_show = (\<lambda>v. ''?''), pl_reason = (\<lambda>s. None)\<rparr>"

definition sample_config :: sp_config where
  "sample_config = \<lparr>sc_node_rpc_url = ''http://localhost:8332'', sc_pool_difficulty = 1000000000,
     sc_min_difficulty = 1000, sc_max_difficulty = 1000000000, sc_share_timeout = 300, sc_pool_address = ''''\<rparr>"

definition sample_env :: pool_env where
  "sample_env = \<lparr>pe_now = 1700000000, pe_uuid = ''m1'', pe_candidate_difficulty = NodeTimeout,
     pe_submit_difficulty = NodeTimeout, pe_block_hash = NodeTimeout, pe_submit = (\<lambda>_. NodeTimeout),
     pe_block_count = NodeTimeout\<rparr>"

definition sample_address :: string where
  "sample_address = ''SLVR'' @ replicate 86 (CHR ''1'')"

definition sample_server :: pool_state where
  "sample_server = snd (register_pool_miner sample_lib sample_env (new_pool_state ''w'' 1 sample_config) sample_address)"

lemma sample_address_valid: "validate_pool_address sample_lib sample_address"
  by (simp add: validate_pool_address_def sample_address_def sample_lib_def)

definition sample_session :: miner_session where
  "sample_session = \<lparr>se_miner_id = ''m1'', se_address = sample_address, se_difficulty = 1000, se_shares = 0,
     se_valid_shares = 0, se_invalid_shares = 0, se_last_share_time = 1700000000,
     se_connected_time = 1700000000, se_hashrate = Num 0\<rparr>"

lemma sample_server_miners: "po_miners sample_server = [(''m1'', sample_session)]"
  using sample_address_valid
  by (simp add: sample_server_def register_pool_miner_def sample_session_def sample_env_def
      new_pool_state_def sample_config_def Let_def)

lemma sample_server_reachable: "(server_step b sample_lib)\<^sup>*\<^sup>* (new_pool_state ''w'' 1 sample_config) sample_server"
  unfolding sample_server_def
  by (rule r_into_rtranclp, rule server_step.register [OF _ prod.collapse [symmetric]])
     (simp add: new_pool_state_def)

lemma short_hash_invalid: "validate_share_difficulty sample_lib ''00'' d = False"
proof -
  have "hex_read ''00'' = Inr [0]" by code_simp
  then show ?thesis by (simp add: validate_share_difficulty_def sample_lib_def)
qed

text \<open>One share whose hash has a single byte: an invalid share.\<close>

definition sample_server_share :: "(string + bool) \<times> pool_state" where
  "sample_server_share = the (pool_submit_share Debug sample_lib sample_env (Some 1700000001) sample_server ''m1'' 5 ''00'')"

lemma sample_server_share_eq:
  "pool_submit_share Debug sample_lib sample_env (Some 1700000001) sample_server ''m1'' 5 ''00'' = Some sample_server_share"
  "po_miners (snd sample_server_share) = [(''m1'', sample_session\<lparr>se_shares := 1, se_invalid_shares := 1\<rparr>)]"
proof -
  have m: "hm_get (po_miners sample_server) ''m1'' = Some sample_session" by (simp add: sample_server_miners)
  have *: "add_w Debug (0 :: u64) 1 = Some 1" by (simp add: add_w_def)
  have "pool_submit_share Debug sample_lib sample_env (Some 1700000001) sample_server ''m1'' 5 ''00'' =
      Some (Inr False, sample_server\<lparr>po_miners := hm_insert ''m1''
        (sample_session\<lparr>se_shares := 1, se_invalid_shares := 1\<rparr>) (po_miners sample_server)\<rparr>)"
    by (subst share_invalid_eq [OF m, of Debug 1]) (simp_all add: short_hash_invalid sample_session_def *)
  then show
    "pool_submit_share Debug sample_lib sample_env (Some 1700000001) sample_server ''m1'' 5 ''00'' = Some sample_server_share"
    "po_miners (snd sample_server_share) = [(''m1'', sample_session\<lparr>se_shares := 1, se_invalid_shares := 1\<rparr>)]"
    by (simp_all add: sample_server_share_def sample_server_miners)
qed

lemma sample_server_counted:
  "(counted_step Debug sample_lib)\<^sup>*\<^sup>* (new_pool_state ''w'' 1 sample_config, []) (snd sample_server_share, [(''m1'', ''00'')])"
proof -
  have "counted_step Debug sample_lib (new_pool_state ''w'' 1 sample_config, []) (sample_server, [])"
    unfolding sample_server_def
    by (rule counted_step.register [OF _ prod.collapse [symmetric]]) (simp add: new_pool_state_def)
  moreover have "counted_step Debug sample_lib (sample_server, []) (snd sample_server_share, [(''m1'', ''00'')])"
    using counted_step.share [of Debug sample_lib sample_env "Some 1700000001" sample_server "''m1''" 5 "''00''"
        "fst sample_server_share" "snd sample_server_share" "[]"]
    by (simp add: sample_server_share_eq(1) sample_server_miners)
  ultimately show ?thesis by (meson converse_rtranclp_into_rtranclp rtranclp.rtrancl_refl)
qed

theorem share_accounting_witness:
  "\<exists>s. hm_get (po_miners (snd sample_server_share)) ''m1'' = Some s \<and> se_shares s = 1 \<and> se_valid_shares s = 0 \<and>
    po_total_valid_shares (snd sample_server_share) = 0"
  using share_accounting [OF sample_server_counted]
  by (simp add: sample_server_share_eq(2) sample_session_def short_hash_invalid)

section \<open>Agreement with the other components\<close>

lemma share_target_validator: "d \<noteq> 0 \<Longrightarrow> validator_target lg d = Inr (share_target lg d)"
  by (simp add: validator_target_def share_target_def Let_def)

lemma share_valid_iff:
  assumes "log2_faithful (pl_log2 lib)"
  shows "validate_share_difficulty lib h d \<longleftrightarrow> d \<noteq> 0 \<and>
    (\<exists>bs. pl_hex_decode lib h = Inr bs \<and> length bs = 64 \<and>
       required_bits (pl_log2 lib) d \<le> count_leading_zeros bs)"
proof (cases "d = 0")
  case True
  then show ?thesis by (auto simp: validate_share_difficulty_def split: sum.splits)
next
  case False
  note r = required_bits_bounds [OF assms False]
  obtain t where t: "share_target (pl_log2 lib) d = t" "length t = 64"
    "be_nat t = 2 ^ (512 - required_bits (pl_log2 lib) d) - 1"
    using validator_target_be [OF False, of "pl_log2 lib"] share_target_validator [OF False] r(2) by auto
  have "slice_le bs t \<longleftrightarrow> required_bits (pl_log2 lib) d \<le> count_leading_zeros bs" if "length bs = 64" for bs
  proof -
    have "slice_le bs t \<longleftrightarrow> be_nat bs \<le> 2 ^ (512 - required_bits (pl_log2 lib) d) - 1"
      using slice_le_be_nat [of bs t] that t by simp
    also have "\<dots> \<longleftrightarrow> be_nat bs < 2 ^ (512 - required_bits (pl_log2 lib) d)"
      by (metis One_nat_def Suc_pred less_Suc_eq_le pos2 zero_less_power)
    finally show ?thesis using leading_zeros_iff [of "required_bits (pl_log2 lib) d" bs] that r(2) by simp
  qed
  with False t(1) show ?thesis by (auto simp: validate_share_difficulty_def split: sum.splits)
qed

text \<open>C27: The pool repeats two computations of the crate, and agrees with both: its share target is the
  target of the block validator, so that a share is valid exactly when its hash is 64 bytes with the
  leading zero bits that the validator would ask for at that difficulty, and the compact bits that it
  submits are those of \<open>calculate_difficulty_bits\<close>.\<close>

theorem pool_agrees_with_validator:
  assumes "log2_faithful (pl_log2 lib)" and "d \<noteq> 0"
  shows "validator_target (pl_log2 lib) d = Inr (share_target (pl_log2 lib) d) \<and>
    (validate_share_difficulty lib h d =
       (\<exists>bs. pl_hex_decode lib h = Inr bs \<and> length bs = 64 \<and>
          required_bits (pl_log2 lib) d \<le> count_leading_zeros bs)) \<and>
    pool_difficulty_bits (pl_log2 lib) (pl_powf lib) d = calculate_difficulty_bits (pl_log2 lib) (pl_powf lib) d"
proof -
  have "pool_difficulty_bits (pl_log2 lib) (pl_powf lib) d = calculate_difficulty_bits (pl_log2 lib) (pl_powf lib) d"
    by (simp add: pool_difficulty_bits_def calculate_difficulty_bits_def MAX_TARGET_BITS_def Let_def)
  with share_target_validator [OF assms(2)] share_valid_iff [OF assms(1)] assms(2) show ?thesis by simp
qed

theorem pool_agrees_with_validator_witness:
  "validate_share_difficulty sample_lib (hex_of (replicate 64 0)) 1000 \<and>
   validator_target log2_floor 1000 = Inr (share_target log2_floor 1000)"
proof -
  have lg: "log2_faithful (pl_log2 sample_lib)" by (simp add: sample_lib_def log2_floor_faithful)
  have "pl_hex_decode sample_lib (hex_of (replicate 64 0)) = Inr (replicate 64 0)"
    by (simp add: sample_lib_def hex_read_of)
  moreover have "required_bits (pl_log2 sample_lib) 1000 \<le> count_leading_zeros (replicate 64 0)"
    using required_bits_bounds(2) [OF lg, of 1000] leading_zeros_iff [of 65 "replicate 64 0"]
    by (simp add: be_nat_zeros)
  ultimately show ?thesis
    using pool_agrees_with_validator [OF lg, of 1000 "hex_of (replicate 64 0)"]
    by (auto simp: sample_lib_def)
qed

section \<open>What a share proves\<close>

lemma submit_block_Release: "\<exists>r p'. submit_block_to_node Release lib env p h address = Some (r, p')"
proof -
  have fin: "\<exists>r p'. finish_submission Release lib env p t = Some (r, p')" for p t
    by (cases "submit_reply lib (sc_node_rpc_url (po_config p)) (pe_submit env t)")
       (auto simp: finish_submission_def sync_block_height_def split: sum.splits)
  then show ?thesis
    by (auto simp: submit_block_to_node_def Let_def split: sum.splits)
qed

lemma valid_share_credited:
  assumes "hm_get (po_miners p) k = Some s" and "validate_share_difficulty lib h (se_difficulty s)"
  shows "\<exists>r p' s'. pool_submit_share Release lib env clock p k nonce h = Some (r, p') \<and>
    hm_get (po_miners p') k = Some s' \<and> se_valid_shares s' = se_valid_shares s + 1 \<and>
    se_difficulty s' = se_difficulty s"
proof -
  define s' where "s' = s\<lparr>se_shares := se_shares s + 1, se_valid_shares := se_valid_shares s + 1,
    se_hashrate := f_div (f_mul (f_of_w (se_valid_shares s + 1)) (f_of_w (se_difficulty s)))
      (f_of_w (max (clock_or (se_connected_time s) clock - se_connected_time s) 1))\<rparr>"
  define p1 where "p1 = p\<lparr>po_total_valid_shares := po_total_valid_shares p + 1,
    po_miners := hm_insert k s' (po_miners p)\<rparr>"
  have rel: "add_w Release (se_shares s) 1 = Some (se_shares s + 1)" by simp
  have eq: "pool_submit_share Release lib env clock p k nonce h =
      (if is_block_candidate lib env p1 h then do {
         (r, p) \<leftarrow> submit_block_to_node Release lib env p1 h (se_address s);
         Some (case r of Inl e \<Rightarrow> (Inl e, p) | Inr _ \<Rightarrow> (Inr True, p)) }
       else Some (Inr True, p1))"
    by (simp add: share_valid_eq [OF assms(1) rel assms(2)] Let_def p1_def s'_def cong: if_cong)
  obtain r2 p2 where sb: "submit_block_to_node Release lib env p1 h (se_address s) = Some (r2, p2)"
    using submit_block_Release by blast
  then have "po_miners p2 = po_miners p1" using submit_block_same by (simp add: same_but_work_def)
  then have "\<exists>r p'. pool_submit_share Release lib env clock p k nonce h = Some (r, p') \<and> po_miners p' = po_miners p1"
    using sb by (cases r2) (simp_all add: eq)
  moreover have "hm_get (po_miners p1) k = Some s'" by (simp add: p1_def hm_get_insert)
  moreover have "se_valid_shares s' = se_valid_shares s + 1" "se_difficulty s' = se_difficulty s"
    by (simp_all add: s'_def)
  ultimately show ?thesis by fastforce
qed

fun resubmit :: "pool_lib \<Rightarrow> pool_env \<Rightarrow> u64 option \<Rightarrow> string \<Rightarrow> string \<Rightarrow> u64 list \<Rightarrow> pool_state \<Rightarrow> pool_state option" where
  "resubmit lib env clock k h [] p = Some p"
| "resubmit lib env clock k h (n # ns) p =
     do { (r, p') \<leftarrow> pool_submit_share Release lib env clock p k n h; resubmit lib env clock k h ns p' }"

text \<open>A share is its hash text alone: nothing ties it to the work, to the nonce or to earlier shares.
  In a release build a miner who submits one valid hash under any list of nonces is credited with a
  valid share for every one of them.\<close>

theorem share_replay_credited:
  assumes "hm_get (po_miners p) k = Some s" and "validate_share_difficulty lib h (se_difficulty s)"
  shows "\<exists>p' s'. resubmit lib env clock k h nonces p = Some p' \<and> hm_get (po_miners p') k = Some s' \<and>
    se_valid_shares s' = se_valid_shares s + of_nat (length nonces)"
  using assms
proof (induction nonces arbitrary: p s)
  case (Cons n ns)
  obtain r p' s' where *: "pool_submit_share Release lib env clock p k n h = Some (r, p')"
    "hm_get (po_miners p') k = Some s'" "se_valid_shares s' = se_valid_shares s + 1"
    "se_difficulty s' = se_difficulty s"
    using valid_share_credited [OF Cons.prems] by blast
  with Cons.IH [of p' s'] Cons.prems(2) show ?case by (auto simp: add.assoc)
qed simp

theorem share_replay_credited_witness:
  "\<exists>p' s'. resubmit sample_lib sample_env (Some 1700000001) ''m1'' (hex_of (replicate 64 0)) [5, 5, 6] sample_server = Some p' \<and>
     hm_get (po_miners p') ''m1'' = Some s' \<and> se_valid_shares s' = 3"
proof -
  have "hm_get (po_miners sample_server) ''m1'' = Some sample_session" by (simp add: sample_server_miners)
  moreover have "validate_share_difficulty sample_lib (hex_of (replicate 64 0)) (se_difficulty sample_session)"
  proof -
    have lg: "log2_faithful (pl_log2 sample_lib)" by (simp add: sample_lib_def log2_floor_faithful)
    show ?thesis
      using required_bits_bounds(2) [OF lg, of 1000] leading_zeros_iff [of 65 "replicate 64 0"]
      by (subst share_valid_iff [OF lg])
         (auto simp: sample_lib_def hex_read_of sample_session_def be_nat_zeros)
  qed
  ultimately show ?thesis
    using share_replay_credited [of sample_server "''m1''" sample_session sample_lib "hex_of (replicate 64 0)"
        sample_env "Some 1700000001" "[5, 5, 6]"]
    by (simp add: sample_session_def)
qed

end
