(* ===== verification/Node_Blocks.thy ===== *)
theory Node_Blocks
  imports Stratum_Pool Block_Submission
begin

text \<open>
  Two components that send blocks to the node: the stratum pool (\<open>submit_block_to_node\<close> of
  \<open>src/stratum_pool.rs\<close>) and the block submission handler. What the block builder's parser
  (\<open>Block::from_hex\<close>) makes of the text that the pool sends.
\<close>

lemma hex_of_append: "hex_of (xs @ ys) = hex_of xs @ hex_of ys"
  by (induction xs) simp_all

lemma length_hex_of [simp]: "length (hex_of bs) = 2 * length bs"
  by (induction bs) simp_all

definition lower_hex :: "string \<Rightarrow> bool" where
  "lower_hex s \<longleftrightarrow> (\<forall>c \<in> set s. \<exists>d < 16. c = hex_digit d)"

lemma lower_hex_nat: "lower_hex (hex_nat n)"
proof (induction n rule: hex_nat.induct)
  case (1 n)
  show ?case
  proof (cases "n < 16")
    case True
    then show ?thesis by (auto simp: lower_hex_def hex_nat.simps [of n])
  next
    case False
    have "\<exists>d < 16. hex_digit (n mod 16) = hex_digit d" by (rule exI [of _ "n mod 16"]) simp
    with 1 False show ?thesis by (auto simp: lower_hex_def hex_nat.simps [of n])
  qed
qed

lemma lower_hex_fmt: "lower_hex (fmt_hex n w)"
proof -
  have "CHR ''0'' = hex_digit 0" by code_simp
  then have "\<exists>d < 16. CHR ''0'' = hex_digit d" by (intro exI [of _ 0]) simp
  then show ?thesis using lower_hex_nat [of "unat w"] by (auto simp: fmt_hex_def lower_hex_def)
qed

lemma lower_hex_bytes:
  "lower_hex s \<Longrightarrow> length s = 2 * n \<Longrightarrow> \<exists>bs. s = hex_of bs \<and> length bs = n"
proof (induction n arbitrary: s)
  case (Suc n)
  then obtain c d t where s: "s = c # d # t" "length t = 2 * n"
    by (cases s; cases "tl s") auto
  with Suc.prems(1) obtain x y where xy: "x < 16" "c = hex_digit x" "y < 16" "d = hex_digit y"
    by (auto simp: lower_hex_def)
  obtain bs where bs: "t = hex_of bs" "length bs = n"
    using Suc.IH [of t] s Suc.prems(1) by (auto simp: lower_hex_def)
  have "unat (of_nat (16 * x + y) :: u8) = 16 * x + y"
    by (subst unat_of_nat) (use xy in simp)
  then have "s = hex_of (of_nat (16 * x + y) # bs)" using s xy bs by (simp add: div_add1_eq)
  with bs show ?case by (metis length_Cons)
qed simp

lemma fmt_hex_bytes:
  "LENGTH('a::len) \<le> 8 * n \<Longrightarrow> 0 < n \<Longrightarrow> \<exists>bs. fmt_hex (2 * n) (w :: 'a word) = hex_of bs \<and> length bs = n"
  using lower_hex_bytes [OF lower_hex_fmt, of "2 * n" w n] length_fmt_hex [of "2 * n" w] by simp

text \<open>C34: The pool writes blocks in a layout of its own. For a previous hash and a share hash of 64 bytes
  each, \<open>Block::from_hex\<close> parses the text that the pool submits, but reads version \<open>0x01000000\<close>, the
  first half of the previous hash, and the second half of the previous hash as the Merkle root; the
  submission handler's own validation then refuses the block for its version, in either build and
  whatever its state.\<close>

theorem pool_block_misread:
  assumes "pl_hex_encode lib = hex_of" and "length prev = 64" and "length digest = 64"
    and "unat reward < 2 ^ 64"
  shows "\<exists>bl. block_from_hex mist hex_of hex_read
      (block_text lib (hex_of prev) (hex_of digest) timestamp bits nonce address reward) = Some (Inr bl) \<and>
    bb_version (bl_header bl) = 0x01000000 \<and>
    bb_prev_block_hash (bl_header bl) = take 32 prev \<and> bb_merkle_root (bl_header bl) = drop 32 prev \<and>
    validate_block b clock handler bl = Some (Inl (''Invalid block version: 16777216''))"
proof -
  obtain ts bi no where parts: "fmt_hex 8 timestamp = hex_of ts" "length ts = 4"
    "fmt_hex 8 bits = hex_of bi" "length bi = 4" "fmt_hex 16 nonce = hex_of no" "length no = 8"
    using fmt_hex_bytes [of 4 timestamp] fmt_hex_bytes [of 4 bits] fmt_hex_bytes [of 8 nonce] by auto
  have "length (hex_nat (unat reward)) \<le> 16"
    using assms(4) by (intro length_hex_nat) simp_all
  then have "length (fmt_hex 16 reward) = 2 * 8" by (simp add: fmt_hex_def)
  then obtain re where re: "fmt_hex 16 reward = hex_of re" "length re = 8"
    using lower_hex_bytes [OF lower_hex_fmt] by blast
  have one: "fmt_hex 8 (1 :: u32) = hex_of [0, 0, 0, 1]"
    by code_simp
  have zero: "fmt_hex 16 (0 :: u128) = hex_of (replicate 8 0)"
    by code_simp
  have "take 64 (hex_of digest) = hex_of (take 32 digest)"
    using hex_of_append [of "take 32 digest" "drop 32 digest"] assms(3) by simp
  then have sent: "block_text lib (hex_of prev) (hex_of digest) timestamp bits nonce address reward =
      hex_of ([0, 0, 0, 1] @ prev @ take 32 digest @ ts @ bi @ no @ as_bytes address @ re @ replicate 8 0)"
    using assms(3) by (simp only: block_text_def assms(1) hex_of_append one zero parts re length_hex_of) simp
  define bs where "bs = [0, 0, 0, 1] @ prev @ take 32 digest @ ts @ bi @ no @ as_bytes address @ re @ replicate 8 0"
  have len: "132 \<le> length bs" using assms(2,3) parts re by (simp add: bs_def)
  have h80: "length (slice 0 80 bs) = 80" using len by (simp add: length_slice)
  have v: "slice 0 4 (slice 0 80 bs) = [0, 0, 0, 1]" by (simp add: slice_def bs_def)
  have p: "slice 4 36 (slice 0 80 bs) = take 32 prev" using assms(2) by (simp add: slice_def bs_def)
  have m: "slice 36 68 (slice 0 80 bs) = drop 32 prev" using assms(2) by (simp add: slice_def bs_def)
  have ver: "(from_le_bytes [0, 0, 0, 1] :: u32) = 0x01000000" by (simp add: from_le_bytes_def)
  obtain bl where bl: "block_from_hex mist hex_of hex_read (hex_of bs) = Some (Inr bl)"
    and hd: "bl_header bl = header_fields (slice 0 80 bs)"
    using len h80 by (simp add: block_from_hex_def hex_read_of header_from_bytes_def Let_def new_block_def)
  have fields: "bb_version (bl_header bl) = 0x01000000"
    "bb_prev_block_hash (bl_header bl) = take 32 prev" "bb_merkle_root (bl_header bl) = drop 32 prev"
    by (simp_all only: hd header_fields_def v p m ver bb_header.simps)
  have "validate_block b clock handler bl = Some (Inl (''Invalid block version: 16777216''))"
  proof -
    have "fmt_w (16777216 :: u32) = ''16777216''" by code_simp
    with fields(1) show ?thesis by (simp add: validate_block_def)
  qed
  with bl fields show ?thesis by (simp only: sent bs_def [symmetric]) blast
qed

theorem pool_block_misread_witness:
  "\<exists>bl. block_from_hex 100000000 hex_of hex_read
      (block_text sample_lib (hex_of (replicate 64 3)) (hex_of (replicate 64 1)) 1700000000 0x1d00ffff 5
         sample_address 5000000000) = Some (Inr bl) \<and>
    bb_version (bl_header bl) = 0x01000000 \<and>
    bb_prev_block_hash (bl_header bl) = take 32 (replicate 64 3) \<and>
    bb_merkle_root (bl_header bl) = drop 32 (replicate 64 3) \<and>
    validate_block Debug (Inr 1700000000) new_submission_handler bl = Some (Inl (''Invalid block version: 16777216''))"
  by (rule pool_block_misread) (simp_all add: sample_lib_def)

end
