(* ===== verification/Stratum_Session.thy ===== *)
theory Stratum_Session
  imports Stratum_Pool
begin

text \<open>
  One connection of the stratum pool (\<open>handle_miner_connection\<close> of \<open>src/stratum_pool.rs\<close>): its
  state, the handling of one line, and the steps of a connection among those of the others. Reading
  and writing the socket, and its timeouts, are not modelled: a line is given trimmed, and
  \<open>serde_json::from_str\<close> is the argument \<open>parse\<close>. The synchronisation that a submitted block spawns
  in the background is one of the steps of the server that may happen in between.
\<close>

record connection =
  cn_miner_id :: "string option"
  cn_address :: "string option"
  cn_authorized :: bool

definition new_connection :: connection where
  "new_connection = \<lparr>cn_miner_id = None, cn_address = None, cn_authorized = False\<rparr>"

definition str_param :: "json list \<Rightarrow> nat \<Rightarrow> string \<Rightarrow> string" where
  "str_param params i dflt = (case nth_opt params i of Some (JStr s) \<Rightarrow> s | _ \<Rightarrow> dflt)"

definition share_height :: "string \<Rightarrow> u64" where
  "share_height job_id =
     (case parse_u64 10 (takeWhile (\<lambda>c. c \<noteq> CHR ''_'') job_id) of Some h \<Rightarrow> h | None \<Rightarrow> 0)"

text \<open>A submission on an authorized connection of the miner \<open>mid\<close>. The node may be asked twice: for the
  block that the miner claims (\<open>env1\<close>), and by the share's own check (\<open>env2\<close>).\<close>

definition handle_submit ::
    "build \<Rightarrow> pool_lib \<Rightarrow> pool_env \<Rightarrow> pool_env \<Rightarrow> u64 option \<Rightarrow> pool_state \<Rightarrow> string option \<Rightarrow> string \<Rightarrow>
     json \<Rightarrow> json list \<Rightarrow> (json \<times> pool_state) option" where
  "handle_submit b lib env1 env2 clock p address mid request_id params =
     (let job_id = str_param params 1 ''0'';
          share_block_height = share_height job_id;
          current_height = sw_height (po_current_work p)
      in if share_block_height > 0 \<and> share_block_height < current_height
         then Some (response request_id (JBool False)
                (JStr (''Stale share: block height mismatch (expected '' @ fmt_w current_height @
                       '', got '' @ fmt_w share_block_height @ '')'')), p)
         else
           let nonce_str = str_param params 2 ''0'';
               h = str_param params 3 '''';
               is_block = (case nth_opt params 4 of Some (JBool x) \<Rightarrow> x | _ \<Rightarrow> False);
               nonce = (case parse_u64 16 nonce_str of Some n \<Rightarrow> n | None \<Rightarrow> 0)
           in do {
             p1 \<leftarrow> (if is_block
                    then map_option snd (submit_block_to_node b lib env1 p h
                           (case address of Some a \<Rightarrow> a | None \<Rightarrow> ''''))
                    else Some p);
             (r, p2) \<leftarrow> pool_submit_share b lib env2 clock p1 mid nonce h;
             Some (case r of
                 Inr True \<Rightarrow> response request_id JNull JNull
               | Inr False \<Rightarrow> response request_id JNull (JStr ''Share rejected'')
               | Inl e \<Rightarrow> response request_id JNull (JStr e), p2)
           })"

definition request_method :: "json \<Rightarrow> string option" where
  "request_method request = (case json_get request ''method'' of Some (JStr meth) \<Rightarrow> Some meth | _ \<Rightarrow> None)"

definition request_params :: "json \<Rightarrow> json list" where
  "request_params request = (case json_get request ''params'' of Some (JArr ps) \<Rightarrow> ps | _ \<Rightarrow> [])"

definition handle_subscribe ::
    "pool_lib \<Rightarrow> pool_env \<Rightarrow> connection \<Rightarrow> pool_state \<Rightarrow> json \<Rightarrow> json list \<Rightarrow> json \<times> connection \<times> pool_state" where
  "handle_subscribe lib env c p request_id params =
     (let address = str_param params 0 ''unknown''
      in case register_pool_miner lib env p address of
           (Inr registered_id, p') \<Rightarrow>
             (response request_id (JArr [JStr registered_id, JStr ''0'']) JNull,
              \<lparr>cn_miner_id = Some registered_id, cn_address = Some address, cn_authorized = False\<rparr>, p')
         | (Inl e, p') \<Rightarrow> (response request_id JNull (JStr e), c, p'))"

definition handle_request ::
    "build \<Rightarrow> pool_lib \<Rightarrow> pool_env \<Rightarrow> pool_env \<Rightarrow> u64 option \<Rightarrow> connection \<Rightarrow> pool_state \<Rightarrow> json \<Rightarrow>
     (json \<times> connection \<times> pool_state) option" where
  "handle_request b lib env1 env2 clock c p request =
     (let request_id = json_index request ''id'';
          params = request_params request in
      case request_method request of
        None \<Rightarrow> Some (response request_id JNull (JStr ''Invalid method''), c, p)
      | Some meth \<Rightarrow>
          if meth = ''mining.subscribe'' then Some (handle_subscribe lib env1 c p request_id params)
          else if meth = ''mining.authorize'' then
            Some (if cn_miner_id c \<noteq> None
                  then (response request_id (JBool True) JNull, c\<lparr>cn_authorized := True\<rparr>, p)
                  else (response request_id (JBool False) (JStr ''Not subscribed''), c, p))
          else if meth = ''mining.submit'' then
            (case (if cn_authorized c then cn_miner_id c else None) of
               Some mid \<Rightarrow> do {
                 (resp, p') \<leftarrow> handle_submit b lib env1 env2 clock p (cn_address c) mid request_id params;
                 Some (resp, c, p')
               }
             | None \<Rightarrow> Some (response request_id (JBool False) (JStr ''Not authorized''), c, p))
          else if meth = ''mining.get_transactions'' then Some (response request_id (JArr []) JNull, c, p)
          else if meth = ''mining.get_hashrate''
          then Some (response request_id (json_of_f64 (st_total_hashrate (sp_get_stats p))) JNull, c, p)
          else if meth = ''mining.ping'' then Some (response request_id (JStr ''pong'') JNull, c, p)
          else Some (response request_id JNull (JStr (''Unknown method: '' @ meth)), c, p))"

text \<open>A trimmed line: empty lines get no answer.\<close>

definition handle_line ::
    "build \<Rightarrow> pool_lib \<Rightarrow> (string \<Rightarrow> string + json) \<Rightarrow> pool_env \<Rightarrow> pool_env \<Rightarrow> u64 option \<Rightarrow>
     connection \<Rightarrow> pool_state \<Rightarrow> string \<Rightarrow> (json option \<times> connection \<times> pool_state) option" where
  "handle_line b lib parse env1 env2 clock c p line =
     (if line = [] then Some (None, c, p)
      else case parse line of
        Inl e \<Rightarrow> Some (Some (response JNull JNull (JStr ''Invalid JSON'')), c, p)
      | Inr request \<Rightarrow> do {
          (resp, c', p') \<leftarrow> handle_request b lib env1 env2 clock c p request;
          Some (Some resp, c', p')
        })"

section \<open>Connections among others\<close>

text \<open>A line of this connection, or a step of the server on behalf of others.\<close>

inductive connection_step ::
    "build \<Rightarrow> pool_lib \<Rightarrow> connection \<times> pool_state \<Rightarrow> connection \<times> pool_state \<Rightarrow> bool" for b lib where
  line: "hm_get (po_miners p) (pe_uuid env1) = None \<Longrightarrow>
     handle_line b lib parse env1 env2 clock c p l = Some (resp, c', p') \<Longrightarrow>
     connection_step b lib (c, p) (c', p')"
| other: "server_step b lib p p' \<Longrightarrow> connection_step b lib (c, p) (c, p')"

text \<open>Sessions keep their address, whatever happens to the pool.\<close>

definition keeps_sessions :: "pool_state \<Rightarrow> pool_state \<Rightarrow> bool" where
  "keeps_sessions p p' \<longleftrightarrow>
     (\<forall>k s. hm_get (po_miners p) k = Some s \<longrightarrow>
        (\<exists>s'. hm_get (po_miners p') k = Some s' \<and> se_address s' = se_address s))"

lemma keeps_sessions_refl [simp]: "keeps_sessions p p"
  by (simp add: keeps_sessions_def)

lemma keeps_sessions_same: "same_but_work p p' \<Longrightarrow> keeps_sessions p p'"
  by (simp add: keeps_sessions_def same_but_work_def)

lemma keeps_sessions_trans: "keeps_sessions p p' \<Longrightarrow> keeps_sessions p' p'' \<Longrightarrow> keeps_sessions p p''"
  unfolding keeps_sessions_def by metis

text \<open>A share changes one session and the totals.\<close>

lemma pool_submit_share_effect:
  assumes "pool_submit_share b lib env clock p k nonce h = Some (r, p')"
  shows "j \<noteq> k \<longrightarrow> hm_get (po_miners p') j = hm_get (po_miners p) j" and "keeps_sessions p p'"
  using assms
  by (cases rule: pool_submit_share_cases;
      auto simp: keeps_sessions_def same_but_work_def hm_get_insert)+

lemma handle_submit_cases:
  assumes "handle_submit b lib env1 env2 clock p address mid rid params = Some (resp, p')"
  obtains (stale) "p' = p"
  | (share) p1 nonce h r where "same_but_work p p1"
      "pool_submit_share b lib env2 clock p1 mid nonce h = Some (r, p')"
proof -
  have "p' = p \<or> (\<exists>p1 nonce h r. same_but_work p p1 \<and>
      pool_submit_share b lib env2 clock p1 mid nonce h = Some (r, p'))"
    using assms unfolding handle_submit_def Let_def
    by (auto simp: bind_eq_Some_conv split: if_splits; blast intro: submit_block_same same_but_work_refl)
  then show ?thesis using stale share by blast
qed

lemma handle_request_cases:
  assumes "handle_request b lib env1 env2 clock c p request = Some (resp, c', p')"
  obtains (answer) "c' = c" "p' = p"
  | (authorize) mid where "cn_miner_id c = Some mid" "c' = c\<lparr>cn_authorized := True\<rparr>" "p' = p"
  | (subscribe) address mid where "register_pool_miner lib env1 p address = (Inr mid, p')"
      "c' = \<lparr>cn_miner_id = Some mid, cn_address = Some address, cn_authorized = False\<rparr>"
  | (submit) mid rid params where "cn_miner_id c = Some mid" "cn_authorized c" "c' = c"
      "handle_submit b lib env1 env2 clock p (cn_address c) mid rid params = Some (resp, p')"
proof -
  have refuse: "p'' = p" if "register_pool_miner lib env1 p a = (Inl e, p'')" for a e p''
    using that by (auto simp: register_pool_miner_def Let_def split: if_splits)
  show ?thesis
  proof (cases "request_method request")
    case None
    then show ?thesis using assms by (simp add: handle_request_def answer)
  next
    case (Some meth)
    consider (sub) "meth = ''mining.subscribe''" | (auth) "meth = ''mining.authorize''"
      | (subm) "meth = ''mining.submit''"
      | (rest) "meth \<noteq> ''mining.subscribe''" "meth \<noteq> ''mining.authorize''" "meth \<noteq> ''mining.submit''"
      by blast
    then show ?thesis
    proof cases
      case sub
      then show ?thesis using assms
        by (auto simp: handle_request_def Some handle_subscribe_def Let_def refuse
            split: prod.splits sum.splits intro: answer subscribe)
    next
      case auth
      then show ?thesis using assms
        by (auto simp: handle_request_def Some Let_def split: if_splits intro: answer authorize)
    next
      case subm
      then show ?thesis using assms
        by (auto simp: handle_request_def Some Let_def bind_eq_Some_conv
            split: if_splits option.splits intro: answer submit)
    next
      case rest
      have "\<exists>resp. handle_request b lib env1 env2 clock c p request = Some (resp, c, p)"
        unfolding handle_request_def Some Let_def option.case using rest by simp
      then have "c' = c \<and> p' = p" using assms by simp
      then show ?thesis using answer by blast
    qed
  qed
qed

lemma handle_line_cases:
  assumes "handle_line b lib parse env1 env2 clock c p l = Some (resp, c', p')"
  obtains (answer) "c' = c" "p' = p"
  | (authorize) mid where "cn_miner_id c = Some mid" "c' = c\<lparr>cn_authorized := True\<rparr>" "p' = p"
  | (subscribe) address mid where "register_pool_miner lib env1 p address = (Inr mid, p')"
      "c' = \<lparr>cn_miner_id = Some mid, cn_address = Some address, cn_authorized = False\<rparr>"
  | (share) mid p1 nonce h r where "cn_miner_id c = Some mid" "cn_authorized c" "c' = c"
      "same_but_work p p1" "pool_submit_share b lib env2 clock p1 mid nonce h = Some (r, p')"
  | (stale) "cn_authorized c" "c' = c" "p' = p"
proof (cases "l = [] \<or> (\<exists>e. parse l = Inl e)")
  case True
  then show ?thesis using assms answer by (auto simp: handle_line_def split: if_splits)
next
  case False
  then obtain request where "parse l = Inr request" by (cases "parse l") auto
  with assms False obtain resp' where "handle_request b lib env1 env2 clock c p request = Some (resp', c', p')"
    by (auto simp: handle_line_def bind_eq_Some_conv)
  then show ?thesis
  proof (cases rule: handle_request_cases)
    case (submit mid rid params)
    from submit(4) show ?thesis by (cases rule: handle_submit_cases) (use submit share stale in blast)+
  qed (use answer authorize subscribe in blast)+
qed

section \<open>What a connection may do\<close>

definition connection_ok :: "pool_lib \<Rightarrow> connection \<Rightarrow> pool_state \<Rightarrow> bool" where
  "connection_ok lib c p \<longleftrightarrow> (cn_authorized c \<longrightarrow> cn_miner_id c \<noteq> None) \<and>
     (\<forall>mid. cn_miner_id c = Some mid \<longrightarrow>
        (\<exists>s. hm_get (po_miners p) mid = Some s \<and> cn_address c = Some (se_address s) \<and>
             validate_pool_address lib (se_address s)))"

lemma connection_ok_keeps: "connection_ok lib c p \<Longrightarrow> keeps_sessions p p' \<Longrightarrow> connection_ok lib c p'"
  unfolding connection_ok_def keeps_sessions_def by metis

lemma register_effect:
  assumes "register_pool_miner lib env p address = (Inr mid, p')"
  shows "mid = pe_uuid env" and "validate_pool_address lib address" and
    "\<exists>s. p' = p\<lparr>po_miners := hm_insert mid s (po_miners p)\<rparr> \<and> se_address s = address"
  using assms by (auto simp: register_pool_miner_def Let_def split: if_splits)

lemma register_keeps:
  assumes "register_pool_miner lib env p address = (r, p')" and "hm_get (po_miners p) (pe_uuid env) = None"
  shows "keeps_sessions p p'"
  using assms by (auto simp: register_pool_miner_def Let_def keeps_sessions_def hm_get_insert split: if_splits)

lemma server_step_keeps: "server_step b lib p p' \<Longrightarrow> keeps_sessions p p'"
proof (induction rule: server_step.induct)
  case (update p clock uuid header target height)
  show ?case by (simp add: keeps_sessions_def update_work_def Let_def)
qed (blast intro: register_keeps pool_submit_share_effect(2) keeps_sessions_same submit_block_same sync_same)+

lemma connection_ok_step:
  "connection_step b lib cp cp' \<Longrightarrow> connection_ok lib (fst cp) (snd cp) \<Longrightarrow> connection_ok lib (fst cp') (snd cp')"
proof (induction rule: connection_step.induct)
  case (line p env1 parse env2 clock c l resp c' p')
  from line(2) show ?case
  proof (cases rule: handle_line_cases)
    case (subscribe address mid)
    then show ?thesis using register_effect [OF subscribe(1)]
      by (auto simp: connection_ok_def hm_get_insert)
  next
    case (share mid p1 nonce h r)
    then have "keeps_sessions p p'"
      using keeps_sessions_trans keeps_sessions_same pool_submit_share_effect(2) by blast
    with line(3) share(3) show ?thesis using connection_ok_keeps by simp
  qed (use line(3) in \<open>auto simp: connection_ok_def\<close>)
next
  case (other p p' c)
  then show ?case using connection_ok_keeps server_step_keeps by fastforce
qed

text \<open>C2: However the lines of a connection and the activity of the rest of the server interleave, an
  authorized connection has subscribed, and the identifier it holds is that of a session which is
  still registered, under the address the connection gave, and that address has passed validation.\<close>

theorem connection_invariant:
  assumes "(connection_step b lib)\<^sup>*\<^sup>* (new_connection, p0) (c, p)"
  shows "(cn_authorized c \<longrightarrow> cn_miner_id c \<noteq> None) \<and>
    (\<forall>mid. cn_miner_id c = Some mid \<longrightarrow>
       (\<exists>s. hm_get (po_miners p) mid = Some s \<and> cn_address c = Some (se_address s) \<and>
            validate_pool_address lib (se_address s)))"
proof -
  have "connection_ok lib (fst cp) (snd cp)"
    if "(connection_step b lib)\<^sup>*\<^sup>* (new_connection, p0) cp" for cp
    using that
  proof (induction rule: rtranclp_induct)
    case base
    show ?case by (simp add: connection_ok_def new_connection_def)
  qed (blast intro: connection_ok_step)
  from this [OF assms] show ?thesis by (simp add: connection_ok_def)
qed

text \<open>C3: A line can change no session but the one the connection is authorized for. Before it is
  authorized a connection can add a session of its own and nothing else: every session, the work and
  the totals stay as they are. In any state, identifiers of new sessions being fresh.\<close>

theorem session_isolation:
  assumes "handle_line b lib parse env1 env2 clock c p l = Some (resp, c', p')"
    and "hm_get (po_miners p) (pe_uuid env1) = None"
  shows "(hm_get (po_miners p) k = Some s \<and> \<not> (cn_authorized c \<and> cn_miner_id c = Some k) \<longrightarrow>
      hm_get (po_miners p') k = Some s) \<and>
    (\<not> cn_authorized c \<longrightarrow> po_current_work p' = po_current_work p \<and>
      po_total_shares p' = po_total_shares p \<and> po_total_valid_shares p' = po_total_valid_shares p)"
  using assms(1)
proof (cases rule: handle_line_cases)
  case (subscribe address mid)
  then show ?thesis using register_effect [OF subscribe(1)] assms(2) by (auto simp: hm_get_insert)
next
  case (share mid p1 nonce h r)
  have "po_miners p1 = po_miners p" using share(4) by (simp add: same_but_work_def)
  then show ?thesis using share(1,2) pool_submit_share_effect(1) [OF share(5), of k] by auto
qed auto

text \<open>The first part of the text of a job up to the underscore: a height in decimal is read back exactly.\<close>

lemma share_height_of_job: "share_height (fmt_w h @ CHR ''_'' # rest) = h"
proof -
  have "\<forall>c \<in> set (fmt_w h). c \<noteq> CHR ''_''" using set_fmt_nat [of "unat h"] by (auto simp: fmt_w_def)
  then have "takeWhile (\<lambda>c. c \<noteq> CHR ''_'') (fmt_w h @ CHR ''_'' # rest) = fmt_w h"
    by (simp add: takeWhile_append2)
  then show ?thesis by (simp add: share_height_def parse_fmt_u64)
qed

text \<open>The jobs of the repository are not written so: their identifiers begin with a number in hexadecimal.
  What the pool makes of its digits: the decimal number they spell, if none is a letter.\<close>

lemma underscore_not_hex: "CHR ''_'' \<notin> set (hex_nat n)"
proof (induction n rule: hex_nat.induct)
  case (1 n)
  have "CHR ''_'' \<noteq> hex_digit d" if "d < 16" for d
  proof -
    have "of_char (hex_digit d) \<noteq> (95 :: nat)" using that by (simp add: hex_digit_def)
    moreover have "of_char (CHR ''_'') = (95 :: nat)" by simp
    ultimately show ?thesis by metis
  qed
  with 1 show ?case by (simp add: hex_nat.simps [of n])
qed

lemma found_share_height:
  "share_height (hex_nat n @ ''_'' @ rest) = (case parse_u64 10 (hex_nat n) of Some h \<Rightarrow> h | None \<Rightarrow> 0)"
proof -
  have "takeWhile (\<lambda>c. c \<noteq> CHR ''_'') (hex_nat n @ CHR ''_'' # rest) = hex_nat n"
    using underscore_not_hex [of n] by (subst takeWhile_append2) auto
  then show ?thesis by (simp add: share_height_def)
qed

definition hex_letter :: "char \<Rightarrow> bool" where
  "hex_letter c \<longleftrightarrow> c \<in> set ''abcdef''"

fun hex_as_decimal :: "nat \<Rightarrow> nat option" where
  "hex_as_decimal n =
     (if n < 16 then (if n < 10 then Some n else None)
      else case hex_as_decimal (n div 16) of
        None \<Rightarrow> None
      | Some d \<Rightarrow> if n mod 16 < 10 then Some (10 * d + n mod 16) else None)"

declare hex_as_decimal.simps [simp del]

lemma hex_as_decimal_le:
  "hex_as_decimal n = Some d \<Longrightarrow> d \<le> n \<and> (16 \<le> n \<longrightarrow> d < n) \<and> (0 < n \<longrightarrow> 0 < d)"
proof (induction n arbitrary: d rule: hex_as_decimal.induct)
  case (1 n)
  show ?case
  proof (cases "n < 16")
    case True
    with "1.prems" show ?thesis by (simp add: hex_as_decimal.simps [of n] split: if_splits)
  next
    case False
    then obtain e where e: "hex_as_decimal (n div 16) = Some e" and d: "d = 10 * e + n mod 16"
      using "1.prems" by (auto simp: hex_as_decimal.simps [of n] split: option.splits if_splits)
    have q: "0 < n div 16" using False by (simp add: div_greater_zero_iff)
    with "1.IH" [OF False e] have "e \<le> n div 16" "0 < e" by simp_all
    moreover have "16 * (n div 16) + n mod 16 = n" by simp
    ultimately show ?thesis unfolding d using q by linarith
  qed
qed

lemma of_hex_digit: "d < 16 \<Longrightarrow> of_char (hex_digit d) = (if d < 10 then 48 + d else 87 + d)"
  by (simp add: hex_digit_def)

lemma hex_letter_code: "hex_letter c \<longleftrightarrow> (97 :: nat) \<le> of_char c \<and> of_char c \<le> (102 :: nat)"
proof -
  have "hex_letter c \<longleftrightarrow> (of_char c :: nat) \<in> of_char ` set ''abcdef''"
    unfolding hex_letter_def by (subst inj_image_mem_iff [OF inj_of_char]) simp
  also have "of_char ` set ''abcdef'' = {97..102 :: nat}" by (simp, auto)
  finally show ?thesis by simp
qed

lemma hex_digit_decimal:
  assumes "d < 16"
  shows "digit_value 10 (hex_digit d) = (if d < 10 then Some d else None)"
    and "hex_letter (hex_digit d) \<longleftrightarrow> 10 \<le> d" and "hex_digit d \<noteq> CHR ''+''"
proof -
  show "digit_value 10 (hex_digit d) = (if d < 10 then Some d else None)"
    using of_hex_digit [OF assms] assms by (simp add: digit_value_def Let_def)
  show "hex_letter (hex_digit d) \<longleftrightarrow> 10 \<le> d" 
    unfolding hex_letter_code of_hex_digit [OF assms] using assms by auto
  have "of_char (hex_digit d) \<noteq> (43 :: nat)" using of_hex_digit [OF assms] by simp
  moreover have "of_char (CHR ''+'') = (43 :: nat)" by simp
  ultimately show "hex_digit d \<noteq> CHR ''+''" by metis
qed

lemma hex_nat_not_empty: "hex_nat n \<noteq> []"
  by (simp add: hex_nat.simps [of n])

lemma plus_not_hex: "CHR ''+'' \<notin> set (hex_nat n)"
proof (induction n rule: hex_nat.induct)
  case (1 n)
  then show ?case using hex_digit_decimal(3) [of n] hex_digit_decimal(3) [of "n mod 16"]
    by (auto simp: hex_nat.simps [of n])
qed

lemma parse_digits_hex: "n < 2 ^ 64 \<Longrightarrow> parse_digits 10 0 (hex_nat n) = hex_as_decimal n"
proof (induction n rule: hex_nat.induct)
  case (1 n)
  show ?case
  proof (cases "n < 16")
    case True
    then show ?thesis
      by (simp add: hex_nat.simps [of n] hex_as_decimal.simps [of n] hex_digit_decimal(1))
  next
    case False
    have IH: "parse_digits 10 0 (hex_nat (n div 16)) = hex_as_decimal (n div 16)"
      using 1 False by (simp add: less_mult_imp_div_less)
    have "10 * e + n mod 16 < 2 ^ 64" if "hex_as_decimal (n div 16) = Some e" for e
    proof -
      have "10 * e \<le> 16 * (n div 16)" using hex_as_decimal_le [OF that] by linarith
      then have "10 * e + n mod 16 \<le> 16 * (n div 16) + n mod 16" by (rule add_right_mono)
      with "1.prems" show ?thesis by simp
    qed
    then show ?thesis
      using False
      by (auto simp: hex_nat.simps [of n] hex_as_decimal.simps [of n] parse_digits_append IH
          hex_digit_decimal(1) not_le split: option.split)
  qed
qed

lemma hex_as_decimal_None: "hex_as_decimal n = None \<longleftrightarrow> (\<exists>c \<in> set (hex_nat n). hex_letter c)"
proof (induction n rule: hex_nat.induct)
  case (1 n)
  show ?case
  proof (cases "n < 16")
    case True
    then show ?thesis
      using hex_digit_decimal(2) [of n] by (simp add: hex_nat.simps [of n] hex_as_decimal.simps [of n] not_less)
  next
    case False
    have "(\<exists>c \<in> set (hex_nat n). hex_letter c) \<longleftrightarrow>
        (\<exists>c \<in> set (hex_nat (n div 16)). hex_letter c) \<or> 10 \<le> n mod 16"
      using False hex_digit_decimal(2) [of "n mod 16"] by (auto simp: hex_nat.simps [of n])
    then show ?thesis using 1 [OF False] False
      by (auto simp: hex_as_decimal.simps [of n] not_less split: option.splits)
  qed
qed

lemma share_height_hex:
  "share_height (hex_nat (unat (h :: u64)) @ CHR ''_'' # rest) =
     (case hex_as_decimal (unat h) of Some d \<Rightarrow> of_nat d | None \<Rightarrow> 0)"
proof -
  have "unat h < 2 ^ 64" using unat_lt_pow [of h] by simp
  then have "parse_u64 10 (hex_nat (unat h)) = map_option of_nat (hex_as_decimal (unat h))"
    using plus_not_hex [of "unat h"] hex_nat_not_empty [of "unat h"]
    by (cases "hex_nat (unat h)") (auto simp: parse_u64_def simp flip: parse_digits_hex)
  with found_share_height [of "unat h" rest] show ?thesis by (simp split: option.split)
qed

lemma not_stale_eq:
  assumes "nth_opt params 1 = Some (JStr job)"
    and "\<not> (0 < share_height job \<and> share_height job < sw_height (po_current_work p))"
  shows "handle_submit b lib env1 env2 clock p address mid request_id params =
    handle_submit b lib env1 env2 clock p address mid request_id (params[1 := JStr ''0''])"
proof -
  have len: "1 < length params" using assms(1) by (auto simp: nth_opt_def split: if_splits)
  have "str_param params 1 ''0'' = job" using assms(1) by (simp add: str_param_def)
  moreover have "str_param (params[1 := JStr ''0'']) 1 ''0'' = ''0''" using len by (simp add: str_param_def nth_opt_def)
  moreover have "share_height ''0'' = 0" by code_simp
  moreover have "nth_opt (params[1 := JStr ''0'']) i = nth_opt params i" if "i \<noteq> 1" for i
    using that by (simp add: nth_opt_def)
  then have "str_param (params[1 := JStr ''0'']) 2 = str_param params 2" "str_param (params[1 := JStr ''0'']) 3 = str_param params 3"
    "nth_opt (params[1 := JStr ''0'']) 4 = nth_opt params 4" by (simp_all add: str_param_def fun_eq_iff)
  ultimately show ?thesis using assms(2) unfolding handle_submit_def Let_def by (simp only: if_False less_irrefl simp_thms)
qed

text \<open>C37: Which shares the pool refuses as stale, for a job identifier as the repository writes them, with
  the height in hexadecimal. Where the height has a digit that is a letter, the pool sees no height and
  handles the share like one that names none, however old it is. Otherwise it reads the digits as a
  decimal number, which is at most the height and less from 16 on, and refuses the share, without asking
  the node and without any effect, exactly when that number is below its own height: so every
  such share for a past height, but also one for the very height it is at, from 16 on.\<close>

theorem stale_share_refused:
  fixes h :: u64
  assumes "nth_opt params 1 = Some (JStr (hex_nat (unat h) @ CHR ''_'' # rest))" and "0 < h"
  shows "case hex_as_decimal (unat h) of
      None \<Rightarrow> (\<exists>c \<in> set (hex_nat (unat h)). hex_letter c) \<and>
        handle_submit b lib env1 env2 clock p address mid request_id params =
        handle_submit b lib env1 env2 clock p address mid request_id (params[1 := JStr ''0''])
    | Some d \<Rightarrow> (\<forall>c \<in> set (hex_nat (unat h)). \<not> hex_letter c) \<and>
        0 < d \<and> d \<le> unat h \<and> (16 \<le> unat h \<longrightarrow> d < unat h) \<and>
        handle_submit b lib env1 env2 clock p address mid request_id params =
        (if d < unat (sw_height (po_current_work p))
         then Some (response request_id (JBool False)
           (JStr (''Stale share: block height mismatch (expected '' @ fmt_w (sw_height (po_current_work p)) @
                  '', got '' @ fmt_nat d @ '')'')), p)
         else handle_submit b lib env1 env2 clock p address mid request_id (params[1 := JStr ''0'']))"
proof (cases "hex_as_decimal (unat h)")
  case None
  then show ?thesis
    using not_stale_eq [OF assms(1)] hex_as_decimal_None [of "unat h"] by (simp add: share_height_hex)
next
  case (Some d)
  have d: "0 < d" "d \<le> unat h" "16 \<le> unat h \<longrightarrow> d < unat h"
    using hex_as_decimal_le [OF Some] assms(2) by (simp_all add: word_less_nat_alt)
  then have "d < 2 ^ 64" using unat_lt_pow [of h] by simp
  then have u: "unat (of_nat d :: u64) = d" by (simp add: unat_of_nat)
  then have sh: "share_height (hex_nat (unat h) @ CHR ''_'' # rest) = of_nat d" "(0 :: u64) < of_nat d"
    "of_nat d < sw_height (po_current_work p) \<longleftrightarrow> d < unat (sw_height (po_current_work p))"
    using d(1) by (simp_all add: share_height_hex Some word_less_nat_alt)
  have "handle_submit b lib env1 env2 clock p address mid request_id params =
      Some (response request_id (JBool False)
        (JStr (''Stale share: block height mismatch (expected '' @ fmt_w (sw_height (po_current_work p)) @
               '', got '' @ fmt_nat d @ '')'')), p)" if "d < unat (sw_height (po_current_work p))"
    using that sh assms(1) u by (simp add: handle_submit_def str_param_def fmt_w_def)
  then show ?thesis
    using not_stale_eq [OF assms(1)] hex_as_decimal_None [of "unat h"] d sh by (simp add: Some)
qed

theorem stale_share_refused_witness:
  "handle_submit Debug sample_lib sample_env sample_env None
     (update_work None ''w2'' sample_server ''00'' ''00'' 16) (Some sample_address) ''m1'' (JPos 7)
     [JStr ''rig'', JStr ''10_00'', JStr ''ff'', JStr ''00''] =
   Some (response (JPos 7) (JBool False)
     (JStr ''Stale share: block height mismatch (expected 16, got 10)''),
     update_work None ''w2'' sample_server ''00'' ''00'' 16)"
proof -
  have f: "fmt_nat 10 = ''10''" "fmt_w (16 :: u64) = ''16''" "hex_nat 16 = ''10''"
    "hex_as_decimal 16 = Some 10" by code_simp+
  have "nth_opt [JStr ''rig'', JStr ''10_00'', JStr ''ff'', JStr ''00''] 1 =
      Some (JStr (hex_nat (unat (16 :: u64)) @ CHR ''_'' # ''00''))"
    by (simp add: nth_opt_def f)
  note * = stale_share_refused [OF this, of Debug sample_lib sample_env sample_env None
      "update_work None ''w2'' sample_server ''00'' ''00'' 16" "Some sample_address" "''m1''" "JPos 7"]
  have "sw_height (po_current_work (update_work None ''w2'' sample_server ''00'' ''00'' 16)) = 16"
    by (simp add: update_work_def Let_def)
  with * show ?thesis by (simp add: f)
qed

text \<open>Inputs for the other two.\<close>

definition subscribe_request :: json where
  "subscribe_request = JObj [(''id'', JPos 1), (''method'', JStr ''mining.subscribe''),
     (''params'', JArr [JStr sample_address])]"

definition authorize_request :: json where
  "authorize_request = JObj [(''id'', JPos 2), (''method'', JStr ''mining.authorize''), (''params'', JArr [])]"

lemma subscribe_line:
  "\<exists>resp. handle_line b sample_lib (\<lambda>_. Inr subscribe_request) (sample_env\<lparr>pe_uuid := u\<rparr>) env2 clock c p ''{}'' =
   Some (resp, \<lparr>cn_miner_id = Some u, cn_address = Some sample_address, cn_authorized = False\<rparr>,
     snd (register_pool_miner sample_lib (sample_env\<lparr>pe_uuid := u\<rparr>) p sample_address))"
proof -
  have "request_params subscribe_request = [JStr sample_address]"
    "request_method subscribe_request = Some ''mining.subscribe''"
    by (simp_all add: subscribe_request_def request_params_def request_method_def json_get_def)
  then show ?thesis
    using sample_address_valid
    by (simp add: handle_line_def handle_request_def handle_subscribe_def str_param_def nth_opt_def
        register_pool_miner_def Let_def)
qed

lemma authorize_line:
  "cn_miner_id c = Some mid \<Longrightarrow>
   \<exists>resp. handle_line b sample_lib (\<lambda>_. Inr authorize_request) env1 env2 clock c p ''{}'' =
   Some (resp, c\<lparr>cn_authorized := True\<rparr>, p)"
  by (simp add: handle_line_def handle_request_def authorize_request_def request_method_def json_get_def Let_def)

theorem connection_invariant_witness:
  "\<exists>s. hm_get (po_miners sample_server) ''m1'' = Some s \<and> se_address s = sample_address \<and>
     validate_pool_address sample_lib (se_address s)"
proof -
  define q where "q = new_pool_state ''w'' 1 sample_config"
  define c1 where "c1 = \<lparr>cn_miner_id = Some ''m1'', cn_address = Some sample_address, cn_authorized = False\<rparr>"
  have q: "po_miners q = []" by (simp add: q_def new_pool_state_def)
  have env: "sample_env\<lparr>pe_uuid := ''m1''\<rparr> = sample_env" by (simp add: sample_env_def)
  obtain resp where "handle_line Release sample_lib (\<lambda>_. Inr subscribe_request) sample_env sample_env None
      new_connection q ''{}'' = Some (resp, c1, sample_server)"
    using subscribe_line [of Release "''m1''" sample_env None new_connection q]
    by (auto simp: env c1_def q_def sample_server_def)
  then have s1: "connection_step Release sample_lib (new_connection, q) (c1, sample_server)"
    using q by (intro connection_step.line [of q sample_env]) auto
  define e where "e = sample_env\<lparr>pe_uuid := ''m2''\<rparr>"
  obtain resp2 where "handle_line Release sample_lib (\<lambda>_. Inr authorize_request) e e None
      c1 sample_server ''{}'' = Some (resp2, c1\<lparr>cn_authorized := True\<rparr>, sample_server)"
    using authorize_line [of c1 "''m1''" Release e e None sample_server] by (auto simp: c1_def)
  then have s2: "connection_step Release sample_lib (c1, sample_server) (c1\<lparr>cn_authorized := True\<rparr>, sample_server)"
    by (intro connection_step.line [of sample_server e]) (simp_all add: e_def sample_server_miners)
  have "(connection_step Release sample_lib)\<^sup>*\<^sup>* (new_connection, q) (c1\<lparr>cn_authorized := True\<rparr>, sample_server)"
    by (rule converse_rtranclp_into_rtranclp [where r = "connection_step Release sample_lib", OF s1])
       (rule r_into_rtranclp [where r = "connection_step Release sample_lib", OF s2])
  from connection_invariant [OF this] show ?thesis by (auto simp: c1_def)
qed

theorem session_isolation_witness:
  "hm_get (po_miners (snd (register_pool_miner sample_lib (sample_env\<lparr>pe_uuid := ''m2''\<rparr>) sample_server
     sample_address))) ''m1'' = Some sample_session"
proof -
  obtain resp where l: "handle_line Debug sample_lib (\<lambda>_. Inr subscribe_request) (sample_env\<lparr>pe_uuid := ''m2''\<rparr>)
      sample_env None new_connection sample_server ''{}'' =
      Some (resp, \<lparr>cn_miner_id = Some ''m2'', cn_address = Some sample_address, cn_authorized = False\<rparr>,
        snd (register_pool_miner sample_lib (sample_env\<lparr>pe_uuid := ''m2''\<rparr>) sample_server sample_address))"
    using subscribe_line [of Debug "''m2''" sample_env None new_connection sample_server] by blast
  have "hm_get (po_miners sample_server) (pe_uuid (sample_env\<lparr>pe_uuid := ''m2''\<rparr>)) = None"
    by (simp add: sample_server_miners)
  from session_isolation [OF l this, of "''m1''" sample_session] show ?thesis
    by (simp add: sample_server_miners new_connection_def)
qed

lemma total_rate_finite:
  "list_all finite_rate fs \<Longrightarrow> finite_rate acc \<Longrightarrow> finite_rate (foldl f_add acc fs)"
  by (induction fs arbitrary: acc) (auto simp: finite_rate_def rne_nonneg)

text \<open>C36: The hashrate that the pool reports, the sum over its sessions, is a number in every state that the
  server reaches, neither an infinity nor NaN and never negative: a request for it is answered with a
  JSON number and never with null, on every connection.\<close>

theorem hashrate_is_a_number:
  assumes "(server_step b lib)\<^sup>*\<^sup>* (new_pool_state uuid now cfg) p"
    and "request_method request = Some ''mining.get_hashrate''"
  shows "\<exists>q. 0 \<le> q \<and> handle_request b2 lib env1 env2 clock c p request =
    Some (response (json_index request ''id'') (JFloat (Num q)) JNull, c, p)"
proof -
  have ok: "server_ok lib p" using assms(1) by (rule server_ok_reachable)
  have "finite_rate (se_hashrate s)" if s: "s \<in> set (hm_values (po_miners p))" for s
  proof -
    obtain k where "hm_get (po_miners p) k = Some s" using hm_in_values [OF _ s] ok by (auto simp: server_ok_def)
    with ok show ?thesis by (simp add: server_ok_def session_ok_def)
  qed
  then have "finite_rate (st_total_hashrate (sp_get_stats p))"
    unfolding sp_get_stats_def sp_stats.simps
    by (intro total_rate_finite) (auto simp: list_all_iff finite_rate_def)
  then obtain q where "st_total_hashrate (sp_get_stats p) = Num q" "0 \<le> q"
    by (auto simp: finite_rate_def)
  then show ?thesis
    by (intro exI [of _ q]) (simp add: handle_request_def assms(2) json_of_f64_def Let_def)
qed

definition hashrate_request :: json where
  "hashrate_request = JObj [(''id'', JPos 3), (''method'', JStr ''mining.get_hashrate'')]"

theorem hashrate_is_a_number_witness:
  "\<exists>q. 0 \<le> q \<and> handle_request Debug sample_lib sample_env sample_env None new_connection sample_server hashrate_request =
    Some (response (JPos 3) (JFloat (Num q)) JNull, new_connection, sample_server)"
proof -
  have m: "request_method hashrate_request = Some ''mining.get_hashrate''"
    "json_index hashrate_request ''id'' = JPos 3"
    by (simp_all add: hashrate_request_def request_method_def json_index_def json_get_def)
  from hashrate_is_a_number [OF sample_server_reachable [of Debug] m(1)] show ?thesis by (simp add: m(2))
qed

end
