(* ===== verification/Http_Work.thy ===== *)
theory Http_Work
  imports Stratum_Session
begin

text \<open>
  The HTTP server through which the pool's work is replaced (\<open>handle_http_request\<close> of
  \<open>src/stratum_pool.rs\<close>). A request is the text that the single \<open>read\<close> of the code obtained;
  \<open>serde_json::from_str\<close> is the argument \<open>parse\<close>, \<open>serde_json::to_string\<close> of the statistics is
  \<open>stats_text\<close>. The answer is \<open>None\<close> where the connection is closed without one.
\<close>

text \<open>\<open>str::find\<close>, giving what follows the first occurrence.\<close>

fun after :: "string \<Rightarrow> string \<Rightarrow> string option" where
  "after sep s =
     (if take (length sep) s = sep then Some (drop (length sep) s)
      else case s of [] \<Rightarrow> None | c # cs \<Rightarrow> after sep cs)"

declare after.simps [simp del]

definition crlf :: string where
  "crlf = [CHR 0x0D, CHR 0x0A]"

definition http_head :: "string \<Rightarrow> string list \<Rightarrow> string" where
  "http_head status headers = concat (map (\<lambda>l. l @ crlf) (status # headers)) @ crlf"

definition bad_request :: string where
  "bad_request = http_head ''HTTP/1.1 400 Bad Request'' [''Content-Length: 0'']"

definition status_ok_body :: string where
  "status_ok_body = [CHR ''{'', CHR 0x22] @ ''status'' @ [CHR 0x22, CHR '':'', CHR 0x22] @ ''ok'' @ [CHR 0x22, CHR ''}'']"

definition update_ok :: string where
  "update_ok = http_head ''HTTP/1.1 200 OK'' [''Content-Type: application/json'', ''Content-Length: 18''] @ status_ok_body"

definition stats_ok :: "string \<Rightarrow> string" where
  "stats_ok body =
     http_head ''HTTP/1.1 200 OK'' [''Content-Type: application/json'', ''Content-Length: '' @ fmt_nat (length body)] @ body"

definition or_else :: "'a \<Rightarrow> 'a option \<Rightarrow> 'a" where
  "or_else d x = (case x of Some v \<Rightarrow> v | None \<Rightarrow> d)"

definition handle_http_request ::
    "(string \<Rightarrow> string + json) \<Rightarrow> (sp_stats \<Rightarrow> string option) \<Rightarrow> u64 option \<Rightarrow> string \<Rightarrow> pool_state \<Rightarrow> string \<Rightarrow>
     string option \<times> pool_state" where
  "handle_http_request parse stats_text clock uuid p request =
     (if request = [] then (None, p)
      else if starts_with request ''POST /update_work'' then
        (case after (crlf @ crlf) request of
           Some body \<Rightarrow>
             (case parse body of
                Inr v \<Rightarrow>
                  let header = or_else ''0'' (Option.bind (json_get v ''header'') as_str);
                      target = or_else ''0'' (Option.bind (json_get v ''target'') as_str);
                      height = or_else 1 (Option.bind (json_get v ''height'') as_u64)
                  in (Some update_ok, update_work clock uuid p header target height)
              | Inl e \<Rightarrow> (Some bad_request, p))
         | None \<Rightarrow> (Some bad_request, p))
      else if starts_with request ''GET /stats'' then
        (case stats_text (sp_get_stats p) of
           Some body \<Rightarrow> (Some (stats_ok body), p)
         | None \<Rightarrow> (None, p))
      else (Some (http_head ''HTTP/1.1 404 Not Found'' [''Content-Length: 0'']), p))"

section \<open>The length a response announces\<close>

definition announced_length :: "string \<Rightarrow> u64 option" where
  "announced_length reply =
     Option.bind (after ''Content-Length: '' reply)
       (\<lambda>r. parse_u64 10 (takeWhile (\<lambda>c. c \<noteq> CHR 0x0D) r))"

definition response_body :: "string \<Rightarrow> string option" where
  "response_body reply = after (crlf @ crlf) reply"

lemma after_here: "after sep (sep @ s) = Some s"
  by (simp add: after.simps)

lemma after_step: "take (length sep) (c # cs) \<noteq> sep \<Longrightarrow> after sep (c # cs) = after sep cs"
  by (simp add: after.simps)

text \<open>Skipping a text in which the pattern's first character does not occur.\<close>

lemma after_skip: "x \<notin> set pre \<Longrightarrow> after (x # sep) (pre @ s) = after (x # sep) s"
  by (induction pre) (auto simp: after_step)

lemma fmt_nat_no_cr: "c \<notin> set ''0123456789'' \<Longrightarrow> c \<notin> set (fmt_nat n)"
  using set_fmt_nat [of n] by blast

lemma update_ok_lengths: "announced_length update_ok = Some 18" "response_body update_ok = Some status_ok_body"
  "length status_ok_body = 15"
  by code_simp+

lemma stats_ok_lengths:
  assumes "length body < 2 ^ 64"
  shows "announced_length (stats_ok body) = Some (of_nat (length body))"
    and "response_body (stats_ok body) = Some body"
proof -
  define pre where "pre = ''HTTP/1.1 200 OK'' @ crlf @ ''Content-Type: application/json'' @ crlf"
  define n where "n = fmt_nat (length body)"
  have eq: "stats_ok body = pre @ ''Content-Length: '' @ n @ crlf @ crlf @ body"
    by (simp add: stats_ok_def http_head_def pre_def n_def)
  have no: "CHR 0x0D \<notin> set n" unfolding n_def by (rule fmt_nat_no_cr) simp
  have "after ''Content-Length: '' (stats_ok body) = Some (n @ crlf @ crlf @ body)"
    by (simp add: eq pre_def crlf_def after.simps [of _ "_ # _"])
  moreover have "takeWhile (\<lambda>c. c \<noteq> CHR 0x0D) (n @ crlf @ crlf @ body) = n"
  proof -
    have "\<forall>c \<in> set n. c \<noteq> CHR 0x0D" using no by blast
    then show ?thesis by (simp add: takeWhile_append2 crlf_def)
  qed
  moreover have "n = fmt_w (of_nat (length body) :: u64)"
    using assms by (simp add: fmt_w_def n_def unat_of_nat)
  ultimately show "announced_length (stats_ok body) = Some (of_nat (length body))"
    by (simp add: announced_length_def parse_fmt_u64)
  have "after (crlf @ crlf) (stats_ok body) = after (crlf @ crlf) (n @ crlf @ crlf @ body)"
    by (simp add: eq pre_def crlf_def after.simps [of _ "_ # _"])
  also have "\<dots> = after (crlf @ crlf) (crlf @ crlf @ body)"
    using after_skip [OF no] by (simp add: crlf_def)
  also have "\<dots> = Some body" using after_here [of "crlf @ crlf" body] by simp
  finally show "response_body (stats_ok body) = Some body" by (simp add: response_body_def)
qed

text \<open>A successful work update is answered with a header that announces 18 bytes and a body of 15;
  statistics are answered with the length of their body.\<close>

theorem http_content_length:
  assumes "handle_http_request parse stats_text clock uuid p request = (Some reply, p')"
    and "\<And>st body. stats_text st = Some body \<Longrightarrow> length body < 2 ^ 64"
  shows "(p' \<noteq> p \<longrightarrow> announced_length reply = Some 18 \<and> map_option length (response_body reply) = Some 15) \<and>
    (\<not> starts_with request ''POST /update_work'' \<longrightarrow>
       announced_length reply = map_option (\<lambda>body. of_nat (length body)) (response_body reply))"
proof -
  have other: "announced_length bad_request = Some 0" "response_body bad_request = Some []"
    "announced_length (http_head ''HTTP/1.1 404 Not Found'' [''Content-Length: 0'']) = Some 0"
    "response_body (http_head ''HTTP/1.1 404 Not Found'' [''Content-Length: 0'']) = Some []"
    by code_simp+
  show ?thesis
    using assms(1) stats_ok_lengths [OF assms(2)]
    by (auto simp: handle_http_request_def update_ok_lengths other Let_def
        split: if_splits option.splits sum.splits)
qed

text \<open>Anybody who reaches the port may replace the work, and what a request leaves out is filled in: a
  JSON body that is not an object, or has none of the three members, sets the header and the target
  to the text 0 and the height back to 1. From then on no share is stale, whatever its job.\<close>

theorem http_update_resets_work:
  assumes "request \<noteq> []" and "starts_with request ''POST /update_work''"
    and "after (crlf @ crlf) request = Some body" and "parse body = Inr v"
    and "json_get v ''header'' = None" and "json_get v ''target'' = None" and "json_get v ''height'' = None"
  shows "\<exists>p'. handle_http_request parse stats_text clock uuid p request = (Some update_ok, p') \<and>
    sw_header (po_current_work p') = ''0'' \<and> sw_target (po_current_work p') = ''0'' \<and>
    sw_height (po_current_work p') = 1 \<and>
    \<not> (0 < share_height job \<and> share_height job < sw_height (po_current_work p'))"
proof -
  define h where "h = share_height job"
  have "\<not> (0 < h \<and> h < 1)" by unat_arith
  then show ?thesis
    using assms by (simp add: handle_http_request_def or_else_def update_work_def Let_def flip: h_def)
qed

definition sample_post :: string where
  "sample_post = ''POST /update_work HTTP/1.1'' @ crlf @ crlf @ ''null''"

definition sample_parse :: "string \<Rightarrow> string + json" where
  "sample_parse s = (if s = ''null'' then Inr JNull else Inl ''expected value'')"

lemma sample_post_body: "sample_post \<noteq> []" "starts_with sample_post ''POST /update_work''"
  "after (crlf @ crlf) sample_post = Some ''null''" "sample_parse ''null'' = Inr JNull"
  by code_simp+

theorem http_update_resets_work_witness:
  "\<exists>p'. handle_http_request sample_parse (\<lambda>_. None) None ''w3'' (update_work None ''w2'' sample_server ''00'' ''00'' 10)
      sample_post = (Some update_ok, p') \<and> sw_height (po_current_work p') = 1"
  using http_update_resets_work [of sample_post "''null''" sample_parse JNull "\<lambda>_. None" None "''w3''"
      "update_work None ''w2'' sample_server ''00'' ''00'' 10"] sample_post_body
  by (auto simp: json_get_def)

theorem http_content_length_witness:
  "announced_length update_ok = Some 18 \<and> map_option length (response_body update_ok) = Some 15"
proof -
  define p where "p = update_work None ''w2'' sample_server ''00'' ''00'' 10"
  define p' where "p' = update_work None ''w3'' p ''0'' ''0'' 1"
  have "handle_http_request sample_parse (\<lambda>_. None) None ''w3'' p sample_post = (Some update_ok, p')"
    using sample_post_body by (simp add: handle_http_request_def json_get_def or_else_def p'_def)
  moreover have "p' \<noteq> p"
  proof
    assume "p' = p"
    then have "sw_height (po_current_work p') = sw_height (po_current_work p)" by simp
    then show False by (simp add: p'_def p_def update_work_def Let_def)
  qed
  ultimately show ?thesis using http_content_length [of sample_parse "\<lambda>_. None" None "''w3''" p] by simp
qed

end
