(* ===== verification/Stratum_Client.thy ===== *)
theory Stratum_Client
  imports Json
begin

text \<open>
  The client with which a miner connects to a pool (\<open>src/stratum_client.rs\<close>). What the socket does
  is an argument: the outcome of each connection attempt, of each write, and of each read, which is a
  JSON value when the line parses. \<open>show\<close> is the text of a JSON value, \<open>dbg\<close> its debugging text.
  Time is in nanoseconds.
\<close>

datatype connection_state = Disconnected | Connected | Subscribed | Authorized

definition state_name :: "connection_state \<Rightarrow> string" where
  "state_name s = (case s of Disconnected \<Rightarrow> ''Disconnected'' | Connected \<Rightarrow> ''Connected''
     | Subscribed \<Rightarrow> ''Subscribed'' | Authorized \<Rightarrow> ''Authorized'')"

text \<open>Of the two halves of the socket only their presence matters.\<close>

record pool_client =
  pc_pool_addr :: string
  pc_miner_address :: string
  pc_reader :: bool
  pc_writer :: bool
  pc_subscription_id :: "string option"
  pc_state :: connection_state
  pc_request_id :: u64
  pc_max_reconnect_attempts :: u32
  pc_last_keepalive :: nat
  pc_block_height :: u64

definition new_pool_client :: "nat \<Rightarrow> string \<Rightarrow> string \<Rightarrow> pool_client" where
  "new_pool_client now pool_addr miner_address =
     \<lparr>pc_pool_addr = pool_addr, pc_miner_address = miner_address, pc_reader = False, pc_writer = False,
      pc_subscription_id = None, pc_state = Disconnected, pc_request_id = 1,
      pc_max_reconnect_attempts = 5, pc_last_keepalive = now, pc_block_height = 0\<rparr>"

datatype write_outcome = Written | WriteFailed string | FlushFailed string

datatype read_outcome =
  ReadValue json
| ReadNotJson string
| ReadEmpty
| ReadEof
| ReadFailed string
| ReadTimedOut

section \<open>Addresses\<close>

definition strip_prefix :: "string \<Rightarrow> string \<Rightarrow> string option" where
  "strip_prefix s prefix = (if starts_with s prefix then Some (drop (length prefix) s) else None)"

text \<open>\<open>split_once\<close> at a character.\<close>

definition split_once :: "char \<Rightarrow> string \<Rightarrow> (string \<times> string) option" where
  "split_once c s =
     (if c \<in> set s then Some (takeWhile (\<lambda>d. d \<noteq> c) s, tl (dropWhile (\<lambda>d. d \<noteq> c) s)) else None)"

definition parse_u16 :: "string \<Rightarrow> u16 option" where
  "parse_u16 s =
     (case parse_u64 10 s of Some n \<Rightarrow> if unat n < 2 ^ 16 then Some (ucast n) else None | None \<Rightarrow> None)"

definition parse_pool_url :: "string \<Rightarrow> string + string \<times> u16" where
  "parse_pool_url url =
     (let url = (case strip_prefix url ''https://'' of
            Some rest \<Rightarrow> rest
          | None \<Rightarrow> (case strip_prefix url ''http://'' of Some rest \<Rightarrow> rest | None \<Rightarrow> url))
      in case split_once (CHR '':'') url of
           Some (host, port_str) \<Rightarrow>
             (case parse_u16 port_str of
                Some port \<Rightarrow> Inr (host, port)
              | None \<Rightarrow> Inl (''Invalid port: '' @ port_str))
         | None \<Rightarrow> Inr (url, 3333))"

section \<open>Requests\<close>

definition next_request_id :: "pool_client \<Rightarrow> u64 \<times> pool_client" where
  "next_request_id c = (pc_request_id c, c\<lparr>pc_request_id := pc_request_id c + 1\<rparr>)"

definition send_request :: "write_outcome \<Rightarrow> pool_client \<Rightarrow> (string + unit) \<times> pool_client" where
  "send_request wo c =
     (if pc_writer c then
        (case wo of
           Written \<Rightarrow> (Inr (), c)
         | FlushFailed e \<Rightarrow> (Inl (''Failed to flush request: '' @ e), c\<lparr>pc_state := Disconnected\<rparr>)
         | WriteFailed e \<Rightarrow> (Inl (''Failed to send request: '' @ e), c\<lparr>pc_state := Disconnected\<rparr>))
      else (Inl ''Not connected to pool'', c))"

text \<open>Reading; the timeout of the callers is \<open>None\<close>.\<close>

definition read_response :: "pool_client \<Rightarrow> read_outcome \<Rightarrow> (string + json) option" where
  "read_response c ro =
     (if \<not> pc_reader c then Some (Inl ''Not connected to pool'')
      else case ro of
        ReadValue v \<Rightarrow> Some (Inr v)
      | ReadNotJson e \<Rightarrow> Some (Inl (''Failed to parse response: '' @ e))
      | ReadEmpty \<Rightarrow> Some (Inl ''Empty response from pool'')
      | ReadEof \<Rightarrow> Some (Inl ''Connection closed by pool'')
      | ReadFailed e \<Rightarrow> Some (Inl (''Read error: '' @ e))
      | ReadTimedOut \<Rightarrow> None)"

definition subscribe_message :: "u64 \<Rightarrow> string \<Rightarrow> json" where
  "subscribe_message request_id address =
     JObj [(''id'', JPos request_id), (''method'', JStr ''mining.subscribe''), (''params'', JArr [JStr address])]"

definition authorize_message :: "u64 \<Rightarrow> string \<Rightarrow> json" where
  "authorize_message request_id address =
     JObj [(''id'', JPos request_id), (''method'', JStr ''mining.authorize''),
       (''params'', JArr [JStr address, JStr []])]"

definition subscribe_client ::
    "(json \<Rightarrow> string) \<Rightarrow> (json \<Rightarrow> string) \<Rightarrow> write_outcome \<Rightarrow> read_outcome \<Rightarrow> pool_client \<Rightarrow>
     (string + unit) \<times> pool_client" where
  "subscribe_client show dbg wo ro c =
     (case next_request_id c of (request_id, c) \<Rightarrow>
      case send_request wo c of
        (Inl e, c) \<Rightarrow> (Inl e, c)
      | (Inr _, c) \<Rightarrow>
          (case read_response c ro of
             None \<Rightarrow> (Inl ''Subscribe response timeout'', c)
           | Some (Inl e) \<Rightarrow> (Inl (''Subscribe response error: '' @ e), c)
           | Some (Inr resp) \<Rightarrow>
               (case json_get resp ''result'' of
                  Some (JArr arr) \<Rightarrow>
                    (case nth_opt arr 0 of
                       Some (JStr sub_id) \<Rightarrow>
                         (Inr (), c\<lparr>pc_subscription_id := Some sub_id, pc_state := Subscribed\<rparr>)
                     | _ \<Rightarrow> (Inl ''Invalid subscription ID in response'', c))
                | Some other \<Rightarrow> (Inl (''Unexpected result type in subscription: '' @ dbg other), c)
                | None \<Rightarrow>
                    (case json_get resp ''error'' of
                       Some e \<Rightarrow> (Inl (''Pool error: '' @ show e), c)
                     | None \<Rightarrow> (Inl ''No result or error in subscription response'', c)))))"

definition authorize_client ::
    "(json \<Rightarrow> string) \<Rightarrow> (json \<Rightarrow> string) \<Rightarrow> write_outcome \<Rightarrow> read_outcome \<Rightarrow> pool_client \<Rightarrow>
     (string + unit) \<times> pool_client" where
  "authorize_client show dbg wo ro c =
     (case next_request_id c of (request_id, c) \<Rightarrow>
      case send_request wo c of
        (Inl e, c) \<Rightarrow> (Inl e, c)
      | (Inr _, c) \<Rightarrow>
          (case read_response c ro of
             None \<Rightarrow> (Inl ''Authorization response timeout'', c)
           | Some (Inl e) \<Rightarrow> (Inl (''Authorization response error: '' @ e), c)
           | Some (Inr resp) \<Rightarrow>
               (case json_get resp ''result'' of
                  Some (JBool True) \<Rightarrow> (Inr (), c\<lparr>pc_state := Authorized\<rparr>)
                | Some (JBool False) \<Rightarrow>
                    (case json_get resp ''error'' of
                       Some e \<Rightarrow> (Inl (''Authorization rejected: '' @ show e), c)
                     | None \<Rightarrow> (Inl ''Authorization rejected by pool'', c))
                | Some other \<Rightarrow> (Inl (''Unexpected result type in authorization: '' @ dbg other), c)
                | None \<Rightarrow>
                    (case json_get resp ''error'' of
                       Some e \<Rightarrow> (Inl (''Pool error: '' @ show e), c)
                     | None \<Rightarrow> (Inl ''No result or error in authorization response'', c)))))"

text \<open>The attempts to connect: \<open>net i\<close> is the error of attempt \<open>i\<close>, if it fails.\<close>

function try_connect :: "u32 \<Rightarrow> (nat \<Rightarrow> string option) \<Rightarrow> nat \<Rightarrow> string option" where
  "try_connect max_attempts net attempts =
     (case net attempts of
        None \<Rightarrow> None
      | Some e \<Rightarrow>
          if attempts + 1 \<ge> unat max_attempts
          then Some (''Failed to connect to pool after '' @ fmt_w max_attempts @ '' attempts: '' @ e)
          else try_connect max_attempts net (attempts + 1))"
  by pat_completeness auto

termination
  by (relation "measure (\<lambda>(m, _, a). unat m - a)") auto

declare try_connect.simps [simp del]

definition connect ::
    "(json \<Rightarrow> string) \<Rightarrow> (json \<Rightarrow> string) \<Rightarrow> (nat \<Rightarrow> string option) \<Rightarrow> write_outcome \<Rightarrow> read_outcome \<Rightarrow>
     write_outcome \<Rightarrow> read_outcome \<Rightarrow> pool_client \<Rightarrow> (string + unit) \<times> pool_client" where
  "connect show dbg net wo1 ro1 wo2 ro2 c =
     (case parse_pool_url (pc_pool_addr c) of
        Inl e \<Rightarrow> (Inl e, c)
      | Inr _ \<Rightarrow>
          (case try_connect (pc_max_reconnect_attempts c) net 0 of
             Some e \<Rightarrow> (Inl e, c)
           | None \<Rightarrow>
               (case subscribe_client show dbg wo1 ro1
                       (c\<lparr>pc_reader := True, pc_writer := True, pc_state := Connected\<rparr>) of
                  (Inl e, c) \<Rightarrow> (Inl (''Subscription failed: '' @ e), c)
                | (Inr _, c) \<Rightarrow>
                    (case authorize_client show dbg wo2 ro2 c of
                       (Inl e, c) \<Rightarrow> (Inl (''Authorization failed: '' @ e), c)
                     | (Inr _, c) \<Rightarrow> (Inr (), c)))))"

definition reconnect where
  "reconnect show dbg net wo1 ro1 wo2 ro2 c =
     connect show dbg net wo1 ro1 wo2 ro2 (c\<lparr>pc_reader := False, pc_writer := False, pc_state := Disconnected\<rparr>)"

section \<open>Shares\<close>

definition skipped_method :: "json \<Rightarrow> bool" where
  "skipped_method resp \<longleftrightarrow>
     json_get resp ''method'' \<in> {Some (JStr ''mining.ping''), Some (JStr ''pong'')}"

text \<open>Waiting for the answer: \<open>None\<close> while what has been read so far does not answer the request.\<close>

fun await_response :: "pool_client \<Rightarrow> u64 \<Rightarrow> read_outcome list \<Rightarrow> (string + json) option" where
  "await_response c request_id [] = None"
| "await_response c request_id (ro # ros) =
     (case read_response c ro of
        None \<Rightarrow> Some (Inl ''Share response timeout'')
      | Some (Inl e) \<Rightarrow> Some (Inl (''Share response error: '' @ e))
      | Some (Inr resp) \<Rightarrow>
          if skipped_method resp then await_response c request_id ros
          else if Option.bind (json_get resp ''id'') as_u64 = Some request_id then Some (Inr resp)
          else await_response c request_id ros)"

definition share_verdict :: "json \<Rightarrow> bool" where
  "share_verdict resp =
     (case json_get resp ''result'' of
        Some (JBool True) \<Rightarrow> True
      | Some (JBool False) \<Rightarrow> False
      | Some (JStr s) \<Rightarrow> True
      | Some JNull \<Rightarrow> True
      | Some other \<Rightarrow> True
      | None \<Rightarrow> json_get resp ''error'' = None)"

definition submit_request :: "u64 \<Rightarrow> string \<Rightarrow> string \<Rightarrow> u64 \<Rightarrow> string \<Rightarrow> bool \<Rightarrow> json" where
  "submit_request request_id address job_id nonce h is_block =
     JObj [(''id'', JPos request_id), (''method'', JStr ''mining.submit''),
       (''params'', JArr [JStr address, JStr job_id, JStr (hex_nat (unat nonce)), JStr h, JBool is_block])]"

text \<open>The result is \<open>None\<close> while it still waits.\<close>

definition client_submit_share ::
    "write_outcome \<Rightarrow> read_outcome list \<Rightarrow> pool_client \<Rightarrow> (string + bool) option \<times> pool_client" where
  "client_submit_share wo ros c =
     (if pc_state c \<noteq> Authorized
      then (Some (Inl (''Not authorized (state: '' @ state_name (pc_state c) @ ''). Must call connect() first.'')), c)
      else case next_request_id c of (request_id, c) \<Rightarrow>
        case send_request wo c of
          (Inl e, c) \<Rightarrow> (Some (Inl e), c)
        | (Inr _, c) \<Rightarrow>
            (case await_response c request_id ros of
               None \<Rightarrow> (None, c)
             | Some (Inl e) \<Rightarrow> (Some (Inl e), c)
             | Some (Inr resp) \<Rightarrow> (Some (Inr (share_verdict resp)), c)))"

section \<open>Keeping the connection, and work\<close>

definition is_connected :: "pool_client \<Rightarrow> bool" where
  "is_connected c \<longleftrightarrow> pc_state c \<noteq> Disconnected"

definition is_authorized :: "pool_client \<Rightarrow> bool" where
  "is_authorized c \<longleftrightarrow> pc_state c = Authorized"

definition send_keepalive :: "nat \<Rightarrow> nat \<Rightarrow> write_outcome \<Rightarrow> pool_client \<Rightarrow> (string + unit) \<times> pool_client" where
  "send_keepalive now now2 wo c =
     (if now - pc_last_keepalive c < 15000000000 then (Inr (), c)
      else if pc_state c \<noteq> Authorized then (Inr (), c)
      else case next_request_id c of (request_id, c) \<Rightarrow>
        case send_request wo c of
          (Inr _, c) \<Rightarrow> (Inr (), c\<lparr>pc_last_keepalive := now2\<rparr>)
        | (Inl e, c) \<Rightarrow> (Inl e, c\<lparr>pc_state := Disconnected\<rparr>))"

definition update_block_height :: "u64 \<Rightarrow> pool_client \<Rightarrow> pool_client" where
  "update_block_height h c = c\<lparr>pc_block_height := h\<rparr>"

definition get_block_height :: "pool_client \<Rightarrow> u64" where
  "get_block_height c = pc_block_height c"

definition work_height :: "string \<Rightarrow> u64" where
  "work_height job_id =
     (let h = takeWhile (\<lambda>c. c \<noteq> CHR ''_'') job_id
      in case parse_u64 16 h of Some n \<Rightarrow> n
         | None \<Rightarrow> (case parse_u64 10 h of Some n \<Rightarrow> n | None \<Rightarrow> 0))"

definition process_work_notification :: "json list \<Rightarrow> pool_client \<Rightarrow> (string + unit) \<times> pool_client" where
  "process_work_notification params c =
     (if length params < 9 then (Inl ''Invalid mining.notify params length'', c)
      else case nth_opt params 0 of
        Some (JStr job_id) \<Rightarrow>
          (case nth_opt params 6 of
             Some (JStr _) \<Rightarrow>
               (case nth_opt params 7 of
                  Some (JStr _) \<Rightarrow>
                    let height = work_height job_id
                    in (Inr (), if height > 0 then update_block_height height c else c)
                | _ \<Rightarrow> (Inl ''Invalid time in mining.notify'', c))
           | _ \<Rightarrow> (Inl ''Invalid bits in mining.notify'', c))
      | _ \<Rightarrow> (Inl ''Invalid job_id in mining.notify'', c))"

section \<open>The states of a client\<close>

text \<open>What a program that uses the client can do, connecting apart.\<close>

inductive client_use :: "pool_client \<Rightarrow> pool_client \<Rightarrow> bool" where
  submit: "client_submit_share wo ros c = (rb, c') \<Longrightarrow> client_use c c'"
| keepalive: "send_keepalive now now2 wo c = (r, c') \<Longrightarrow> client_use c c'"
| height: "client_use c (update_block_height h c)"
| notification: "process_work_notification params c = (r, c') \<Longrightarrow> client_use c c'"

inductive client_step :: "pool_client \<Rightarrow> pool_client \<Rightarrow> bool" where
  connect: "connect show dbg net wo1 ro1 wo2 ro2 c = (r, c') \<Longrightarrow> client_step c c'"
| reconnect: "reconnect show dbg net wo1 ro1 wo2 ro2 c = (r, c') \<Longrightarrow> client_step c c'"
| uses: "client_use c c' \<Longrightarrow> client_step c c'"

definition client_ok :: "pool_client \<Rightarrow> bool" where
  "client_ok c \<longleftrightarrow> pc_reader c = pc_writer c \<and> (pc_state c \<noteq> Disconnected \<longrightarrow> pc_writer c) \<and>
     (pc_state c \<in> {Subscribed, Authorized} \<longrightarrow> pc_subscription_id c \<noteq> None)"

lemma client_ok_fields:
  "client_ok (c\<lparr>pc_request_id := i\<rparr>) = client_ok c" "client_ok (c\<lparr>pc_last_keepalive := n\<rparr>) = client_ok c"
  "client_ok (c\<lparr>pc_block_height := h\<rparr>) = client_ok c" "client_ok c \<Longrightarrow> client_ok (c\<lparr>pc_state := Disconnected\<rparr>)"
  by (simp_all add: client_ok_def)

lemma client_ok_send: "send_request wo c = (r, c') \<Longrightarrow> client_ok c \<Longrightarrow> client_ok c'"
  by (auto simp: send_request_def client_ok_fields split: write_outcome.splits if_splits)

lemma send_request_Inr: "send_request wo c = (Inr u, c') \<Longrightarrow> c' = c \<and> pc_writer c"
  by (auto simp: send_request_def split: write_outcome.splits if_splits)

lemma client_ok_subscribe:
  assumes "subscribe_client show dbg wo ro c = (r, c')" and "client_ok c"
  shows "client_ok c' \<and> (\<forall>u. r = Inr u \<longrightarrow> pc_state c' = Subscribed)"
proof -
  obtain rs c1 where s: "send_request wo (c\<lparr>pc_request_id := pc_request_id c + 1\<rparr>) = (rs, c1)" by fastforce
  have ok: "client_ok c1" using client_ok_send [OF s] assms(2) by (simp add: client_ok_fields)
  show ?thesis
  proof (cases rs)
    case (Inl e)
    with assms(1) s ok show ?thesis by (auto simp: subscribe_client_def next_request_id_def)
  next
    case (Inr u)
    with s send_request_Inr have "pc_writer c1" by fastforce
    with assms(1) s ok Inr show ?thesis
      by (auto simp: subscribe_client_def next_request_id_def client_ok_def
          split: option.splits sum.splits json.splits)
  qed
qed

lemma client_ok_authorize:
  assumes "authorize_client show dbg wo ro c = (r, c')" and "client_ok c" and "pc_state c = Subscribed"
  shows "client_ok c'"
proof -
  obtain rs c1 where s: "send_request wo (c\<lparr>pc_request_id := pc_request_id c + 1\<rparr>) = (rs, c1)" by fastforce
  have ok: "client_ok c1" using client_ok_send [OF s] assms(2) by (simp add: client_ok_fields)
  show ?thesis
  proof (cases rs)
    case (Inl e)
    with assms(1) s ok show ?thesis by (auto simp: authorize_client_def next_request_id_def)
  next
    case (Inr u)
    then have "c1 = c\<lparr>pc_request_id := pc_request_id c + 1\<rparr>" using s send_request_Inr by fastforce
    with assms s Inr show ?thesis
      by (auto simp: authorize_client_def next_request_id_def client_ok_def
          split: option.splits sum.splits json.splits bool.splits)
  qed
qed

lemma client_ok_connect:
  assumes "connect show dbg net wo1 ro1 wo2 ro2 c = (r, c')" and "client_ok c"
  shows "client_ok c'"
proof -
  let ?c1 = "c\<lparr>pc_reader := True, pc_writer := True, pc_state := Connected\<rparr>"
  have ok1: "client_ok ?c1" by (simp add: client_ok_def)
  obtain rs c2 where s: "subscribe_client show dbg wo1 ro1 ?c1 = (rs, c2)" by fastforce
  obtain ra c3 where a: "authorize_client show dbg wo2 ro2 c2 = (ra, c3)" by fastforce
  have "c' = c \<or> c' = c2 \<or> (\<exists>u. rs = Inr u) \<and> c' = c3"
    using assms(1) s a by (auto simp: connect_def split: sum.splits option.splits prod.splits)
  with client_ok_subscribe [OF s ok1] client_ok_authorize [OF a] assms(2) show ?thesis by blast
qed

lemma client_ok_use: "client_use c c' \<Longrightarrow> client_ok c \<Longrightarrow> client_ok c'"
proof (induction rule: client_use.induct)
  case (submit wo ros c rb c')
  obtain rs c1 where s: "send_request wo (c\<lparr>pc_request_id := pc_request_id c + 1\<rparr>) = (rs, c1)" by fastforce
  have "client_ok c1" using client_ok_send [OF s] submit(2) by (simp add: client_ok_fields)
  with submit s show ?case
    by (auto simp: client_submit_share_def next_request_id_def split: if_splits option.splits sum.splits)
next
  case (keepalive now now2 wo c r c')
  obtain rs c1 where s: "send_request wo (c\<lparr>pc_request_id := pc_request_id c + 1\<rparr>) = (rs, c1)" by fastforce
  have "client_ok c1" using client_ok_send [OF s] keepalive(2) by (simp add: client_ok_fields)
  with keepalive s show ?case
    by (auto simp: send_keepalive_def next_request_id_def client_ok_fields split: if_splits sum.splits)
next
  case (height c h)
  then show ?case by (simp add: update_block_height_def client_ok_fields)
next
  case (notification params c r c')
  then show ?case
    by (auto simp: process_work_notification_def update_block_height_def client_ok_fields Let_def
        split: if_splits option.splits json.splits)
qed

lemma client_ok_step: "client_step c c' \<Longrightarrow> client_ok c \<Longrightarrow> client_ok c'"
proof (induction rule: client_step.induct)
  case (connect shw dbg net wo1 ro1 wo2 ro2 c r c')
  then show ?case by (rule client_ok_connect)
next
  case (reconnect shw dbg net wo1 ro1 wo2 ro2 c r c')
  have "client_ok (c\<lparr>pc_reader := False, pc_writer := False, pc_state := Disconnected\<rparr>)"
    by (simp add: client_ok_def)
  with reconnect(1) show ?case unfolding reconnect_def by (rule client_ok_connect)
next
  case (uses c c')
  then show ?case by (rule client_ok_use)
qed

lemma client_ok_reachable: "client_step\<^sup>*\<^sup>* (new_pool_client now addr miner) c \<Longrightarrow> client_ok c"
  by (induction rule: rtranclp_induct) (simp add: client_ok_def new_pool_client_def, rule client_ok_step)

text \<open>A write that fails.\<close>

lemma send_request_failed:
  "wo \<noteq> Written \<Longrightarrow> pc_writer c \<Longrightarrow> \<exists>e. send_request wo c = (Inl e, c\<lparr>pc_state := Disconnected\<rparr>)"
  by (cases wo) (simp_all add: send_request_def)

lemma failed_writes_disconnect:
  assumes "wo \<noteq> Written" and "client_ok c"
  shows "pc_state c = Authorized \<Longrightarrow>
      \<exists>e c'. client_submit_share wo ros c = (Some (Inl e), c') \<and> pc_state c' = Disconnected"
    and "pc_state c = Authorized \<Longrightarrow> 15000000000 \<le> now - pc_last_keepalive c \<Longrightarrow>
      \<exists>e c'. send_keepalive now now2 wo c = (Inl e, c') \<and> pc_state c' = Disconnected"
    and "pc_writer c \<Longrightarrow> \<exists>e c'. subscribe_client show dbg wo ro c = (Inl e, c') \<and> pc_state c' = Disconnected"
    and "pc_writer c \<Longrightarrow> \<exists>e c'. authorize_client show dbg wo ro c = (Inl e, c') \<and> pc_state c' = Disconnected"
proof -
  let ?c = "c\<lparr>pc_request_id := pc_request_id c + 1\<rparr>"
  have sent: "\<exists>e. send_request wo ?c = (Inl e, ?c\<lparr>pc_state := Disconnected\<rparr>)" if "pc_writer c"
    using send_request_failed [OF assms(1), of ?c] that by simp
  have w: "pc_state c = Authorized \<Longrightarrow> pc_writer c" using assms(2) by (simp add: client_ok_def)
  show "pc_state c = Authorized \<Longrightarrow>
      \<exists>e c'. client_submit_share wo ros c = (Some (Inl e), c') \<and> pc_state c' = Disconnected"
    using sent w by (fastforce simp: client_submit_share_def next_request_id_def)
  show "pc_state c = Authorized \<Longrightarrow> 15000000000 \<le> now - pc_last_keepalive c \<Longrightarrow>
      \<exists>e c'. send_keepalive now now2 wo c = (Inl e, c') \<and> pc_state c' = Disconnected"
    using sent w by (fastforce simp: send_keepalive_def next_request_id_def)
  show "pc_writer c \<Longrightarrow> \<exists>e c'. subscribe_client show dbg wo ro c = (Inl e, c') \<and> pc_state c' = Disconnected"
    using sent by (fastforce simp: subscribe_client_def next_request_id_def)
  show "pc_writer c \<Longrightarrow> \<exists>e c'. authorize_client show dbg wo ro c = (Inl e, c') \<and> pc_state c' = Disconnected"
    using sent by (fastforce simp: authorize_client_def next_request_id_def)
qed

text \<open>Only connecting leaves the disconnected state.\<close>

lemma disconnected_refuses:
  "pc_state c = Disconnected \<Longrightarrow>
   client_submit_share wo ros c =
     (Some (Inl ''Not authorized (state: Disconnected). Must call connect() first.''), c)"
  by (simp add: client_submit_share_def state_name_def)

lemma disconnected_use: "client_use c c' \<Longrightarrow> pc_state c = Disconnected \<Longrightarrow> pc_state c' = Disconnected"
proof (induction rule: client_use.induct)
  case (submit wo ros c rb c')
  then show ?case by (simp add: disconnected_refuses)
next
  case (keepalive now now2 wo c r c')
  then show ?case by (auto simp: send_keepalive_def split: if_splits)
next
  case (height c h)
  then show ?case by (simp add: update_block_height_def)
next
  case (notification params c r c')
  then show ?case
    by (auto simp: process_work_notification_def update_block_height_def Let_def
        split: if_splits option.splits json.splits)
qed

lemma disconnected_uses: "client_use\<^sup>*\<^sup>* c c' \<Longrightarrow> pc_state c = Disconnected \<Longrightarrow> pc_state c' = Disconnected"
  by (induction rule: rtranclp_induct) (simp_all add: disconnected_use)

lemma connect_writes:
  assumes "parse_pool_url (pc_pool_addr c) = Inr hp" and "try_connect (pc_max_reconnect_attempts c) net 0 = None"
    and "wo1 \<noteq> Written \<or> wo2 \<noteq> Written \<and>
      fst (subscribe_client show dbg wo1 ro1 (c\<lparr>pc_reader := True, pc_writer := True, pc_state := Connected\<rparr>)) = Inr ()"
  shows "\<exists>e c'. connect show dbg net wo1 ro1 wo2 ro2 c = (Inl e, c') \<and> pc_state c' = Disconnected"
proof -
  let ?c1 = "c\<lparr>pc_reader := True, pc_writer := True, pc_state := Connected\<rparr>"
  have ok1: "client_ok ?c1" by (simp add: client_ok_def)
  obtain rs c2 where s: "subscribe_client show dbg wo1 ro1 ?c1 = (rs, c2)" by fastforce
  show ?thesis
  proof (cases "wo1 = Written")
    case False
    have "\<exists>e c'. subscribe_client show dbg wo1 ro1 ?c1 = (Inl e, c') \<and> pc_state c' = Disconnected"
      by (rule failed_writes_disconnect(3) [OF False ok1]) simp
    with s obtain e where "rs = Inl e" "pc_state c2 = Disconnected" by auto
    with assms(1,2) s show ?thesis by (auto simp: connect_def)
  next
    case True
    with assms(3) s have *: "rs = Inr ()" "wo2 \<noteq> Written" by auto
    with client_ok_subscribe [OF s ok1] have "client_ok c2" "pc_writer c2" by (auto simp: client_ok_def)
    with failed_writes_disconnect(4) [OF *(2)] obtain e c3 where
      "authorize_client show dbg wo2 ro2 c2 = (Inl e, c3)" "pc_state c3 = Disconnected" by blast
    with assms(1,2) s * show ?thesis by (auto simp: connect_def)
  qed
qed

text \<open>C12: Whatever the socket and the pool do, a client that is not disconnected has its socket, and one
  that is subscribed or authorized has a subscription. A client whose write failed, be it of a share,
  of a keepalive or of the requests with which it connects, is disconnected by that; and from then on,
  whatever its user does short of connecting again, and likewise for a client that never connected, it
  refuses every share with an error and stays as it is.\<close>

theorem client_states:
  assumes "client_step\<^sup>*\<^sup>* (new_pool_client now addr miner) c"
  shows "((pc_state c \<noteq> Disconnected \<longrightarrow> pc_reader c \<and> pc_writer c) \<and>
      (pc_state c \<in> {Subscribed, Authorized} \<longrightarrow> pc_subscription_id c \<noteq> None)) \<and>
      (pc_state c = Authorized \<and> wo \<noteq> Written \<longrightarrow>
      (\<exists>e c'. client_submit_share wo ros c = (Some (Inl e), c') \<and> pc_state c' = Disconnected)) \<and>
      (pc_state c = Authorized \<and> wo \<noteq> Written \<and> 15000000000 \<le> clock - pc_last_keepalive c \<longrightarrow>
      (\<exists>e c'. send_keepalive clock clock2 wo c = (Inl e, c') \<and> pc_state c' = Disconnected)) \<and>
      (parse_pool_url (pc_pool_addr c) = Inr hp \<and> try_connect (pc_max_reconnect_attempts c) net 0 = None \<and>
      (wo1 \<noteq> Written \<or> wo2 \<noteq> Written \<and>
        fst (subscribe_client show dbg wo1 ro1 (c\<lparr>pc_reader := True, pc_writer := True, pc_state := Connected\<rparr>)) = Inr ()) \<longrightarrow>
      (\<exists>e c'. connect show dbg net wo1 ro1 wo2 ro2 c = (Inl e, c') \<and> pc_state c' = Disconnected)) \<and>
      (pc_state c = Disconnected \<and> client_use\<^sup>*\<^sup>* c c' \<longrightarrow>
      client_submit_share wo ros c' =
        (Some (Inl ''Not authorized (state: Disconnected). Must call connect() first.''), c'))"
    (is "?A \<and> ?B \<and> ?C \<and> ?D \<and> ?E")
proof -
  note ok = client_ok_reachable [OF assms]
  have hA: ?A
    using ok by (auto simp: client_ok_def)
  have hB: ?B
    and hC: ?C
    using failed_writes_disconnect(1,2) [OF _ ok] by blast+
  have hD: ?D
    using connect_writes by blast
  have hE: ?E
    using disconnected_uses disconnected_refuses by blast
  show ?thesis by (rule conjI [OF hA conjI [OF hB conjI [OF hC conjI [OF hD hE]]]])
qed

text \<open>A client that has connected, and the failed write of a share.\<close>

definition connected_client :: pool_client where
  "connected_client = snd (connect (\<lambda>_. []) (\<lambda>_. []) (\<lambda>_. None)
     Written (ReadValue (JObj [(''result'', JArr [JStr ''s1''])])) Written (ReadValue (JObj [(''result'', JBool True)]))
     (new_pool_client 0 ''pool:3333'' ''SLVR1''))"

theorem client_states_witness:
  "pc_state connected_client = Authorized \<and>
   (\<exists>e c'. client_submit_share (WriteFailed ''broken pipe'') [] connected_client = (Some (Inl e), c') \<and>
      pc_state c' = Disconnected)"
proof -
  have "client_step (new_pool_client 0 ''pool:3333'' ''SLVR1'') connected_client"
    unfolding connected_client_def by (rule client_step.connect [OF prod.collapse [symmetric]])
  then have run: "client_step\<^sup>*\<^sup>* (new_pool_client 0 ''pool:3333'' ''SLVR1'') connected_client" by blast
  have "pc_state connected_client = Authorized" by code_simp
  with client_states [OF run, of "WriteFailed ''broken pipe''" "[]"] show ?thesis by simp
qed

text \<open>The end of the connection is not noticed by reading: the state stays as it was.\<close>

lemma eof_keeps_state:
  "pc_state c = Authorized \<Longrightarrow> pc_writer c \<Longrightarrow> pc_reader c \<Longrightarrow>
   client_submit_share Written [ReadEof] c =
     (Some (Inl ''Share response error: Connection closed by pool''), c\<lparr>pc_request_id := pc_request_id c + 1\<rparr>)"
  by (simp add: client_submit_share_def next_request_id_def send_request_def read_response_def)


section \<open>Addresses of pools\<close>

lemma starts_withE: "starts_with s p \<Longrightarrow> \<exists>rest. s = p @ rest"
  unfolding starts_with_def by (metis append_take_drop_id)

lemma takeWhile_here: "c \<notin> set xs \<Longrightarrow> takeWhile (\<lambda>d. d \<noteq> c) (xs @ c # ys) = xs"
  by (induction xs) auto

lemma dropWhile_here: "c \<notin> set xs \<Longrightarrow> dropWhile (\<lambda>d. d \<noteq> c) (xs @ c # ys) = c # ys"
  by (induction xs) auto

lemma split_once_here: "c \<notin> set xs \<Longrightarrow> split_once c (xs @ c # ys) = Some (xs, ys)"
  by (simp add: split_once_def takeWhile_here dropWhile_here)

lemma parse_u16_fmt: "parse_u16 (fmt_w (port :: u16)) = Some port"
proof -
  have lt: "unat port < 2 ^ 16" using unat_lt_pow [of port] by simp
  have up: "unat (ucast port :: u64) = unat port" using lt by (simp add: unat_ucast_mod)
  have "fmt_w port = fmt_w (ucast port :: u64)" by (simp add: fmt_w_def up)
  then have "parse_u64 10 (fmt_w port) = Some (ucast port)" by (simp add: parse_fmt_u64)
  with lt show ?thesis by (simp add: parse_u16_def up word_unat_eq_iff unat_ucast_mod)
qed

text \<open>A text whose first colon is followed by a number does not begin with a scheme.\<close>

lemma no_scheme:
  assumes "CHR '':'' \<notin> set host" and "CHR '':'' \<notin> set p"
  shows "\<not> starts_with (host @ CHR '':'' # fmt_w port) (p @ ''://'')" and "\<not> starts_with host (p @ ''://'')"
proof -
  show "\<not> starts_with (host @ CHR '':'' # fmt_w port) (p @ ''://'')"
  proof
    assume "starts_with (host @ CHR '':'' # fmt_w port) (p @ ''://'')"
    then obtain rest where eq: "host @ CHR '':'' # fmt_w port = p @ CHR '':'' # ''//'' @ rest"
      using starts_withE by force
    have "host = p" using takeWhile_here [OF assms(1), of "fmt_w port"] takeWhile_here [OF assms(2), of "''//'' @ rest"]
      by (simp only: eq)
    with eq have "fmt_w port = ''//'' @ rest" by simp
    then have "CHR ''/'' \<in> set (fmt_w port)" by simp
    then show False using set_fmt_nat [of "unat port"] by (auto simp: fmt_w_def)
  qed
  show "\<not> starts_with host (p @ ''://'')" using starts_withE assms(1) by fastforce
qed

lemma strip_prefix_here: "strip_prefix (p @ s) p = Some s"
  by (simp add: strip_prefix_def starts_with_def)

lemma strip_http: "strip_prefix (''http://'' @ s) ''https://'' = None"
  by (simp add: strip_prefix_def starts_with_def)

text \<open>Host and port are read back from every address, with either scheme or none, for every port and
  every host without a colon; without a port the whole text is the host and the port is 3333.\<close>

theorem pool_url_roundtrip:
  assumes "CHR '':'' \<notin> set host" and "scheme \<in> {[], ''http://'', ''https://''}"
  shows "parse_pool_url (scheme @ host @ CHR '':'' # fmt_w port) = Inr (host, port) \<and>
    parse_pool_url (scheme @ host) = Inr (host, 3333)"
proof -
  define strip where "strip = (\<lambda>url. case strip_prefix url ''https://'' of Some rest \<Rightarrow> rest
    | None \<Rightarrow> (case strip_prefix url ''http://'' of Some rest \<Rightarrow> rest | None \<Rightarrow> url))"
  have none: "strip (host @ CHR '':'' # fmt_w port) = host @ CHR '':'' # fmt_w port" "strip host = host"
    using no_scheme(1) [OF assms(1), of "''https''" port] no_scheme(1) [OF assms(1), of "''http''" port]
      no_scheme(2) [OF assms(1), of "''https''"] no_scheme(2) [OF assms(1), of "''http''"]
    by (simp_all add: strip_def strip_prefix_def)
  have "strip (''http://'' @ s) = s" "strip (''https://'' @ s) = s" for s
    unfolding strip_def strip_http strip_prefix_here by simp_all
  with none assms(2) have "strip (scheme @ host @ CHR '':'' # fmt_w port) = host @ CHR '':'' # fmt_w port"
    "strip (scheme @ host) = host" by (elim insertE emptyE; simp)+
  moreover have "split_once (CHR '':'') host = None" using assms(1) by (simp add: split_once_def)
  moreover have "parse_pool_url url = (case split_once (CHR '':'') (strip url) of
      Some (host, port_str) \<Rightarrow>
        (case parse_u16 port_str of Some port \<Rightarrow> Inr (host, port) | None \<Rightarrow> Inl (''Invalid port: '' @ port_str))
    | None \<Rightarrow> Inr (strip url, 3333))" for url
    unfolding parse_pool_url_def strip_def Let_def by (rule refl)
  ultimately show ?thesis by (simp add: split_once_here [OF assms(1)] parse_u16_fmt)
qed

theorem pool_url_roundtrip_witness:
  "parse_pool_url ''https://pool.example:3334'' = Inr (''pool.example'', 3334) \<and>
   parse_pool_url ''https://pool.example'' = Inr (''pool.example'', 3333)"
proof -
  have "fmt_w (3334 :: u16) = ''3334''" by code_simp
  then show ?thesis using pool_url_roundtrip [of "''pool.example''" "''https://''" 3334] by simp
qed

end
