(* ===== verification/Stratum_Server.thy ===== *)
theory Stratum_Server
  imports Json Work Difficulty
begin

text \<open>
  The stratum server of the crate (\<open>src/stratum.rs\<close>): the admission of connections with its limits
  per address, the handling of a connection's lines, and the broadcast of work. Instants and
  durations are nanoseconds; \<open>Instant::duration_since\<close> is zero for a later instant, as subtraction
  of naturals is. The listener and the sockets are not modelled: an accepted address, or what a read
  yields (a line given trimmed), is an argument, and so is the derived parser of messages.
\<close>

type_synonym instant = nat

definition one_second :: nat where
  "one_second = 1000000000"

record stratum_message =
  sm_id :: "u64 option"
  sm_method :: string
  sm_params :: "json list"

definition new_stratum_message :: "string \<Rightarrow> json list \<Rightarrow> stratum_message" where
  "new_stratum_message meth params = \<lparr>sm_id = None, sm_method = meth, sm_params = params\<rparr>"

definition sm_with_id :: "stratum_message \<Rightarrow> u64 \<Rightarrow> stratum_message" where
  "sm_with_id m i = m\<lparr>sm_id := Some i\<rparr>"

definition from_json_line :: "(string \<Rightarrow> string + stratum_message) \<Rightarrow> string \<Rightarrow> stratum_message pow_result" where
  "from_json_line parse line =
     (case parse line of Inl e \<Rightarrow> Inl (PoolError (''JSON parse error: '' @ e)) | Inr m \<Rightarrow> Inr m)"

record ip_rate_limit =
  il_connection_count :: u32
  il_last_reset :: instant
  il_blocked_until :: "instant option"

text \<open>The channel of a client is known by a number.\<close>

record stratum_client =
  sl_id :: string
  sl_worker_name :: string
  sl_difficulty :: u64
  sl_subscribed :: bool
  sl_authorized :: bool
  sl_shares_accepted :: u64
  sl_shares_rejected :: u64
  sl_connected_at :: instant
  sl_last_activity :: instant
  sl_remote_addr :: "string option"
  sl_sender :: "nat option"

type_synonym stratum_clients = "(string, stratum_client) hmap"

record stratum_server =
  ss_clients :: stratum_clients
  ss_current_work :: "work_package option"
  ss_difficulty :: u64
  ss_max_clients :: nat
  ss_client_timeout :: nat
  ss_rate_limit :: u32
  ss_ip_limits :: "(string, ip_rate_limit) hmap"
  ss_max_per_ip :: u32
  ss_block_duration :: nat

definition stratum_with_full_config :: "nat \<Rightarrow> nat \<Rightarrow> u32 \<Rightarrow> u32 \<Rightarrow> nat \<Rightarrow> stratum_server" where
  "stratum_with_full_config max_clients client_timeout rate_limit max_per_ip block_duration =
     \<lparr>ss_clients = [], ss_current_work = None, ss_difficulty = 1000000, ss_max_clients = max_clients,
      ss_client_timeout = client_timeout, ss_rate_limit = rate_limit, ss_ip_limits = [],
      ss_max_per_ip = max_per_ip, ss_block_duration = block_duration\<rparr>"

definition stratum_with_config :: "nat \<Rightarrow> nat \<Rightarrow> u32 \<Rightarrow> stratum_server" where
  "stratum_with_config max_clients client_timeout rate_limit =
     stratum_with_full_config max_clients client_timeout rate_limit 10 (3600 * one_second)"

definition new_stratum_server :: stratum_server where
  "new_stratum_server = stratum_with_config 10000 (300 * one_second) 100"

definition set_stratum_work :: "stratum_server \<Rightarrow> work_package \<Rightarrow> stratum_server" where
  "set_stratum_work s work = s\<lparr>ss_current_work := Some work\<rparr>"

definition set_stratum_difficulty :: "stratum_server \<Rightarrow> u64 \<Rightarrow> stratum_server" where
  "set_stratum_difficulty s difficulty = s\<lparr>ss_difficulty := difficulty\<rparr>"

section \<open>Admission\<close>

definition is_ip_blocked :: "instant \<Rightarrow> stratum_server \<Rightarrow> string \<Rightarrow> bool" where
  "is_ip_blocked now s ip =
     (case hm_get (ss_ip_limits s) ip of
        Some limit \<Rightarrow> (case il_blocked_until limit of Some until \<Rightarrow> now < until | None \<Rightarrow> False)
      | None \<Rightarrow> False)"

definition check_ip_rate_limit :: "build \<Rightarrow> instant \<Rightarrow> stratum_server \<Rightarrow> string \<Rightarrow> (bool \<times> stratum_server) option" where
  "check_ip_rate_limit b now s ip =
     (let limit = (case hm_get (ss_ip_limits s) ip of
            Some limit \<Rightarrow> limit
          | None \<Rightarrow> \<lparr>il_connection_count = 0, il_last_reset = now, il_blocked_until = None\<rparr>);
          limit = (if now - il_last_reset limit \<ge> one_second
                   then limit\<lparr>il_connection_count := 0, il_last_reset := now\<rparr> else limit)
      in do {
        count \<leftarrow> add_w b (il_connection_count limit) 1;
        let limit = limit\<lparr>il_connection_count := count\<rparr>;
        let over = count > ss_max_per_ip s;
        let limit = (if over then limit\<lparr>il_blocked_until := Some (now + ss_block_duration s)\<rparr> else limit);
        Some (\<not> over, s\<lparr>ss_ip_limits := hm_insert ip limit (ss_ip_limits s)\<rparr>)
      })"

datatype admission = IpBlocked | IpLimited | PoolFull | Accepted

text \<open>One round of \<open>accept_connections\<close>; the clock is read by both checks.\<close>

definition accept_one ::
    "build \<Rightarrow> instant \<Rightarrow> instant \<Rightarrow> stratum_server \<Rightarrow> string \<Rightarrow> (admission \<times> stratum_server) option" where
  "accept_one b now1 now2 s ip =
     (if is_ip_blocked now1 s ip then Some (IpBlocked, s)
      else do {
        (ok, s) \<leftarrow> check_ip_rate_limit b now2 s ip;
        Some (if \<not> ok then IpLimited
              else if length (ss_clients s) \<ge> ss_max_clients s then PoolFull else Accepted, s)
      })"

section \<open>A connection\<close>

record stratum_conn =
  kn_client_id :: string
  kn_last_message :: instant
  kn_message_count :: u32
  kn_window :: instant

definition open_conn :: "string \<Rightarrow> instant \<Rightarrow> stratum_conn" where
  "open_conn client_id now =
     \<lparr>kn_client_id = client_id, kn_last_message = now, kn_message_count = 0, kn_window = now\<rparr>"

text \<open>What the server writes as soon as a connection is accepted.\<close>

definition subscribe_response :: "string \<Rightarrow> json" where
  "subscribe_response client_id =
     JObj [(''id'', JPos 1),
       (''result'', JArr [JArr [JStr ''mining.notify'', JStr client_id], JArr [JStr ''mining.set_difficulty'']]),
       (''error'', JNull)]"

definition true_response :: "u64 option \<Rightarrow> json" where
  "true_response i =
     JObj [(''id'', case i of Some n \<Rightarrow> JPos n | None \<Rightarrow> JNull), (''result'', JBool True), (''error'', JNull)]"

definition fresh_client :: "string \<Rightarrow> string \<Rightarrow> instant \<Rightarrow> stratum_client" where
  "fresh_client client_id addr now =
     \<lparr>sl_id = client_id, sl_worker_name = ''unknown'', sl_difficulty = 1000000, sl_subscribed = True,
      sl_authorized = False, sl_shares_accepted = 0, sl_shares_rejected = 0, sl_connected_at = now,
      sl_last_activity = now, sl_remote_addr = Some addr, sl_sender = None\<rparr>"

text \<open>A parsed message: what is written, and the clients.\<close>

definition handle_message ::
    "build \<Rightarrow> instant \<Rightarrow> string \<Rightarrow> string \<Rightarrow> stratum_clients \<Rightarrow> stratum_message \<Rightarrow>
     (json list \<times> stratum_clients) option" where
  "handle_message b now client_id addr clients msg =
     (if sm_method msg = ''mining.subscribe''
      then Some ([], hm_insert client_id (fresh_client client_id addr now) clients)
      else if sm_method msg = ''mining.authorize'' then
        let clients' =
          (if length (sm_params msg) \<ge> 2 then
             let worker_name = (case as_str (sm_params msg ! 0) of Some w \<Rightarrow> w | None \<Rightarrow> ''unknown'') in
             (case hm_get clients client_id of
                Some client \<Rightarrow> hm_insert client_id (client\<lparr>sl_worker_name := worker_name,
                    sl_authorized := True, sl_last_activity := now\<rparr>) clients
              | None \<Rightarrow> clients)
           else clients)
        in Some ([true_response (sm_id msg)], clients')
      else if sm_method msg = ''mining.submit'' then
        (if length (sm_params msg) \<ge> 5 then
           (case hm_get clients client_id of
              Some client \<Rightarrow> do {
                accepted \<leftarrow> add_w b (sl_shares_accepted client) 1;
                Some ([true_response (sm_id msg)], hm_insert client_id
                  (client\<lparr>sl_shares_accepted := accepted, sl_last_activity := now\<rparr>) clients)
              }
            | None \<Rightarrow> Some ([true_response (sm_id msg)], clients))
         else Some ([], clients))
      else Some ([], clients))"

datatype conn_input = ConnEof | ConnLine string | ConnReadError | ConnTimeout

text \<open>One round of the loop of \<open>handle_client\<close>: what is written, whether the loop goes on. A failed
  write ends it on the spot.\<close>

definition conn_round ::
    "build \<Rightarrow> (string \<Rightarrow> string + stratum_message) \<Rightarrow> nat \<Rightarrow> u32 \<Rightarrow> instant \<Rightarrow> bool \<Rightarrow> string \<Rightarrow>
     stratum_conn \<Rightarrow> stratum_clients \<Rightarrow> conn_input \<Rightarrow> (json list \<times> bool \<times> stratum_conn \<times> stratum_clients) option" where
  "conn_round b parse client_timeout rate_limit now write_ok addr conn clients input =
     (case input of
        ConnEof \<Rightarrow> Some ([], False, conn, hm_remove (kn_client_id conn) clients)
      | ConnLine line \<Rightarrow>
          let conn = (if now - kn_window conn \<ge> one_second
                      then conn\<lparr>kn_message_count := 0, kn_window := now\<rparr> else conn)
          in do {
            count \<leftarrow> add_w b (kn_message_count conn) 1;
            let conn = conn\<lparr>kn_message_count := count\<rparr>;
            if count > rate_limit then Some ([], False, conn, clients)
            else
              let conn = conn\<lparr>kn_last_message := now\<rparr>
              in if line = [] then Some ([], True, conn, clients)
                 else (case from_json_line parse line of
                     Inl e \<Rightarrow> Some ([], True, conn, clients)
                   | Inr msg \<Rightarrow> do {
                       (outs, clients') \<leftarrow> handle_message b now (kn_client_id conn) addr clients msg;
                       Some (outs, outs = [] \<or> write_ok, conn, clients')
                     })
          }
      | ConnReadError \<Rightarrow> Some ([], False, conn, clients)
      | ConnTimeout \<Rightarrow>
          if now - kn_last_message conn > client_timeout
          then Some ([], False, conn, hm_remove (kn_client_id conn) clients)
          else Some ([], True, conn, clients))"

definition get_client_count :: "stratum_server \<Rightarrow> nat" where
  "get_client_count s = length (ss_clients s)"

definition get_clients :: "stratum_server \<Rightarrow> stratum_client list" where
  "get_clients s = hm_values (ss_clients s)"

section \<open>Broadcasting work\<close>

definition notify_message ::
    "(f64 \<Rightarrow> f64) \<Rightarrow> (f64 \<Rightarrow> f64 \<Rightarrow> f64) \<Rightarrow> (bytes \<Rightarrow> string) \<Rightarrow> work_package \<Rightarrow> json" where
  "notify_message lg powf hex work =
     (let difficulty_bits = calculate_difficulty_bits lg powf (wp_difficulty work);
          job_id_with_height = hex_nat (unat (wp_block_height work)) @ ''_'' @ hex (wp_work_id work)
      in JObj [(''method'', JStr ''mining.notify''),
           (''params'', JArr [JStr job_id_with_height, JStr (hex (wp_parent_hash work)),
              JStr (hex (wp_merkle_root work)), JStr (hex (to_le_bytes (wp_version work))),
              JStr (fmt_hex 8 difficulty_bits), JPos (wp_timestamp work), JBool False])])"

text \<open>The clients in order: those that take the message, and the number of those that do not.
  \<open>chan_open\<close> says whether a channel still has its receiver.\<close>

fun send_to_all :: "(nat \<Rightarrow> bool) \<Rightarrow> (string \<times> stratum_client) list \<Rightarrow> nat list" where
  "send_to_all chan_open [] = []"
| "send_to_all chan_open ((client_id, client) # clients) =
     (if \<not> sl_subscribed client then send_to_all chan_open clients
      else if \<not> sl_authorized client then send_to_all chan_open clients
      else (case sl_sender client of
          Some sender \<Rightarrow> if chan_open sender then sender # send_to_all chan_open clients
                         else send_to_all chan_open clients
        | None \<Rightarrow> send_to_all chan_open clients))"

definition broadcast_work ::
    "(f64 \<Rightarrow> f64) \<Rightarrow> (f64 \<Rightarrow> f64 \<Rightarrow> f64) \<Rightarrow> (bytes \<Rightarrow> string) \<Rightarrow> (nat \<Rightarrow> bool) \<Rightarrow> stratum_server \<Rightarrow>
     unit pow_result \<times> (nat \<times> json) list" where
  "broadcast_work lg powf hex chan_open s =
     (case ss_current_work s of
        None \<Rightarrow> (Inr (), [])
      | Some work \<Rightarrow>
          if ss_clients s = [] then (Inr (), [])
          else
            let sent = send_to_all chan_open (ss_clients s)
            in (if sent = []
                then Inl (PoolError (''Failed to broadcast work to any of '' @ fmt_nat (length (ss_clients s)) @ '' clients''))
                else Inr (),
                map (\<lambda>sender. (sender, notify_message lg powf hex work)) sent))"

section \<open>The server with its connections\<close>

text \<open>The state of the server and the open connections, each with its address. A connection gets a
  fresh identifier when it is accepted, and is gone when its loop ends.\<close>

type_synonym stratum_system = "stratum_server \<times> (stratum_conn \<times> string) list"

abbreviation conn_ids :: "(stratum_conn \<times> string) list \<Rightarrow> string set" where
  "conn_ids conns \<equiv> (\<lambda>c. kn_client_id (fst c)) ` set conns"

inductive system_step :: "build \<Rightarrow> stratum_system \<Rightarrow> stratum_system \<Rightarrow> bool" for b where
  refuse: "accept_one b now1 now2 s ip = Some (d, s') \<Longrightarrow> d \<noteq> Accepted \<Longrightarrow> system_step b (s, conns) (s', conns)"
| accept: "accept_one b now1 now2 s ip = Some (Accepted, s') \<Longrightarrow>
     hm_get (ss_clients s) client_id = None \<Longrightarrow> client_id \<notin> conn_ids conns \<Longrightarrow>
     system_step b (s, conns) (s', (open_conn client_id now3, addr) # conns)"
| round: "conn_round b parse (ss_client_timeout s) (ss_rate_limit s) now ok addr conn (ss_clients s) input =
       Some (outs, True, conn', clients') \<Longrightarrow>
     system_step b (s, xs @ (conn, addr) # ys) (s\<lparr>ss_clients := clients'\<rparr>, xs @ (conn', addr) # ys)"
| leave: "conn_round b parse (ss_client_timeout s) (ss_rate_limit s) now ok addr conn (ss_clients s) input =
       Some (outs, False, conn', clients') \<Longrightarrow>
     system_step b (s, xs @ (conn, addr) # ys) (s\<lparr>ss_clients := clients'\<rparr>, xs @ ys)"
| set_work: "system_step b (s, conns) (set_stratum_work s work, conns)"
| set_difficulty: "system_step b (s, conns) (set_stratum_difficulty s d, conns)"

lemma accept_one_same:
  "accept_one b now1 now2 s ip = Some (d, s') \<Longrightarrow>
   ss_clients s' = ss_clients s \<and> ss_max_clients s' = ss_max_clients s \<and> ss_rate_limit s' = ss_rate_limit s"
  by (auto simp: accept_one_def check_ip_rate_limit_def Let_def bind_eq_Some_conv split: if_splits)

text \<open>A connection changes its own entry only, and keeps its identifier.\<close>

lemma handle_message_own:
  assumes "handle_message b now cid addr clients msg = Some (outs, clients')"
  shows "j \<noteq> cid \<longrightarrow> hm_get clients' j = hm_get clients j"
  using assms
  by (auto simp: handle_message_def Let_def bind_eq_Some_conv hm_get_insert split: if_splits option.splits)

lemma conn_round_own:
  assumes "conn_round b parse tmo rl now ok addr conn clients input = Some (outs, g, conn', clients')"
  shows "kn_client_id conn' = kn_client_id conn"
    and "j \<noteq> kn_client_id conn \<longrightarrow> hm_get clients' j = hm_get clients j"
proof -
  have "kn_client_id conn' = kn_client_id conn \<and> (j \<noteq> kn_client_id conn \<longrightarrow> hm_get clients' j = hm_get clients j)" for j
  proof (cases input)
    case (ConnLine line)
    define conn1 where "conn1 = (if now - kn_window conn \<ge> one_second
      then conn\<lparr>kn_message_count := 0, kn_window := now\<rparr> else conn)"
    have id1: "kn_client_id conn1 = kn_client_id conn" by (simp add: conn1_def)
    show ?thesis using assms unfolding conn_round_def ConnLine conn_input.case conn1_def [symmetric] Let_def
      by (auto simp: bind_eq_Some_conv id1 handle_message_own split: if_splits sum.splits)
  qed (use assms in \<open>auto simp: conn_round_def hm_get_remove split: if_splits\<close>)
  then show "kn_client_id conn' = kn_client_id conn"
    and "j \<noteq> kn_client_id conn \<longrightarrow> hm_get clients' j = hm_get clients j" by blast+
qed

section \<open>Entries whose connection is gone\<close>

definition stale :: "stratum_system \<Rightarrow> string set" where
  "stale sys = {cid. hm_get (ss_clients (fst sys)) cid \<noteq> None \<and> cid \<notin> conn_ids (snd sys)}"

lemma stale_step: "system_step b sys sys' \<Longrightarrow> cid \<in> stale sys \<Longrightarrow> cid \<in> stale sys'"
proof (induction rule: system_step.induct)
  case (round parse s now ok addr conn input outs conn' clients' xs ys)
  then show ?case using conn_round_own [OF round(1)] by (auto simp: stale_def)
next
  case (leave parse s now ok addr conn input outs conn' clients' xs ys)
  then show ?case using conn_round_own [OF leave(1)] by (auto simp: stale_def)
qed (auto simp: stale_def open_conn_def set_stratum_work_def set_stratum_difficulty_def dest: accept_one_same)

lemma max_clients_step: "system_step b sys sys' \<Longrightarrow> ss_max_clients (fst sys') = ss_max_clients (fst sys)"
  by (induction rule: system_step.induct)
     (auto simp: set_stratum_work_def set_stratum_difficulty_def dest: accept_one_same)

lemma stale_steps:
  assumes "(system_step b)\<^sup>*\<^sup>* sys sys'"
  shows "stale sys \<subseteq> stale sys' \<and> ss_max_clients (fst sys') = ss_max_clients (fst sys)"
  using assms
proof (induction rule: rtranclp_induct)
  case (step sys1 sys2)
  then show ?case using stale_step [OF step(2)] max_clients_step [OF step(2)] by auto
qed simp

lemma card_stale_le: "card (stale sys) \<le> length (ss_clients (fst sys))"
proof -
  have "stale sys \<subseteq> set (map fst (ss_clients (fst sys)))"
    by (auto simp: stale_def dest: map_of_SomeD) (metis image_eqI fst_conv map_of_SomeD)
  then have "card (stale sys) \<le> card (set (map fst (ss_clients (fst sys))))" by (rule card_mono [rotated]) simp
  also have "\<dots> \<le> length (ss_clients (fst sys))" using card_length [of "map fst (ss_clients (fst sys))"] by simp
  finally show ?thesis .
qed

text \<open>C15: An entry whose connection has ended without removing it, which is how the rate limit, a read
  error and a failed write end a connection, is never removed. Once such entries fill the server, no
  connection is accepted in any later state: whatever happens, on every connection and from every
  address, the answer is a refusal.\<close>

theorem stale_clients_lock_out:
  assumes "ss_max_clients (fst sys) \<le> card (stale sys)" and "(system_step b)\<^sup>*\<^sup>* sys (s, conns)"
  shows "stale sys \<subseteq> stale (s, conns) \<and> (\<forall>d s'. accept_one b now1 now2 s ip = Some (d, s') \<longrightarrow> d \<noteq> Accepted)"
proof -
  note st = stale_steps [OF assms(2)]
  have "finite (stale (s, conns))"
    by (rule finite_subset [of _ "dom (hm_get (ss_clients s))"]) (auto simp: stale_def finite_dom_map_of)
  then have "card (stale sys) \<le> card (stale (s, conns))" using st by (intro card_mono) auto
  then have full: "ss_max_clients s \<le> length (ss_clients s)"
    using assms(1) st card_stale_le [of "(s, conns)"] by simp
  have "d \<noteq> Accepted" if "accept_one b now1 now2 s ip = Some (d, s')" for d s'
  proof -
    have "length (ss_clients s2) \<ge> ss_max_clients s2" if "check_ip_rate_limit b now2 s ip = Some (ok, s2)" for ok s2
      using that full by (auto simp: check_ip_rate_limit_def Let_def bind_eq_Some_conv)
    then show ?thesis using that by (auto simp: accept_one_def bind_eq_Some_conv split: if_splits)
  qed
  with st show ?thesis by blast
qed

section \<open>Clients have no channel\<close>

definition clients_ok :: "stratum_clients \<Rightarrow> bool" where
  "clients_ok clients \<longleftrightarrow> hm_invar clients \<and>
     (\<forall>k c. hm_get clients k = Some c \<longrightarrow> sl_id c = k \<and> sl_sender c = None \<and> sl_shares_rejected c = 0)"

lemma clients_ok_message:
  assumes "handle_message b now cid addr clients msg = Some (outs, clients')" and "clients_ok clients"
  shows "clients_ok clients'"
  using assms
  by (auto simp: handle_message_def Let_def bind_eq_Some_conv clients_ok_def hm_get_insert fresh_client_def
      split: if_splits option.splits)

lemma clients_ok_round:
  assumes "conn_round b parse tmo rl now ok addr conn clients input = Some (outs, g, conn', clients')"
    and "clients_ok clients"
  shows "clients_ok clients'"
proof (cases input)
  case (ConnLine line)
  define conn1 where "conn1 = (if now - kn_window conn \<ge> one_second
    then conn\<lparr>kn_message_count := 0, kn_window := now\<rparr> else conn)"
  show ?thesis using assms unfolding conn_round_def ConnLine conn_input.case conn1_def [symmetric] Let_def
    by (auto simp: bind_eq_Some_conv intro: clients_ok_message split: if_splits sum.splits)
qed (use assms in \<open>auto simp: conn_round_def clients_ok_def hm_get_remove split: if_splits\<close>)

lemma clients_ok_step: "system_step b sys sys' \<Longrightarrow> clients_ok (ss_clients (fst sys)) \<Longrightarrow> clients_ok (ss_clients (fst sys'))"
  by (induction rule: system_step.induct)
     (auto simp: set_stratum_work_def set_stratum_difficulty_def dest: accept_one_same clients_ok_round)

lemma clients_ok_reachable:
  assumes "(system_step b)\<^sup>*\<^sup>* (stratum_with_full_config mc tmo rl mp bd, []) sys"
  shows "clients_ok (ss_clients (fst sys))"
  using assms
proof (induction rule: rtranclp_induct)
  case base
  show ?case by (simp add: clients_ok_def stratum_with_full_config_def)
qed (rule clients_ok_step)

lemma send_to_all_mute: "\<forall>(k, c) \<in> set clients. sl_sender c = None \<Longrightarrow> send_to_all chan_open clients = []"
  by (induction clients) auto

text \<open>No client ever gets a channel, so in every reachable state with work and clients the broadcast
  sends nothing and fails, naming the number of clients.\<close>

theorem broadcast_reaches_nobody:
  assumes "(system_step b)\<^sup>*\<^sup>* (stratum_with_full_config mc tmo rl mp bd, []) (s, conns)"
    and "ss_current_work s = Some work" and "ss_clients s \<noteq> []"
  shows "broadcast_work lg powf hex chan_open s =
    (Inl (PoolError (''Failed to broadcast work to any of '' @ fmt_nat (get_client_count s) @ '' clients'')), [])"
proof -
  have ok: "clients_ok (ss_clients s)" using clients_ok_reachable [OF assms(1)] by simp
  have "sl_sender c = None" if "(k, c) \<in> set (ss_clients s)" for k c
  proof -
    have "hm_get (ss_clients s) k = Some c"
      using ok that by (intro map_of_is_SomeI) (simp_all add: clients_ok_def hm_invar_def)
    with ok show ?thesis by (simp add: clients_ok_def)
  qed
  then have "send_to_all chan_open (ss_clients s) = []" by (intro send_to_all_mute) blast
  with assms(2,3) show ?thesis by (simp add: broadcast_work_def get_client_count_def)
qed

text \<open>Every submission with its five parameters is answered with true, whoever sends it and whatever it
  holds; only the counter of an existing entry moves.\<close>

lemma every_submission_true:
  assumes "sm_method msg = ''mining.submit''" and "5 \<le> length (sm_params msg)"
  shows "\<exists>clients'. handle_message Release now cid addr clients msg = Some ([true_response (sm_id msg)], clients')"
  using assms by (auto simp: handle_message_def split: option.splits)

section \<open>The limit per address\<close>

fun attempts :: "build \<Rightarrow> string \<Rightarrow> (instant \<times> instant) list \<Rightarrow> stratum_server \<Rightarrow> (admission list \<times> stratum_server) option" where
  "attempts b ip [] s = Some ([], s)"
| "attempts b ip ((now1, now2) # ts) s = do {
     (d, s) \<leftarrow> accept_one b now1 now2 s ip;
     (ds, s) \<leftarrow> attempts b ip ts s;
     Some (d # ds, s)
   }"

text \<open>The answer to an attempt that passes the limit depends on the number of clients only.\<close>

definition admit :: "stratum_server \<Rightarrow> admission" where
  "admit s = (if length (ss_clients s) \<ge> ss_max_clients s then PoolFull else Accepted)"

definition window_answers :: "nat \<Rightarrow> nat \<Rightarrow> admission \<Rightarrow> admission list" where
  "window_answers n m a =
     replicate (min n m) a @ (if n > m then IpLimited # replicate (n - m - 1) IpBlocked else [])"

definition in_window :: "instant \<Rightarrow> instant \<times> instant \<Rightarrow> bool" where
  "in_window t0 t \<longleftrightarrow> fst t < t0 + one_second \<and> t0 \<le> snd t \<and> snd t < t0 + one_second"

lemma attempts_blocked:
  assumes "hm_get (ss_ip_limits s) ip = Some l" and "il_blocked_until l = Some until"
    and "list_all (\<lambda>t. fst t < until) ts"
  shows "attempts b ip ts s = Some (replicate (length ts) IpBlocked, s)"
  using assms(3)
proof (induction ts)
  case (Cons t ts)
  then show ?case
    by (cases t) (simp add: accept_one_def is_ip_blocked_def assms(1,2))
qed simp

lemma check_counts:
  assumes "hm_get (ss_ip_limits s) ip = Some l" and "now - il_last_reset l < one_second"
    and "unat (il_connection_count l) + 1 < 2 ^ 32"
  shows "check_ip_rate_limit b now s ip =
    (let over = il_connection_count l + 1 > ss_max_per_ip s;
         l = l\<lparr>il_connection_count := il_connection_count l + 1\<rparr>
     in Some (\<not> over, s\<lparr>ss_ip_limits := hm_insert ip
          (if over then l\<lparr>il_blocked_until := Some (now + ss_block_duration s)\<rparr> else l) (ss_ip_limits s)\<rparr>))"
  using assms by (simp add: check_ip_rate_limit_def add_w_exact Let_def)

lemma attempts_counting:
  assumes "hm_get (ss_ip_limits s) ip = Some l" and "il_last_reset l = r" and "il_blocked_until l = None"
    and "unat (il_connection_count l) \<le> unat (ss_max_per_ip s)"
    and "unat (ss_max_per_ip s) + 1 < 2 ^ 32" and "one_second \<le> ss_block_duration s"
    and "list_all (in_window r) ts"
  shows "\<exists>s'. attempts b ip ts s =
    Some (window_answers (length ts) (unat (ss_max_per_ip s) - unat (il_connection_count l)) (admit s), s')"
  using assms
proof (induction ts arbitrary: s l)
  case Nil
  then show ?case by (simp add: window_answers_def)
next
  case (Cons t ts)
  obtain n1 n2 where t: "t = (n1, n2)" by (cases t)
  let ?m = "unat (ss_max_per_ip s)" and ?k = "unat (il_connection_count l)"
  have w: "n1 < r + one_second" "r \<le> n2" "n2 < r + one_second" "list_all (in_window r) ts"
    using Cons.prems(7) unfolding t list.pred_inject by (simp_all add: in_window_def list_all_iff)
  have k1: "unat (il_connection_count l + 1) = ?k + 1"
    using Cons.prems(4,5) by (subst unat_add_exact) simp_all
  then have over: "il_connection_count l + 1 > ss_max_per_ip s \<longleftrightarrow> ?k = ?m"
    using Cons.prems(4) by (auto simp: word_less_nat_alt)
  have open_ip: "\<not> is_ip_blocked n1 s ip" using Cons.prems(1,3) by (simp add: is_ip_blocked_def)
  define l1 where "l1 = l\<lparr>il_connection_count := il_connection_count l + 1\<rparr>"
  define s1 where "s1 = s\<lparr>ss_ip_limits := hm_insert ip
    (if ?k = ?m then l1\<lparr>il_blocked_until := Some (n2 + ss_block_duration s)\<rparr> else l1) (ss_ip_limits s)\<rparr>"
  have "check_ip_rate_limit b n2 s ip = Some (?k \<noteq> ?m, s1)"
    using check_counts [OF Cons.prems(1), of n2 b] w Cons.prems(2,4,5) over
    by (simp add: Let_def s1_def l1_def)
  then have one: "accept_one b n1 n2 s ip = Some (if ?k = ?m then IpLimited else admit s, s1)"
    using open_ip by (simp add: accept_one_def admit_def s1_def)
  show ?case
  proof (cases "?k = ?m")
    case True
    have "list_all (\<lambda>t. fst t < n2 + ss_block_duration s) ts"
      using w Cons.prems(6) by (auto simp: list_all_iff in_window_def)
    then have "attempts b ip ts s1 = Some (replicate (length ts) IpBlocked, s1)"
      using True by (intro attempts_blocked) (auto simp: s1_def hm_get_insert)
    with one True show ?thesis by (simp add: t window_answers_def)
  next
    case False
    have "\<exists>s'. attempts b ip ts s1 = Some (window_answers (length ts) (unat (ss_max_per_ip s1) -
        unat (il_connection_count l1)) (admit s1), s')"
      using False Cons.prems k1 w by (intro Cons.IH) (simp_all add: s1_def l1_def hm_get_insert)
    moreover have "admit s1 = admit s" by (simp add: admit_def s1_def)
    moreover have "unat (ss_max_per_ip s1) - unat (il_connection_count l1) = ?m - ?k - 1"
      using k1 by (simp add: s1_def l1_def)
    moreover have "window_answers (Suc (length ts)) (?m - ?k) (admit s) =
        admit s # window_answers (length ts) (?m - ?k - 1) (admit s)"
      using False Cons.prems(4) by (cases "?m - ?k") (auto simp: window_answers_def)
    ultimately show ?thesis using one False by (auto simp: t)
  qed
qed

text \<open>C13: An address that the server has not seen and that connects \<open>n\<close> times within a second gets the
  first connections through, up to the limit per address; the next attempt is refused for the limit
  and all others because the address is blocked. This is exact, and independent of what the clock
  says between the two checks of an attempt. During the attempts nothing else touches the server: the
  table of clients, which the limit on connections counts, stays as it is.\<close>

theorem ip_limit_exact:
  assumes "hm_get (ss_ip_limits s) ip = None" and "0 < unat (ss_max_per_ip s)"
    and "unat (ss_max_per_ip s) + 1 < 2 ^ 32" and "one_second \<le> ss_block_duration s"
    and "list_all (in_window t0) ((now, t0) # ts)"
  shows "\<exists>s'. attempts b ip ((now, t0) # ts) s =
    Some (window_answers (Suc (length ts)) (unat (ss_max_per_ip s)) (admit s), s')"
proof -
  have w: "list_all (in_window t0) ts" using assms(5) by simp
  define l where "l = \<lparr>il_connection_count = 1, il_last_reset = t0, il_blocked_until = None\<rparr>"
  define s1 where "s1 = s\<lparr>ss_ip_limits := hm_insert ip l (ss_ip_limits s)\<rparr>"
  have "\<not> 1 > ss_max_per_ip s" using assms(2) by (simp add: word_less_nat_alt)
  then have "accept_one b now t0 s ip = Some (admit s, s1)"
    using assms(1) by (simp add: accept_one_def is_ip_blocked_def check_ip_rate_limit_def Let_def admit_def
        add_w_exact one_second_def s1_def l_def)
  moreover have "\<exists>s'. attempts b ip ts s1 = Some (window_answers (length ts) (unat (ss_max_per_ip s1) -
      unat (il_connection_count l)) (admit s1), s')"
    using assms(2-4) w by (intro attempts_counting) (simp_all add: s1_def l_def hm_get_insert)
  moreover have "window_answers (Suc (length ts)) (unat (ss_max_per_ip s)) (admit s) =
      admit s # window_answers (length ts) (unat (ss_max_per_ip s) - 1) (admit s)"
    using assms(2) by (cases "unat (ss_max_per_ip s)") (auto simp: window_answers_def)
  moreover have "admit s1 = admit s" by (simp add: admit_def s1_def)
  ultimately show ?thesis by (auto simp: s1_def l_def)
qed

section \<open>Examples\<close>

text \<open>A server for one client and one message per second; its only connection subscribes and sends one
  line more.\<close>

definition tiny_server :: stratum_server where
  "tiny_server = stratum_with_full_config 1 (300 * one_second) 1 2 (3600 * one_second)"

definition subscribe_parse :: "string \<Rightarrow> string + stratum_message" where
  "subscribe_parse line = Inr (new_stratum_message ''mining.subscribe'' [])"

definition tiny_limits :: "(string, ip_rate_limit) hmap" where
  "tiny_limits = [(''ip'', \<lparr>il_connection_count = 1, il_last_reset = 0, il_blocked_until = None\<rparr>)]"

definition tiny_accepted :: stratum_server where
  "tiny_accepted = tiny_server\<lparr>ss_ip_limits := tiny_limits\<rparr>"

definition tiny_subscribed :: stratum_server where
  "tiny_subscribed = tiny_accepted\<lparr>ss_clients := [(''c1'', fresh_client ''c1'' ''ip'' 1)]\<rparr>"

lemmas tiny_defs = tiny_server_def stratum_with_full_config_def tiny_limits_def tiny_accepted_def tiny_subscribed_def

lemma tiny_accept: "system_step Release (tiny_server, []) (tiny_accepted, [(open_conn ''c1'' 0, ''ip'')])"
proof -
  have "accept_one Release 0 0 tiny_server ''ip'' = Some (Accepted, tiny_accepted)"
    by (simp add: accept_one_def is_ip_blocked_def check_ip_rate_limit_def tiny_defs one_second_def)
  then show ?thesis by (rule system_step.accept) (simp_all add: tiny_defs)
qed

lemma tiny_round: "conn_round Release subscribe_parse (300 * one_second) 1 1 True ''ip'' (open_conn ''c1'' 0) []
    (ConnLine ''x'') = Some ([], True, (open_conn ''c1'' 0)\<lparr>kn_message_count := 1, kn_last_message := 1\<rparr>,
      [(''c1'', fresh_client ''c1'' ''ip'' 1)])"
  by (simp add: conn_round_def open_conn_def one_second_def subscribe_parse_def from_json_line_def
      handle_message_def new_stratum_message_def Let_def)

lemma tiny_subscribe: "system_step Release (tiny_accepted, [(open_conn ''c1'' 0, ''ip'')])
    (tiny_subscribed, [((open_conn ''c1'' 0)\<lparr>kn_message_count := 1, kn_last_message := 1\<rparr>, ''ip'')])"
proof -
  have s: "tiny_subscribed = tiny_accepted\<lparr>ss_clients := [(''c1'', fresh_client ''c1'' ''ip'' 1)]\<rparr>"
    by (simp add: tiny_subscribed_def)
  show ?thesis unfolding s
    using system_step.round [of Release subscribe_parse tiny_accepted 1 True "''ip''" "open_conn ''c1'' 0" "ConnLine ''x''" "[]"
        "(open_conn ''c1'' 0)\<lparr>kn_message_count := 1, kn_last_message := 1\<rparr>"
        "[(''c1'', fresh_client ''c1'' ''ip'' 1)]" "[]" "[]"] tiny_round
    by (simp add: tiny_defs)
qed

lemma tiny_leave: "system_step Release
    (tiny_subscribed, [((open_conn ''c1'' 0)\<lparr>kn_message_count := 1, kn_last_message := 1\<rparr>, ''ip'')]) (tiny_subscribed, [])"
proof -
  let ?c = "(open_conn ''c1'' 0)\<lparr>kn_message_count := 1, kn_last_message := 1\<rparr>"
  have "conn_round Release subscribe_parse (ss_client_timeout tiny_subscribed) (ss_rate_limit tiny_subscribed) 2 True ''ip'' ?c
      (ss_clients tiny_subscribed) (ConnLine ''y'') =
      Some ([], False, ?c\<lparr>kn_message_count := 2\<rparr>, ss_clients tiny_subscribed)"
    by (simp add: conn_round_def open_conn_def one_second_def tiny_defs)
  from system_step.leave [OF this, of "[]" "[]"] show ?thesis by simp
qed

lemma tiny_reachable: "(system_step Release)\<^sup>*\<^sup>* (tiny_server, [])
    (tiny_subscribed, [((open_conn ''c1'' 0)\<lparr>kn_message_count := 1, kn_last_message := 1\<rparr>, ''ip'')])"
  by (rule converse_rtranclp_into_rtranclp [where r = "system_step Release", OF tiny_accept])
     (rule r_into_rtranclp [where r = "system_step Release", OF tiny_subscribe])

lemma tiny_stale_reachable: "(system_step Release)\<^sup>*\<^sup>* (tiny_server, []) (tiny_subscribed, [])"
  using tiny_reachable tiny_leave by (rule rtranclp.rtrancl_into_rtrancl [where r = "system_step Release"])

theorem stale_clients_lock_out_witness:
  "(system_step Release)\<^sup>*\<^sup>* (tiny_server, []) (tiny_subscribed, []) \<and>
   map_option fst (accept_one Debug 5000000000 5000000000 tiny_subscribed ''ip2'') \<noteq> Some Accepted"
proof -
  have "stale (tiny_subscribed, []) = {''c1''}"
    by (auto simp: stale_def tiny_defs split: if_splits)
  then have "ss_max_clients (fst (tiny_subscribed, [] :: (stratum_conn \<times> string) list)) \<le> card (stale (tiny_subscribed, []))"
    by (simp add: tiny_defs)
  note lock = stale_clients_lock_out [OF this rtranclp.rtrancl_refl, of Debug 5000000000 5000000000 "''ip2''"]
  have "map_option fst (accept_one Debug 5000000000 5000000000 tiny_subscribed ''ip2'') \<noteq> Some Accepted"
  proof
    assume "map_option fst (accept_one Debug 5000000000 5000000000 tiny_subscribed ''ip2'') = Some Accepted"
    then obtain s2 where "accept_one Debug 5000000000 5000000000 tiny_subscribed ''ip2'' = Some (Accepted, s2)" by auto
    with lock show False by blast
  qed
  with tiny_stale_reachable show ?thesis by (intro conjI)
qed

definition tiny_work :: work_package where
  "tiny_work = \<lparr>wp_work_id = replicate 64 7, wp_chain_id = 0, wp_block_height = 16, wp_block_hash = [],
     wp_parent_hash = [], wp_merkle_root = [], wp_timestamp = 1700000000, wp_difficulty = 1000,
     wp_target = [], wp_version = 1, wp_extra_nonce = 0\<rparr>"

theorem broadcast_reaches_nobody_witness:
  "fst (broadcast_work (\<lambda>x. x) (\<lambda>x y. x) hex (\<lambda>_. True) (set_stratum_work tiny_subscribed tiny_work)) =
   Inl (PoolError ''Failed to broadcast work to any of 1 clients'')"
proof -
  have "(system_step Release)\<^sup>*\<^sup>* (tiny_server, []) (set_stratum_work tiny_subscribed tiny_work, [])"
    using tiny_stale_reachable system_step.set_work
    by (rule rtranclp.rtrancl_into_rtrancl [where r = "system_step Release"])
  then have r: "(system_step Release)\<^sup>*\<^sup>* (stratum_with_full_config 1 (300 * one_second) 1 2 (3600 * one_second), [])
      (set_stratum_work tiny_subscribed tiny_work, [])" by (simp add: tiny_server_def)
  have w: "ss_current_work (set_stratum_work tiny_subscribed tiny_work) = Some tiny_work"
    by (simp add: set_stratum_work_def)
  have c: "ss_clients (set_stratum_work tiny_subscribed tiny_work) \<noteq> []"
    by (simp add: set_stratum_work_def tiny_defs)
  have n: "fmt_nat (get_client_count (set_stratum_work tiny_subscribed tiny_work)) = ''1''"
    by (simp add: get_client_count_def set_stratum_work_def tiny_defs) code_simp
  show ?thesis using broadcast_reaches_nobody [OF r w c] by (simp add: n)
qed

theorem ip_limit_exact_witness:
  "\<exists>s'. attempts Debug ''ip'' [(0, 0), (1, 2), (3, 3), (4, 4)] tiny_server =
     Some ([Accepted, Accepted, IpLimited, IpBlocked], s')"
proof -
  have "list_all (in_window 0) [(0, 0), (1, 2), (3, 3), (4, 4)]" by (simp add: in_window_def one_second_def)
  moreover have "window_answers (Suc (Suc (Suc (Suc 0)))) 2 Accepted = [Accepted, Accepted, IpLimited, IpBlocked]"
    by (simp add: window_answers_def numeral_eq_Suc)
  ultimately show ?thesis
    using ip_limit_exact [of tiny_server "''ip''" 0 0 "[(1, 2), (3, 3), (4, 4)]" Debug]
    by (simp add: tiny_defs admit_def one_second_def del: attempts.simps)
qed

end
