(* ===== verification/Client_Pool.thy ===== *)
theory Client_Pool
  imports Stratum_Client Stratum_Session Stratum_Server
begin

text \<open>
  The client against its two possible peers: the stratum pool (\<open>src/stratum_pool.rs\<close>), whose protocol
  it speaks, and the stratum server of the crate (\<open>src/stratum.rs\<close>), whose protocol it does not. A
  message of one side is handed to the other as the JSON value it denotes.
\<close>

section \<open>The handshake with the pool\<close>

lemma request_parts:
  "request_method (subscribe_message i a) = Some ''mining.subscribe''"
  "request_method (authorize_message i a) = Some ''mining.authorize''"
  "request_method (submit_request i a j n h f) = Some ''mining.submit''"
  "request_params (subscribe_message i a) = [JStr a]"
  "request_params (submit_request i a j n h f) = [JStr a, JStr j, JStr (hex_nat (unat n)), JStr h, JBool f]"
  "json_index (subscribe_message i a) ''id'' = JPos i"
  "json_index (authorize_message i a) ''id'' = JPos i"
  "json_index (submit_request i a j n h f) ''id'' = JPos i"
  by (simp_all add: request_method_def request_params_def json_index_def json_get_def
      subscribe_message_def authorize_message_def submit_request_def)

lemma response_parts:
  "json_get (response i r e) ''result'' = Some r" "json_get (response i r e) ''error'' = Some e"
  "json_get (response i r e) ''id'' = Some i" "json_get (response i r e) ''method'' = None"
  by (simp_all add: response_def json_get_def)

text \<open>C8: The client's handshake works against the pool: for every address that passes validation, if the
  network delivers, the pool's answers to the two messages of the client leave the client authorized
  and its connection at the pool authorized, for the same identifier.\<close>

theorem handshake_succeeds:
  assumes "validate_pool_address lib (pc_miner_address c)"
    and "parse_pool_url (pc_pool_addr c) = Inr hp" and "try_connect (pc_max_reconnect_attempts c) net 0 = None"
  shows "\<exists>resp1 cn1 p1 resp2 cn2 c'.
    handle_request b lib env1 env2 clock new_connection p
      (subscribe_message (pc_request_id c) (pc_miner_address c)) = Some (resp1, cn1, p1) \<and>
    handle_request b lib env3 env4 clock cn1 p1
      (authorize_message (pc_request_id c + 1) (pc_miner_address c)) = Some (resp2, cn2, p1) \<and>
    connect show dbg net Written (ReadValue resp1) Written (ReadValue resp2) c = (Inr (), c') \<and>
    pc_state c' = Authorized \<and> cn_authorized cn2 \<and> cn_miner_id cn2 = Some (pe_uuid env1) \<and>
    pc_subscription_id c' = Some (pe_uuid env1)"
proof -
  define a where "a = pc_miner_address c"
  define cn1 where "cn1 = \<lparr>cn_miner_id = Some (pe_uuid env1), cn_address = Some a, cn_authorized = False\<rparr>"
  define p1 where "p1 = snd (register_pool_miner lib env1 p a)"
  define resp1 where "resp1 = response (JPos (pc_request_id c)) (JArr [JStr (pe_uuid env1), JStr ''0'']) JNull"
  define resp2 where "resp2 = response (JPos (pc_request_id c + 1)) (JBool True) JNull"
  have reg: "register_pool_miner lib env1 p a = (Inr (pe_uuid env1), p1)"
    using assms(1) by (simp add: register_pool_miner_def Let_def p1_def a_def)
  have 1: "handle_request b lib env1 env2 clock new_connection p (subscribe_message (pc_request_id c) a) =
      Some (resp1, cn1, p1)"
    by (simp add: handle_request_def request_parts handle_subscribe_def str_param_def nth_opt_def reg
        Let_def resp1_def cn1_def)
  have 2: "handle_request b lib env3 env4 clock cn1 p1 (authorize_message (pc_request_id c + 1) a) =
      Some (resp2, cn1\<lparr>cn_authorized := True\<rparr>, p1)"
    by (simp add: handle_request_def request_parts Let_def resp2_def cn1_def)
  define c1 where "c1 = c\<lparr>pc_reader := True, pc_writer := True, pc_state := Connected\<rparr>"
  define c2 where "c2 = c1\<lparr>pc_request_id := pc_request_id c1 + 1, pc_subscription_id := Some (pe_uuid env1),
    pc_state := Subscribed\<rparr>"
  have s: "subscribe_client show dbg Written (ReadValue resp1) c1 = (Inr (), c2)"
    by (simp add: subscribe_client_def next_request_id_def send_request_def read_response_def nth_opt_def
        response_parts resp1_def c1_def c2_def)
  have a: "authorize_client show dbg Written (ReadValue resp2) c2 =
      (Inr (), c2\<lparr>pc_request_id := pc_request_id c2 + 1, pc_state := Authorized\<rparr>)"
    by (simp add: authorize_client_def next_request_id_def send_request_def read_response_def
        response_parts resp2_def c1_def c2_def)
  have "connect show dbg net Written (ReadValue resp1) Written (ReadValue resp2) c =
      (Inr (), c2\<lparr>pc_request_id := pc_request_id c2 + 1, pc_state := Authorized\<rparr>)"
    using assms(2,3) s a by (simp add: connect_def c1_def)
  with 1 2 show ?thesis unfolding a_def by (auto simp: cn1_def c2_def)
qed

definition sample_client :: pool_client where
  "sample_client = new_pool_client 0 ''localhost:3333'' sample_address"

theorem handshake_succeeds_witness:
  "\<exists>resp1 cn1 p1 resp2 cn2 c'.
    handle_request Debug sample_lib sample_env sample_env None new_connection (new_pool_state ''w'' 1 sample_config)
      (subscribe_message 1 sample_address) = Some (resp1, cn1, p1) \<and>
    handle_request Debug sample_lib sample_env sample_env None cn1 p1 (authorize_message 2 sample_address) =
      Some (resp2, cn2, p1) \<and>
    connect (\<lambda>_. ''?'') (\<lambda>_. ''?'') (\<lambda>_. None) Written (ReadValue resp1) Written (ReadValue resp2) sample_client = (Inr (), c') \<and>
    pc_state c' = Authorized \<and> cn_authorized cn2 \<and> cn_miner_id cn2 = Some ''m1''"
proof -
  have "parse_pool_url ''localhost:3333'' = Inr (''localhost'', 3333)" by code_simp
  then have url: "parse_pool_url (pc_pool_addr sample_client) = Inr (''localhost'', 3333)"
    by (simp add: sample_client_def new_pool_client_def)
  have v: "validate_pool_address sample_lib (pc_miner_address sample_client)"
    using sample_address_valid by (simp add: sample_client_def new_pool_client_def)
  have n: "try_connect (pc_max_reconnect_attempts sample_client) (\<lambda>_. None) 0 = None"
    by (simp add: try_connect.simps)
  have f: "pc_request_id sample_client = 1" "pc_miner_address sample_client = sample_address" "pe_uuid sample_env = ''m1''"
    by (simp_all add: sample_client_def new_pool_client_def sample_env_def)
  show ?thesis
    using handshake_succeeds [OF v url n, of Debug sample_env sample_env None "new_pool_state ''w'' 1 sample_config"
        sample_env sample_env "\<lambda>_. ''?''" "\<lambda>_. ''?''"] unfolding f by auto
qed

section \<open>Shares\<close>

lemma handle_submit_verdict:
  assumes "handle_submit b lib env1 env2 clock p address mid rid params = Some (resp, p')"
  shows "json_get resp ''id'' = Some rid \<and> \<not> skipped_method resp \<and>
    (share_verdict resp \<longleftrightarrow> \<not> (0 < share_height (str_param params 1 ''0'') \<and>
       share_height (str_param params 1 ''0'') < sw_height (po_current_work p)))"
proof (cases "0 < share_height (str_param params 1 ''0'') \<and>
    share_height (str_param params 1 ''0'') < sw_height (po_current_work p)")
  case True
  with assms obtain e where "resp = response rid (JBool False) e"
    by (auto simp: handle_submit_def Let_def)
  with True show ?thesis by (simp add: share_verdict_def skipped_method_def response_parts)
next
  case False
  obtain r where "resp = (case r of Inr True \<Rightarrow> response rid JNull JNull
      | Inr False \<Rightarrow> response rid JNull (JStr ''Share rejected'')
      | Inl e \<Rightarrow> response rid JNull (JStr e))"
    using assms unfolding handle_submit_def Let_def if_not_P [OF False] bind_eq_Some_conv by auto
  then have "\<exists>e. resp = response rid JNull e" by (auto split: sum.splits bool.splits)
  with False show ?thesis by (auto simp: share_verdict_def skipped_method_def response_parts)
qed

text \<open>C10: What the client reports about a share is not what the pool found. A share that misses its target
  and is not stale is counted as invalid at the pool, in a release build, and its answer, which has a
  null result, is reported as acceptance by the client. (By \<open>handle_submit_verdict\<close> the client says
  true to every answer of the pool except that of a stale job.)\<close>

theorem rejected_share_reported_accepted:
  assumes "cn_authorized cn" and "cn_miner_id cn = Some mid" and "hm_get (po_miners p) mid = Some s"
    and "\<not> validate_share_difficulty lib h (se_difficulty s)"
    and "\<not> (0 < share_height job \<and> share_height job < sw_height (po_current_work p))"
    and "pc_state c = Authorized" and "pc_reader c" and "pc_writer c"
  shows "\<exists>resp p' s'. handle_request Release lib env1 env2 clock cn p
      (submit_request (pc_request_id c) (pc_miner_address c) job nonce h False) = Some (resp, cn, p') \<and>
    hm_get (po_miners p') mid = Some s' \<and> se_invalid_shares s' = se_invalid_shares s + 1 \<and>
    se_valid_shares s' = se_valid_shares s \<and>
    fst (client_submit_share Written [ReadValue resp] c) = Some (Inr True)"
proof -
  define params where "params = [JStr (pc_miner_address c), JStr job, JStr (hex_nat (unat nonce)), JStr h, JBool False]"
  define s' where "s' = s\<lparr>se_shares := se_shares s + 1, se_invalid_shares := se_invalid_shares s + 1\<rparr>"
  define p' where "p' = p\<lparr>po_miners := hm_insert mid s' (po_miners p)\<rparr>"
  have rel: "add_w Release (se_shares s) 1 = Some (se_shares s + 1)" by simp
  have sh: "pool_submit_share Release lib env2 clock p mid n h = Some (Inr False, p')" for n
    by (simp add: share_invalid_eq [OF assms(3) rel assms(4)] p'_def s'_def)
  have par: "str_param params 1 ''0'' = job" "str_param params 3 [] = h" "nth_opt params 4 = Some (JBool False)"
    by (simp_all add: params_def str_param_def nth_opt_def)
  have sub: "handle_submit Release lib env1 env2 clock p (cn_address cn) mid (JPos (pc_request_id c)) params =
      Some (response (JPos (pc_request_id c)) JNull (JStr ''Share rejected''), p')"
    unfolding handle_submit_def Let_def par if_not_P [OF assms(5)] by (simp add: sh)
  have req: "handle_request Release lib env1 env2 clock cn p
      (submit_request (pc_request_id c) (pc_miner_address c) job nonce h False) =
      Some (response (JPos (pc_request_id c)) JNull (JStr ''Share rejected''), cn, p')"
    using assms(1,2) sub by (simp add: handle_request_def request_parts params_def [symmetric] Let_def)
  have v: "share_verdict (response (JPos (pc_request_id c)) JNull (JStr ''Share rejected''))"
    using handle_submit_verdict [OF sub] assms(5) par(1) by simp
  have "fst (client_submit_share Written [ReadValue (response (JPos (pc_request_id c)) JNull (JStr ''Share rejected''))] c) =
      Some (Inr True)"
    using assms(6-8) v
    by (simp add: client_submit_share_def next_request_id_def send_request_def read_response_def
        response_parts as_u64_def skipped_method_def)
  with req show ?thesis by (auto simp: p'_def s'_def hm_get_insert)
qed

theorem rejected_share_reported_accepted_witness:
  "\<exists>resp p'. handle_request Release sample_lib sample_env sample_env None
      \<lparr>cn_miner_id = Some ''m1'', cn_address = Some sample_address, cn_authorized = True\<rparr> sample_server
      (submit_request 3 sample_address ''1_0_0'' 5 ''00'' False) = Some (resp,
        \<lparr>cn_miner_id = Some ''m1'', cn_address = Some sample_address, cn_authorized = True\<rparr>, p') \<and>
    fst (client_submit_share Written [ReadValue resp] (sample_client\<lparr>pc_reader := True, pc_writer := True,
      pc_state := Authorized, pc_request_id := 3\<rparr>)) = Some (Inr True)"
proof -
  define cn where "cn = \<lparr>cn_miner_id = Some ''m1'', cn_address = Some sample_address, cn_authorized = True\<rparr>"
  define c where "c = sample_client\<lparr>pc_reader := True, pc_writer := True, pc_state := Authorized, pc_request_id := 3\<rparr>"
  have "hex_read ''00'' = Inr [0]" by code_simp
  then have bad: "\<not> validate_share_difficulty sample_lib ''00'' (se_difficulty sample_session)"
    by (simp add: validate_share_difficulty_def sample_lib_def)
  have get: "hm_get (po_miners sample_server) ''m1'' = Some sample_session" by (simp add: sample_server_miners)
  have "share_height ''1_0_0'' = 1" by code_simp
  moreover have "sw_height (po_current_work sample_server) = 1"
    by (simp add: sample_server_def register_pool_miner_def new_pool_state_def Let_def)
  ultimately have fresh: "\<not> (0 < share_height ''1_0_0'' \<and>
      share_height ''1_0_0'' < sw_height (po_current_work sample_server))" by simp
  have st: "pc_state c = Authorized" "pc_reader c" "pc_writer c" "pc_request_id c = 3"
    "pc_miner_address c = sample_address" "cn_authorized cn" "cn_miner_id cn = Some ''m1''"
    by (simp_all add: c_def cn_def sample_client_def new_pool_client_def)
  from rejected_share_reported_accepted [OF st(6,7) get bad fresh st(1-3), of sample_env sample_env None 5]
  show ?thesis unfolding cn_def [symmetric] c_def [symmetric] st(4,5) by blast
qed

section \<open>The server of the crate\<close>

text \<open>The client cannot work with the stratum server of the same crate. The first line that server
  writes makes the client's subscription fail, whatever the client is like, and the notification it
  broadcasts has seven parameters where the client demands nine, so it is refused and the client's
  height stays as it is.\<close>

theorem crate_server_incompatible:
  assumes "parse_pool_url (pc_pool_addr c) = Inr hp" and "try_connect (pc_max_reconnect_attempts c) net 0 = None"
    and "json_get (notify_message lg powf hex work) ''params'' = Some (JArr params)"
  shows "(\<exists>c'. connect show dbg net Written (ReadValue (subscribe_response client_id)) wo2 ro2 c =
      (Inl ''Subscription failed: Invalid subscription ID in response'', c') \<and> pc_state c' = Connected) \<and>
    process_work_notification params c = (Inl ''Invalid mining.notify params length'', c)"
proof -
  have r: "json_get (subscribe_response client_id) ''result'' =
      Some (JArr [JArr [JStr ''mining.notify'', JStr client_id], JArr [JStr ''mining.set_difficulty'']])"
    by (simp add: subscribe_response_def json_get_def)
  have "length params = 7" using assms(3) by (auto simp: notify_message_def json_get_def Let_def)
  then show ?thesis
    using assms(1,2) r
    by (simp add: process_work_notification_def connect_def subscribe_client_def next_request_id_def
        send_request_def read_response_def nth_opt_def)
qed
theorem crate_server_incompatible_witness:
  "\<exists>c'. connect (\<lambda>_. ''?'') (\<lambda>_. ''?'') (\<lambda>_. None) Written (ReadValue (subscribe_response ''c1'')) Written ReadEof
      sample_client = (Inl ''Subscription failed: Invalid subscription ID in response'', c')"
proof -
  have "parse_pool_url ''localhost:3333'' = Inr (''localhost'', 3333)" by code_simp
  then have url: "parse_pool_url (pc_pool_addr sample_client) = Inr (''localhost'', 3333)"
    by (simp add: sample_client_def new_pool_client_def)
  have n: "try_connect (pc_max_reconnect_attempts sample_client) (\<lambda>_. None) 0 = None"
    by (simp add: try_connect.simps)
  obtain params where "json_get (notify_message (\<lambda>x. x) (\<lambda>x y. x) hex_of tiny_work) ''params'' = Some (JArr params)"
    by (simp add: notify_message_def json_get_def Let_def)
  from crate_server_incompatible [OF url n this] show ?thesis by blast
qed

text \<open>The heights in the jobs that the server of the crate broadcasts are hexadecimal, and the client
  reads them so, but the pool reads decimal numbers: a share for the job of height 10 has no height
  there, and one for height 16 has height 10.\<close>

lemma job_radix:
  "work_height (hex_nat 10 @ ''_00'') = 10" "share_height (hex_nat 10 @ ''_00'') = 0"
  "work_height (hex_nat 16 @ ''_00'') = 16" "share_height (hex_nat 16 @ ''_00'') = 10"
  by code_simp+

end
