(* ===== verification/U512.thy ===== *)
theory U512
  imports Prelude
begin

text \<open>
  The 512-bit integers that \<open>src/stratum_pool.rs\<close> keeps beside the comparison of byte arrays
  (\<open>U512\<close>): four 128-bit parts, the derived order, the conversion from a digest, the division.
\<close>

datatype u512 = U512 (part0: u128) (part1: u128) (part2: u128) (part3: u128)

definition from_be_bytes :: "bytes \<Rightarrow> u128" where
  "from_be_bytes bs = of_nat (be_nat bs)"

definition u512_from_bytes :: "bytes \<Rightarrow> u512" where
  "u512_from_bytes bs =
     U512 (from_be_bytes (slice 0 16 bs)) (from_be_bytes (slice 16 32 bs))
          (from_be_bytes (slice 32 48 bs)) (from_be_bytes (slice 48 64 bs))"

definition u512_max :: u512 where
  "u512_max = U512 (- 1) (- 1) (- 1) (- 1)"

text \<open>\<open>derive(PartialOrd, Ord)\<close> compares the parts in their order.\<close>

definition parts :: "u512 \<Rightarrow> u128 list" where
  "parts x = [part0 x, part1 x, part2 x, part3 x]"

definition u512_nat :: "u512 \<Rightarrow> nat" where
  "u512_nat x = ((unat (part0 x) * 2 ^ 128 + unat (part1 x)) * 2 ^ 128 + unat (part2 x)) * 2 ^ 128 + unat (part3 x)"

instantiation u512 :: linorder
begin

definition less_eq_u512 :: "u512 \<Rightarrow> u512 \<Rightarrow> bool" where
  "less_eq_u512 x y \<longleftrightarrow> slice_le (parts x) (parts y)"

definition less_u512 :: "u512 \<Rightarrow> u512 \<Rightarrow> bool" where
  "less_u512 x y \<longleftrightarrow> slice_le (parts x) (parts y) \<and> \<not> slice_le (parts y) (parts x)"

instance
  by standard
     (auto simp: less_eq_u512_def less_u512_def parts_def u512.expand split: u512.splits)

end

text \<open>One part of the dividend: its quotient and the remainder.\<close>

definition div_part :: "u128 \<Rightarrow> u128 \<Rightarrow> u128 \<Rightarrow> u128 \<times> u128" where
  "div_part divisor remainder part =
     (let combined = push_bit 64 remainder OR drop_bit 64 part;
          q_high = combined div divisor;
          remainder = combined mod divisor;
          combined_low = push_bit 64 remainder OR (part AND 0xFFFFFFFFFFFFFFFF);
          q_low = combined_low div divisor;
          remainder = combined_low mod divisor
      in (push_bit 64 q_high OR q_low, remainder))"

text \<open>Where the code stores a quotient.\<close>

definition store_quotient :: "u512 \<Rightarrow> u128 \<Rightarrow> u512" where
  "store_quotient result q =
     (case result of U512 r0 r1 r2 r3 \<Rightarrow>
        if r0 = 0 \<and> r1 = 0 \<and> r2 = 0 then U512 q r1 r2 r3
        else if r1 = 0 \<and> r2 = 0 then U512 r0 q r2 r3
        else if r2 = 0 then U512 r0 r1 q r3
        else U512 r0 r1 r2 q)"

fun div_loop :: "u128 \<Rightarrow> u128 list \<Rightarrow> u128 \<Rightarrow> u512 \<Rightarrow> u512" where
  "div_loop divisor [] remainder result = result"
| "div_loop divisor (part # ps) remainder result =
     (case div_part divisor remainder part of
        (q, remainder) \<Rightarrow> div_loop divisor ps remainder (store_quotient result q))"

definition div_u128 :: "u512 \<Rightarrow> u128 \<Rightarrow> u512" where
  "div_u128 x divisor =
     (if divisor = 0 then u512_max else div_loop divisor (parts x) 0 (U512 0 0 0 0))"

section \<open>The order\<close>

lemma slice_split: "a \<le> b \<Longrightarrow> b \<le> c \<Longrightarrow> slice a c bs = slice a b bs @ slice b c bs"
proof -
  assume "a \<le> b" "b \<le> c"
  then have "c - a = (b - a) + (c - b)" "drop (b - a) (drop a bs) = drop b bs" by simp_all
  then show ?thesis by (simp only: slice_def take_add)
qed

lemma u512_from_bytes_nat:
  assumes "length bs = 64"
  shows "u512_nat (u512_from_bytes bs) = be_nat bs"
proof -
  have part: "unat (from_be_bytes (slice a (a + 16) bs)) = be_nat (slice a (a + 16) bs)" if "a + 16 \<le> 64" for a
  proof -
    have "be_nat (slice a (a + 16) bs) < 256 ^ 16"
      using be_nat_lt [of "slice a (a + 16) bs"] assms that by (simp add: length_slice)
    then show ?thesis by (simp add: from_be_bytes_def unat_of_nat)
  qed
  have "slice 0 64 bs = slice 0 16 bs @ slice 16 32 bs @ slice 32 48 bs @ slice 48 64 bs"
    using slice_split [of 0 16 64 bs] slice_split [of 16 32 64 bs] slice_split [of 32 48 64 bs] by simp
  moreover have "slice 0 64 bs = bs" using assms by (simp add: slice_def)
  ultimately have "be_nat bs = be_nat (slice 0 16 bs @ slice 16 32 bs @ slice 32 48 bs @ slice 48 64 bs)"
    by simp
  then show ?thesis
    using part [of 0] part [of 16] part [of 32] part [of 48] assms
    by (simp add: u512_nat_def u512_from_bytes_def be_nat_append length_slice algebra_simps)
qed

lemma digit_le:
  fixes a b c d m :: nat
  assumes "b < m" "d < m"
  shows "a * m + b \<le> c * m + d \<longleftrightarrow> a < c \<or> a = c \<and> b \<le> d"
proof (cases a c rule: linorder_cases)
  case less
  then have "(a + 1) * m \<le> c * m" by (intro mult_right_mono) simp_all
  with assms less show ?thesis by simp
next
  case greater
  then have "(c + 1) * m \<le> a * m" by (intro mult_right_mono) simp_all
  with assms greater show ?thesis by simp
qed simp

lemma digit_less:
  "(b :: nat) < m \<Longrightarrow> d < m \<Longrightarrow> a * m + b < c * m + d \<longleftrightarrow> a < c \<or> a = c \<and> b < d"
  using digit_le [of d m b c a] by (auto simp flip: not_le)

lemma digit_eq: "(b :: nat) < m \<Longrightarrow> d < m \<Longrightarrow> a * m + b = c * m + d \<longleftrightarrow> a = c \<and> b = d"
  using digit_le [of b m d a c] digit_le [of d m b c a] by (metis le_antisym less_irrefl nle_le order_less_imp_le)

lemma u512_le_nat: "x \<le> y \<longleftrightarrow> u512_nat x \<le> u512_nat y"
proof -
  define m where "m = (2 :: nat) ^ 128"
  have lt: "unat w < m" for w :: u128 using unat_lt_pow [of w] by (simp add: m_def)
  have "x \<le> y \<longleftrightarrow> slice_le (map unat (parts x)) (map unat (parts y))"
    by (simp add: less_eq_u512_def parts_def word_less_nat_alt word_le_nat_alt word_unat_eq_iff)
  also have "\<dots> \<longleftrightarrow> u512_nat x \<le> u512_nat y"
    unfolding u512_nat_def m_def [symmetric] by (auto simp: parts_def digit_le digit_less digit_eq lt)
  finally show ?thesis .
qed

text \<open>The order of \<open>U512\<close> and the comparison of byte arrays that replaced it agree: both compare the
  digests as 512-bit big-endian numbers.\<close>

theorem u512_order_agrees:
  assumes "length bs = 64" and "length cs = 64"
  shows "(u512_from_bytes bs \<le> u512_from_bytes cs \<longleftrightarrow> slice_le bs cs) \<and>
    (slice_le bs cs \<longleftrightarrow> be_nat bs \<le> be_nat cs) \<and> u512_from_bytes bs \<le> u512_max"
proof -
  have "x \<le> u512_max" for x
    using word_order.extremum [of "part0 x"] word_order.extremum [of "part1 x"]
      word_order.extremum [of "part2 x"] word_order.extremum [of "part3 x"]
    by (auto simp: less_eq_u512_def parts_def u512_max_def order.order_iff_strict)
  moreover have "u512_from_bytes bs \<le> u512_from_bytes cs \<longleftrightarrow> be_nat bs \<le> be_nat cs"
    using assms by (simp add: u512_le_nat u512_from_bytes_nat)
  ultimately show ?thesis using assms by (simp add: slice_le_be_nat)
qed

theorem u512_order_agrees_witness:
  "u512_from_bytes (replicate 64 1) \<le> u512_from_bytes (replicate 64 2) \<longleftrightarrow>
   slice_le (replicate 64 (1 :: u8)) (replicate 64 2)"
  using u512_order_agrees [of "replicate 64 1" "replicate 64 2"] by simp

section \<open>The division\<close>

lemma shift_or:
  fixes r w :: u128
  assumes "unat r < 2 ^ 64" and "unat w < 2 ^ 64"
  shows "unat (push_bit 64 r OR w) = unat r * 2 ^ 64 + unat w"
proof -
  have small: "unat r * 2 ^ 64 + unat w < 2 ^ 128"
  proof -
    have "(unat r + 1) * 2 ^ 64 \<le> 2 ^ 64 * 2 ^ 64" using assms(1) by (intro mult_right_mono) simp_all
    then show ?thesis using assms(2) by simp
  qed
  have w: "take_bit 64 (unat w) = unat w" using assms(2) by (simp add: take_bit_nat_eq_self)
  have "unat (push_bit 64 r OR w) = take_bit 128 (push_bit 64 (unat r)) OR unat w"
    by (simp add: unsigned_or_eq unsigned_push_bit_eq)
  also have "take_bit 128 (push_bit 64 (unat r)) = push_bit 64 (unat r)"
    using small by (intro take_bit_nat_eq_self) (simp add: push_bit_eq_mult)
  also have "push_bit 64 (unat r) OR unat w = push_bit 64 (unat r) + unat w"
    by (rule disjunctive_add [symmetric]) (metis assms(2) bit_push_bit_iff bit_take_bit_iff w not_le)
  finally show ?thesis by (simp add: push_bit_eq_mult)
qed

lemma div_part_nat:
  assumes d: "0 < unat d" "unat d \<le> 2 ^ 64" and r: "unat r < unat d"
    and part: "div_part d r p = (q, r')"
  shows "unat q = (unat r * 2 ^ 128 + unat p) div unat d \<and> unat r' = (unat r * 2 ^ 128 + unat p) mod unat d"
proof -
  define hi where "hi = unat p div 2 ^ 64"
  define lo where "lo = unat p mod 2 ^ 64"
  have p: "unat p = hi * 2 ^ 64 + lo" by (simp add: hi_def lo_def)
  have "unat p < 2 ^ 64 * 2 ^ 64" using unat_lt_pow [of p] by simp
  then have hi: "hi < 2 ^ 64" by (simp add: hi_def less_mult_imp_div_less)
  have lo: "lo < 2 ^ 64" by (simp add: lo_def)
  have uhi: "unat (drop_bit 64 p) = hi" by (simp add: drop_bit_eq_div unat_div hi_def)
  have ulo: "unat (p AND 0xFFFFFFFFFFFFFFFF) = lo"
  proof -
    have "(0xFFFFFFFFFFFFFFFF :: u128) = mask 64" by (simp add: mask_eq_exp_minus_1)
    then have "p AND 0xFFFFFFFFFFFFFFFF = take_bit 64 p" by (simp only: take_bit_eq_mask)
    moreover have "unat (take_bit 64 p) = take_bit 64 (unat p)" by (rule unsigned_take_bit_eq)
    moreover have "take_bit 64 (unat p) = lo" unfolding lo_def by (rule take_bit_eq_mod)
    ultimately show ?thesis by simp
  qed
  define D where "D = unat d"
  define c1 where "c1 = unat r * 2 ^ 64 + hi"
  define c2 where "c2 = (c1 mod D) * 2 ^ 64 + lo"
  have lt: "(x * 2 ^ 64 + y) div D < 2 ^ 64" if "x < D" "y < 2 ^ 64" for x y
  proof -
    have "(x + 1) * 2 ^ 64 \<le> D * 2 ^ 64" using that(1) by (intro mult_right_mono) simp_all
    then have "x * 2 ^ 64 + y < 2 ^ 64 * D" using that(2) by (simp add: algebra_simps)
    then show ?thesis by (simp add: less_mult_imp_div_less)
  qed
  have c1: "unat (push_bit 64 r OR drop_bit 64 p) = c1"
    using shift_or [of r "drop_bit 64 p"] r d hi by (simp add: uhi c1_def)
  have m: "c1 mod D < D" using d by (simp add: D_def)
  have c2: "unat (push_bit 64 ((push_bit 64 r OR drop_bit 64 p) mod d) OR (p AND 0xFFFFFFFFFFFFFFFF)) = c2"
    using shift_or [of "(push_bit 64 r OR drop_bit 64 p) mod d" "p AND 0xFFFFFFFFFFFFFFFF"] m d lo
    by (simp add: ulo unat_mod c1 c2_def flip: D_def)
  have q: "unat q = c1 div D * 2 ^ 64 + c2 div D"
  proof -
    have "q = push_bit 64 ((push_bit 64 r OR drop_bit 64 p) div d) OR
        ((push_bit 64 ((push_bit 64 r OR drop_bit 64 p) mod d) OR (p AND 0xFFFFFFFFFFFFFFFF)) div d)"
      using part by (simp add: div_part_def Let_def)
    then show ?thesis
      using lt [of "unat r" hi] lt [of "c1 mod D" lo] r hi lo m
      by (simp only:) (subst shift_or; simp add: unat_div c1 c2 c1_def c2_def flip: D_def)
  qed
  have r': "unat r' = c2 mod D"
    using part by (auto simp: div_part_def Let_def unat_mod c2 simp flip: D_def)
  have "unat r * 2 ^ 128 + unat p = c1 * 2 ^ 64 + lo" by (simp add: c1_def p algebra_simps)
  also have "\<dots> = (c1 div D * D + c1 mod D) * 2 ^ 64 + lo" by simp
  also have "\<dots> = c1 div D * 2 ^ 64 * D + c2" unfolding c2_def by (simp only: algebra_simps)
  finally have n: "unat r * 2 ^ 128 + unat p = c1 div D * 2 ^ 64 * D + c2" .
  show ?thesis unfolding n q r' D_def [symmetric] using d by (simp add: D_def)
qed

lemma div_part_eq:
  assumes "0 < unat d" "unat d \<le> 2 ^ 64" "unat r < unat d" "n = unat r * 2 ^ 128 + unat p"
  shows "div_part d r p = (of_nat (n div unat d), of_nat (n mod unat d))"
proof -
  obtain q r' where e: "div_part d r p = (q, r')" by fastforce
  from div_part_nat [OF assms(1-3) e] have "q = of_nat (n div unat d)" "r' = of_nat (n mod unat d)"
    unfolding assms(4) by (metis of_nat_unat ucast_id)+
  with e show ?thesis by simp
qed
text \<open>The parts of the quotient, in the order in which the loop finds them.\<close>

lemma div_parts:
  assumes d: "0 < unat d" "unat d \<le> 2 ^ 64"
  obtains q0 q1 q2 q3 where
    "div_u128 x d = foldl store_quotient (U512 0 0 0 0) [q0, q1, q2, q3]"
    "u512_nat (U512 q0 q1 q2 q3) = u512_nat x div unat d"
    "unat q0 = unat (part0 x) div unat d"
proof -
  have d0: "d \<noteq> 0" using d(1) by auto
  obtain q0 r0 where s0: "div_part d 0 (part0 x) = (q0, r0)" by fastforce
  obtain q1 r1 where s1: "div_part d r0 (part1 x) = (q1, r1)" by fastforce
  obtain q2 r2 where s2: "div_part d r1 (part2 x) = (q2, r2)" by fastforce
  obtain q3 r3 where s3: "div_part d r2 (part3 x) = (q3, r3)" by fastforce
  define D where "D = unat d"
  have D: "0 < D" using d by (simp add: D_def)
  define a where "a = unat (part0 x)"
  define b where "b = a * 2 ^ 128 + unat (part1 x)"
  define c where "c = b * 2 ^ 128 + unat (part2 x)"
  have nxt: "unat q = n div D \<and> unat r' = n mod D"
    if "div_part d r p = (q, r')" "unat r = m mod D" "n = (m mod D) * 2 ^ 128 + unat p" for q r r' p m n
    using div_part_nat [OF d _ that(1)] that(2,3) D by (simp add: D_def)
  have "unat q0 = a div D \<and> unat r0 = a mod D"
    using nxt [OF s0, of 0] D by (simp add: a_def)
  moreover have step: "(m * 2 ^ 128 + w) div D = m div D * 2 ^ 128 + ((m mod D) * 2 ^ 128 + w) div D"
    "(m * 2 ^ 128 + w) mod D = ((m mod D) * 2 ^ 128 + w) mod D" for m w :: nat
  proof -
    have "m * 2 ^ 128 + w = (m div D * D + m mod D) * 2 ^ 128 + w" by simp
    also have "\<dots> = (m div D * 2 ^ 128) * D + ((m mod D) * 2 ^ 128 + w)"
      by (simp only: algebra_simps)
    finally have e: "m * 2 ^ 128 + w = (m div D * 2 ^ 128) * D + ((m mod D) * 2 ^ 128 + w)" .
    show "(m * 2 ^ 128 + w) div D = m div D * 2 ^ 128 + ((m mod D) * 2 ^ 128 + w) div D"
      unfolding e using D by simp
    show "(m * 2 ^ 128 + w) mod D = ((m mod D) * 2 ^ 128 + w) mod D"
      unfolding e by (metis mod_mult_self3)
  qed
  ultimately have q0: "unat q0 = a div D" and r0: "unat r0 = a mod D" by blast+
  have q1: "a div D * 2 ^ 128 + unat q1 = b div D" and r1: "unat r1 = b mod D"
    using nxt [OF s1 r0 refl] unfolding b_def step [of a] by simp_all
  have q2: "b div D * 2 ^ 128 + unat q2 = c div D" and r2: "unat r2 = c mod D"
    using nxt [OF s2 r1 refl] unfolding c_def step [of b] by simp_all
  have "c div D * 2 ^ 128 + unat q3 = (c * 2 ^ 128 + unat (part3 x)) div D"
    using nxt [OF s3 r2 refl] unfolding step [of c] by simp
  then have "u512_nat (U512 q0 q1 q2 q3) = u512_nat x div D"
    by (simp only: u512_nat_def u512.sel q0 q1 q2 a_def [symmetric] b_def [symmetric] c_def [symmetric])
  moreover have "div_u128 x d = foldl store_quotient (U512 0 0 0 0) [q0, q1, q2, q3]"
    using d0 by (simp add: div_u128_def parts_def s0 s1 s2 s3)
  ultimately show ?thesis using that q0 by (simp add: D_def a_def)
qed

text \<open>For a divisor of at most 64 bits the division computes the digits of the quotient, but stores each
  in the first part that is still zero after its predecessors. The result is the quotient when the
  first three of its digits are positive; when the dividend fits in its lowest part, the quotient
  lands in the highest part, 384 bits too high.\<close>

theorem u512_division:
  assumes "0 < unat d" and "unat d \<le> 2 ^ 64"
  shows "\<exists>q. u512_nat q = u512_nat x div unat d \<and>
    (part0 q \<noteq> 0 \<and> part1 q \<noteq> 0 \<and> part2 q \<noteq> 0 \<longrightarrow> div_u128 x d = q) \<and>
    (part0 x = 0 \<and> part1 x = 0 \<and> part2 x = 0 \<longrightarrow>
       u512_nat (div_u128 x d) = 2 ^ 384 * (u512_nat x div unat d))"
proof -
  obtain q0 q1 q2 q3 where q: "div_u128 x d = foldl store_quotient (U512 0 0 0 0) [q0, q1, q2, q3]"
    "u512_nat (U512 q0 q1 q2 q3) = u512_nat x div unat d"
    using div_parts [OF assms] by metis
  have "u512_nat (div_u128 x d) = 2 ^ 384 * (u512_nat x div unat d)"
    if "part0 x = 0" "part1 x = 0" "part2 x = 0"
  proof -
    have "u512_nat x < 2 ^ 128" using that unat_lt_pow [of "part3 x"] by (simp add: u512_nat_def)
    then have "u512_nat (U512 q0 q1 q2 q3) < 2 ^ 128"
      unfolding q(2) using div_le_dividend [of "u512_nat x" "unat d"] by (rule le_less_trans [rotated])
    moreover have "y = 0" if "y * 2 ^ 128 + z < 2 ^ 128" for y z :: nat using that by (cases y) simp_all
    ultimately have "(unat q0 * 2 ^ 128 + unat q1) * 2 ^ 128 + unat q2 = 0"
      unfolding u512_nat_def u512.sel by blast
    then have "unat q0 = 0 \<and> unat q1 = 0 \<and> unat q2 = 0" by simp
    then have "q0 = 0 \<and> q1 = 0 \<and> q2 = 0" by (simp add: word_unat_eq_iff)
    then show ?thesis using q by (simp add: store_quotient_def u512_nat_def)
  qed
  then show ?thesis using q by (intro exI [of _ "U512 q0 q1 q2 q3"]) (auto simp: store_quotient_def)
qed

theorem u512_division_witness:
  "u512_nat (div_u128 (U512 0 0 0 10) 3) = 2 ^ 384 * 3"
proof -
  have "u512_nat (U512 0 0 0 10) div unat (3 :: u128) = 3" by (simp add: u512_nat_def)
  then show ?thesis using u512_division [of 3 "U512 0 0 0 10"] by auto
qed

end
