(* ===== verification/Pool_Miner.thy ===== *)
theory Pool_Miner
  imports Client_Pool U512
begin

text \<open>
  The miner program \<open>src/bin/cpu_miner_real.rs\<close>: threads that hash nonces and submit what they find
  through the stratum client. Its \<open>U512\<close> is a copy of the one of \<open>stratum_pool.rs\<close>, so the model is
  that of \<open>U512\<close>. SHA-512 and the hexadecimal format of a digest are the arguments \<open>sha\<close> and
  \<open>hex\<close>; the surroundings of a round (\<open>round_env\<close>) say whether the connection check is due and what
  the socket does.
\<close>

section \<open>Statistics\<close>

record mining_stats =
  mt_shares_found :: u64
  mt_valid_shares :: u64
  mt_invalid_shares :: u64
  mt_blocks_found :: u64
  mt_hashes_computed :: u64
  mt_start :: nat

definition new_mining_stats :: "nat \<Rightarrow> mining_stats" where
  "new_mining_stats now = \<lparr>mt_shares_found = 0, mt_valid_shares = 0, mt_invalid_shares = 0,
     mt_blocks_found = 0, mt_hashes_computed = 0, mt_start = now\<rparr>"

definition mining_hashrate :: "nat \<Rightarrow> mining_stats \<Rightarrow> f64" where
  "mining_hashrate now s =
     (let elapsed = as_secs_f64 (now - mt_start s)
      in if f_lt (Num 0) elapsed then f_div (f_of_w (mt_hashes_computed s)) elapsed else Num 0)"

section \<open>Connecting\<close>

text \<open>What the socket does while the client connects.\<close>

record socket_env =
  so_net :: "nat \<Rightarrow> string option"
  so_write1 :: write_outcome
  so_read1 :: read_outcome
  so_write2 :: write_outcome
  so_read2 :: read_outcome

definition connect_in :: "(json \<Rightarrow> string) \<Rightarrow> (json \<Rightarrow> string) \<Rightarrow> socket_env \<Rightarrow> pool_client \<Rightarrow>
     (string + unit) \<times> pool_client" where
  "connect_in show dbg e = connect show dbg (so_net e) (so_write1 e) (so_read1 e) (so_write2 e) (so_read2 e)"

definition reconnect_in :: "(json \<Rightarrow> string) \<Rightarrow> (json \<Rightarrow> string) \<Rightarrow> socket_env \<Rightarrow> pool_client \<Rightarrow>
     (string + unit) \<times> pool_client" where
  "reconnect_in show dbg e = reconnect show dbg (so_net e) (so_write1 e) (so_read1 e) (so_write2 e) (so_read2 e)"

text \<open>The loop that connects, after \<open>tried\<close> failures; the first component says whether the thread goes
  on.\<close>

function connect_loop ::
    "(json \<Rightarrow> string) \<Rightarrow> (json \<Rightarrow> string) \<Rightarrow> (nat \<Rightarrow> socket_env) \<Rightarrow> nat \<Rightarrow> pool_client \<Rightarrow> bool \<times> pool_client" where
  "connect_loop show dbg env tried c =
     (case connect_in show dbg (env tried) c of
        (Inr _, c) \<Rightarrow> (True, c)
      | (Inl _, c) \<Rightarrow>
          if tried + 1 \<ge> 5 then (False, c) else connect_loop show dbg env (tried + 1) c)"
  by pat_completeness auto

termination
  by (relation "measure (\<lambda>(_, _, _, a, _). 5 - a)") auto

declare connect_loop.simps [simp del]

section \<open>Mining\<close>

definition start_nonce :: "build \<Rightarrow> u64 \<Rightarrow> u64 option" where
  "start_nonce b thread_id = mul_w b thread_id (- 1 div 4)"

definition pool_target :: u512 where
  "pool_target = div_u128 u512_max 1000000000"

definition block_target :: u512 where
  "block_target = div_u128 u512_max 1000000000"

record round_env =
  re_check_due :: bool
  re_socket :: socket_env
  re_write :: write_outcome
  re_reads :: "read_outcome list"

text \<open>A round ends, or goes on waiting for the pool's answer, or panics.\<close>

datatype 'a round_result = RoundDone 'a | RoundWaiting 'a | RoundPanic

text \<open>What follows a hash that is good enough.\<close>

definition submit_found ::
    "(bytes \<Rightarrow> string) \<Rightarrow> round_env \<Rightarrow> bytes \<Rightarrow> u512 \<Rightarrow> mining_stats \<Rightarrow> pool_client \<Rightarrow> u64 \<Rightarrow>
     (mining_stats \<times> pool_client \<times> u64) round_result" where
  "submit_found hex env hash hash_u512 s c nonce =
     (let s = s\<lparr>mt_shares_found := mt_shares_found s + 1\<rparr>;
          is_block = hash_u512 \<le> block_target;
          s = (if is_block then s\<lparr>mt_blocks_found := mt_blocks_found s + 1\<rparr> else s);
          hash_hex = hex hash
      in if length hash_hex < 16 then RoundPanic
         else
           let job_id = hex_nat (unat nonce) @ ''_'' @ take 16 hash_hex
           in case client_submit_share (re_write env) (re_reads env) c of
                (None, c) \<Rightarrow> RoundWaiting (s, c, nonce)
              | (Some (Inr True), c) \<Rightarrow>
                  RoundDone (s\<lparr>mt_valid_shares := mt_valid_shares s + 1\<rparr>, c, nonce + 1)
              | (Some (Inr False), c) \<Rightarrow>
                  RoundDone (s\<lparr>mt_invalid_shares := mt_invalid_shares s + 1\<rparr>, c, nonce + 1)
              | (Some (Inl e), c) \<Rightarrow> RoundDone (s, c, nonce + 1))"

definition mining_round ::
    "(json \<Rightarrow> string) \<Rightarrow> (json \<Rightarrow> string) \<Rightarrow> (bytes \<Rightarrow> bytes) \<Rightarrow> (bytes \<Rightarrow> string) \<Rightarrow> round_env \<Rightarrow>
     mining_stats \<times> pool_client \<times> u64 \<Rightarrow> (mining_stats \<times> pool_client \<times> u64) round_result" where
  "mining_round show dbg sha hex env st =
     (case st of (s, c, nonce) \<Rightarrow>
        let (gone, c) = (if re_check_due env \<and> \<not> is_authorized c
                         then (case reconnect_in show dbg (re_socket env) c of
                                 (Inr _, c) \<Rightarrow> (False, c) | (Inl _, c) \<Rightarrow> (True, c))
                         else (False, c))
        in if gone then RoundDone (s, c, nonce)
           else
             let hash = sha (to_le_bytes nonce);
                 s = s\<lparr>mt_hashes_computed := mt_hashes_computed s + 1\<rparr>
             in if length hash \<noteq> 64 then RoundDone (s, c, nonce)
                else
                  let hash_u512 = u512_from_bytes hash
                  in if hash_u512 \<le> pool_target then submit_found hex env hash hash_u512 s c nonce
                     else RoundDone (s, c, nonce + 1))"

text \<open>The text that is submitted for a nonce.\<close>

definition found_request :: "(bytes \<Rightarrow> string) \<Rightarrow> u64 \<Rightarrow> string \<Rightarrow> u64 \<Rightarrow> bytes \<Rightarrow> json" where
  "found_request hex request_id address nonce hash =
     submit_request request_id address (hex_nat (unat nonce) @ ''_'' @ take 16 (hex hash)) nonce (hex hash)
       (u512_from_bytes hash \<le> block_target)"

section \<open>Shares\<close>

lemma pool_target_eq:
  "pool_target = U512 340282366920938463463374607431 261408812543460373903601809848587078377
     44114184269558979463330222451479555299 336983947326418293484346840101004314737"
  by (simp add: pool_target_def store_quotient_def u512_max_def div_u128_def parts_def div_part_eq unat_max_word)

text \<open>The quirk of the division does not show here: the target is the quotient.\<close>

lemma pool_target_nat: "u512_nat pool_target = (2 ^ 512 - 1) div 10 ^ 9"
  by (simp add: pool_target_eq u512_nat_def)

lemma block_target_eq: "block_target = pool_target"
  by (simp add: block_target_def pool_target_def)

lemma found_iff:
  "length hash = 64 \<Longrightarrow> u512_from_bytes hash \<le> pool_target \<longleftrightarrow> be_nat hash \<le> (2 ^ 512 - 1) div 10 ^ 9"
  by (simp add: u512_le_nat u512_from_bytes_nat pool_target_nat)

lemma required_bits_small:
  assumes "log2_faithful lg" and "0 < d" and "d < 2 ^ 29"
  shows "required_bits lg d \<le> 29"
proof -
  have d: "0 < unat d" "unat d < 2 ^ 29" using assms(2,3) by (simp_all add: unat_gt_0 word_less_nat_alt)
  then have "ilog2 (unat d) \<le> 28" using ilog2_less [of "unat d" 29] by simp
  moreover have "required_bits lg d \<le> ilog2 (unat d) + 1"
    using required_bits_upper [OF assms(1), of d] assms(2,3) d by simp
  ultimately show ?thesis by simp
qed

text \<open>Every hash that the miner finds is good enough for a pool that asks for a difficulty below \<open>2 ^ 29\<close>;
  the pool's default is 1000.\<close>

lemma found_hash_valid:
  assumes "log2_faithful (pl_log2 lib)" and "0 < d" and "d < 2 ^ 29"
    and "length hash = 64" and "pl_hex_decode lib h = Inr hash" and "u512_from_bytes hash \<le> pool_target"
  shows "validate_share_difficulty lib h d"
proof -
  have r: "required_bits (pl_log2 lib) d \<le> 29" by (rule required_bits_small [OF assms(1-3)])
  have "be_nat hash \<le> (2 ^ 512 - 1) div 10 ^ 9" using assms(4,6) by (simp add: found_iff)
  also have "\<dots> < 2 ^ (512 - 29)" by simp
  also have "\<dots> \<le> 2 ^ (512 - required_bits (pl_log2 lib) d)" using r by (intro power_increasing) simp_all
  finally have "required_bits (pl_log2 lib) d \<le> count_leading_zeros hash"
    using leading_zeros_iff [of "required_bits (pl_log2 lib) d" hash] assms(4) r by simp
  then show ?thesis using share_valid_iff [OF assms(1)] assms(2,4,5) by auto
qed

lemma found_request_params:
  "request_method (found_request hex i address nonce hash) = Some ''mining.submit''"
  "str_param (request_params (found_request hex i address nonce hash)) 1 ''0'' =
     hex_nat (unat nonce) @ ''_'' @ take 16 (hex hash)"
  "str_param (request_params (found_request hex i address nonce hash)) 3 [] = hex hash"
  "json_index (found_request hex i address nonce hash) ''id'' = JPos i"
  by (simp_all add: found_request_def submit_request_def request_method_def request_params_def json_index_def
      json_get_def str_param_def nth_opt_def)

text \<open>The height that the pool reads in the miner's job identifier is the nonce, in hexadecimal, read as a
  decimal number.\<close>

definition read_as_height :: "u64 \<Rightarrow> u64" where
  "read_as_height nonce = (case parse_u64 10 (hex_nat (unat nonce)) of Some h \<Rightarrow> h | None \<Rightarrow> 0)"

lemma valid_share_counts:
  assumes "pool_submit_share b lib env clock p mid nonce h = Some (r, p')"
    and "hm_get (po_miners p) mid = Some s" and "validate_share_difficulty lib h (se_difficulty s)"
  shows "\<exists>s'. hm_get (po_miners p') mid = Some s' \<and> se_valid_shares s' = se_valid_shares s + 1 \<and>
    se_invalid_shares s' = se_invalid_shares s"
  using assms(1)
proof (cases rule: pool_submit_share_cases)
  case missing
  with assms(2) show ?thesis by simp
next
  case (invalid t)
  obtain shares where sh: "add_w b (se_shares s) 1 = Some shares"
    using share_overflow [OF assms(2)] assms(1) by fastforce
  from assms(1) have "r \<noteq> Inr False"
    unfolding share_valid_eq [OF assms(2) sh assms(3)] Let_def bind_eq_Some_conv
    by (auto simp: bind_eq_Some_conv split: if_splits sum.split_asm) (metis sum.exhaust old.unit.exhaust)
  with invalid show ?thesis by simp
next
  case (valid t hr p1)
  with assms(2) show ?thesis by (simp add: same_but_work_def hm_get_insert)
qed

lemma handle_submit_found:
  assumes "handle_submit b lib env1 env2 clock p address mid rid params = Some (resp, p')"
    and "hm_get (po_miners p) mid = Some s"
    and "validate_share_difficulty lib (str_param params 3 []) (se_difficulty s)"
    and "height = share_height (str_param params 1 ''0'')"
  shows "if 0 < height \<and> height < sw_height (po_current_work p) then p' = p \<and> \<not> share_verdict resp
    else (\<exists>s'. hm_get (po_miners p') mid = Some s' \<and> se_valid_shares s' = se_valid_shares s + 1 \<and>
            se_invalid_shares s' = se_invalid_shares s) \<and> share_verdict resp"
proof (cases "0 < height \<and> height < sw_height (po_current_work p)")
  case True
  then have "p' = p" using assms(1,4) by (simp add: handle_submit_def Let_def)
  with True handle_submit_verdict [OF assms(1)] assms(4) show ?thesis by simp
next
  case False
  then have fresh: "\<not> (0 < share_height (str_param params 1 ''0'') \<and>
      share_height (str_param params 1 ''0'') < sw_height (po_current_work p))" using assms(4) by simp
  obtain p1 n r where p1: "same_but_work p p1"
    and sh: "pool_submit_share b lib env2 clock p1 mid n (str_param params 3 []) = Some (r, p')"
    using assms(1) unfolding handle_submit_def Let_def if_not_P [OF fresh] bind_eq_Some_conv
    by (auto split: if_splits; blast intro: submit_block_same same_but_work_refl)
  have "hm_get (po_miners p1) mid = Some s" using p1 assms(2) by (simp add: same_but_work_def)
  from valid_share_counts [OF sh this assms(3)] handle_submit_verdict [OF assms(1)] False assms(4)
  show ?thesis by simp
qed

text \<open>C9: What becomes of a hash that the miner finds, at the pool. If the nonce, written in hexadecimal and
  read as a decimal number, is positive and below the pool's height, the share is refused as stale and
  nothing is counted; otherwise it is counted as valid and answered with what the client takes for
  acceptance. This holds for every hash below the miner's target and every session whose difficulty
  is below \<open>2 ^ 29\<close>, whatever the work is.\<close>

theorem found_share_at_pool:
  assumes "log2_faithful (pl_log2 lib)" and "pl_hex_decode lib (hex hash) = Inr hash"
    and "cn_authorized cn" and "cn_miner_id cn = Some mid"
    and "hm_get (po_miners p) mid = Some s" and "0 < se_difficulty s" and "se_difficulty s < 2 ^ 29"
    and "hash = sha (to_le_bytes nonce)" and "length hash = 64" and "u512_from_bytes hash \<le> pool_target"
    and "handle_request b lib env1 env2 clock cn p (found_request hex i address nonce hash) = Some (resp, cn', p')"
  shows "if 0 < read_as_height nonce \<and> read_as_height nonce < sw_height (po_current_work p)
    then p' = p \<and> \<not> share_verdict resp
    else (\<exists>s'. hm_get (po_miners p') mid = Some s' \<and> se_valid_shares s' = se_valid_shares s + 1 \<and>
            se_invalid_shares s' = se_invalid_shares s) \<and> share_verdict resp"
proof -
  let ?params = "request_params (found_request hex i address nonce hash)"
  have h: "validate_share_difficulty lib (hex hash) (se_difficulty s)"
    by (rule found_hash_valid [OF assms(1,6,7,9,2,10)])
  have "handle_submit b lib env1 env2 clock p (cn_address cn) mid (JPos i) ?params = Some (resp, p')"
    using assms(3,4,11) by (auto simp: handle_request_def found_request_params Let_def bind_eq_Some_conv)
  moreover have "read_as_height nonce = share_height (str_param ?params 1 ''0'')"
    by (simp only: found_request_params found_share_height read_as_height_def)
  ultimately show ?thesis
    using handle_submit_found assms(5) h by (metis found_request_params(3))
qed

lemma handle_submit_Release:
  assumes "hm_get (po_miners p) mid = Some s"
    and "validate_share_difficulty lib (str_param params 3 []) (se_difficulty s)"
  shows "\<exists>resp p'. handle_submit Release lib env1 env2 clock p address mid rid params = Some (resp, p')"
proof -
  have sub: "\<exists>r p'. pool_submit_share Release lib env2 clock q mid n (str_param params 3 []) = Some (r, p')"
    if "same_but_work p q" for q n
    using valid_share_credited [of q mid s lib "str_param params 3 []" env2 clock n] assms that
    by (auto simp: same_but_work_def)
  obtain r p1 where b: "submit_block_to_node Release lib env1 p (str_param params 3 [])
      (case address of Some a \<Rightarrow> a | None \<Rightarrow> []) = Some (r, p1)"
    using submit_block_Release by blast
  then have "same_but_work p p1" by (rule submit_block_same)
  define n where "n = (case parse_u64 16 (str_param params 2 ''0'') of Some n \<Rightarrow> n | None \<Rightarrow> 0)"
  define isb where "isb = (case nth_opt params 4 of Some (JBool x) \<Rightarrow> x | _ \<Rightarrow> False)"
  define q where "q = (if isb then p1 else p)"
  have q: "same_but_work p q" using \<open>same_but_work p p1\<close> by (simp add: q_def)
  have first: "(if isb then map_option snd (submit_block_to_node Release lib env1 p (str_param params 3 [])
      (case address of Some a \<Rightarrow> a | None \<Rightarrow> [])) else Some p) = Some q"
    by (simp add: b q_def)
  obtain r2 p2 where "pool_submit_share Release lib env2 clock q mid n (str_param params 3 []) = Some (r2, p2)"
    using sub [OF q] by blast
  then show ?thesis
    unfolding handle_submit_def Let_def n_def [symmetric] isb_def [symmetric] first by simp
qed

theorem found_share_at_pool_witness:
  "\<exists>resp p' s'. handle_request Release sample_lib sample_env sample_env None
      \<lparr>cn_miner_id = Some ''m1'', cn_address = Some sample_address, cn_authorized = True\<rparr> sample_server
      (found_request hex_of 3 sample_address 16 (replicate 64 0)) = Some (resp,
        \<lparr>cn_miner_id = Some ''m1'', cn_address = Some sample_address, cn_authorized = True\<rparr>, p') \<and>
    hm_get (po_miners p') ''m1'' = Some s' \<and> se_valid_shares s' = 1"
proof -
  let ?cn = "\<lparr>cn_miner_id = Some ''m1'', cn_address = Some sample_address, cn_authorized = True\<rparr>"
  let ?h = "replicate 64 (0 :: u8)"
  let ?req = "found_request hex_of 3 sample_address 16 ?h"
  have lg: "log2_faithful (pl_log2 sample_lib)" by (simp add: sample_lib_def log2_floor_faithful)
  have hx: "pl_hex_decode sample_lib (hex_of ?h) = Inr ?h" by (simp add: sample_lib_def hex_read_of)
  have get: "hm_get (po_miners sample_server) ''m1'' = Some sample_session" by (simp add: sample_server_miners)
  have d: "0 < se_difficulty sample_session" "se_difficulty sample_session < 2 ^ 29"
    by (simp_all add: sample_session_def)
  have found: "u512_from_bytes ?h \<le> pool_target" by (simp add: found_iff be_nat_zeros)
  have valid: "validate_share_difficulty sample_lib (hex_of ?h) (se_difficulty sample_session)"
    by (rule found_hash_valid [OF lg d _ hx found]) simp
  obtain resp p' where sub: "handle_submit Release sample_lib sample_env sample_env None sample_server
      (Some sample_address) ''m1'' (JPos 3) (request_params ?req) = Some (resp, p')"
    using handle_submit_Release [OF get, of sample_lib "request_params ?req"] valid
    by (metis found_request_params(3))
  then have req: "handle_request Release sample_lib sample_env sample_env None ?cn sample_server ?req =
      Some (resp, ?cn, p')"
    by (simp add: handle_request_def found_request_params Let_def)
  have "sw_height (po_current_work sample_server) = 1"
    by (simp add: sample_server_def register_pool_miner_def new_pool_state_def Let_def)
  moreover have "read_as_height 16 = 10" by code_simp
  ultimately show ?thesis
    using found_share_at_pool [OF lg hx _ _ get d _ _ found req, of "\<lambda>_. ?h"] req
    by (auto simp: sample_session_def)
qed

section \<open>Threads\<close>

text \<open>What a thread does with its nonce in a round: it keeps it or adds one.\<close>

lemma round_nonce:
  assumes "mining_round show dbg sha hex env (s, c, nonce) = RoundDone (s', c', nonce')"
  shows "nonce' = nonce \<or> nonce' = nonce + 1"
  using assms
  by (auto simp: mining_round_def submit_found_def Let_def
      split: prod.splits if_splits sum.splits option.splits bool.splits)

lemma quarter: "(- 1 :: u64) div 4 = 0x3FFFFFFFFFFFFFFF"
proof -
  have "unat ((- 1 :: u64) div 4) = unat (0x3FFFFFFFFFFFFFFF :: u64)"
    unfolding unat_div unat_max_word by simp
  then show ?thesis by (rule word_unat_eq_iff [THEN iffD2])
qed

text \<open>The nonces of the threads. In a release build the thread four numbers up starts four nonces
  before a thread, so that after four rounds it repeats, from then on, everything that thread has
  done; in a debug build no thread after the fifth starts at all. Only with the default of at most
  four threads the ranges are apart, for \<open>2 ^ 62 - 1\<close> nonces each.\<close>

theorem thread_nonces:
  "(\<forall>t. start_nonce Release (t + 4) = map_option (\<lambda>n. n - 4) (start_nonce Release t)) \<and>
   (start_nonce Debug t \<noteq> None \<longleftrightarrow> t \<le> 4) \<and>
   (t < 4 \<longrightarrow> start_nonce b t = Some (of_nat (unat t * (2 ^ 62 - 1))) \<and> unat t * (2 ^ 62 - 1) + (2 ^ 62 - 1) < 2 ^ 64)"
proof -
  have a: "start_nonce Release (u + 4) = map_option (\<lambda>n. n - 4) (start_nonce Release u)" for u
    by (simp add: start_nonce_def quarter distrib_right)
  have "unat t * 0x3FFFFFFFFFFFFFFF < 2 ^ 64 \<longleftrightarrow> unat t \<le> 4" by auto
  then have b: "start_nonce Debug t \<noteq> None \<longleftrightarrow> t \<le> 4"
    by (simp add: start_nonce_def quarter mul_w_def word_le_nat_alt)
  have c: "start_nonce b t = Some (of_nat (unat t * (2 ^ 62 - 1))) \<and> unat t * (2 ^ 62 - 1) + (2 ^ 62 - 1) < 2 ^ 64"
    if "t < 4"
  proof -
    have "unat t < 4" using that by (simp add: word_less_nat_alt)
    then show ?thesis by (simp add: start_nonce_def quarter mul_w_exact)
  qed
  show ?thesis using a b c by (intro conjI allI impI) simp_all
qed

theorem thread_nonces_witness:
  "start_nonce Release 4 = map_option (\<lambda>n. n - 4) (start_nonce Release 0) \<and> start_nonce Debug 3 \<noteq> None"
  using thread_nonces [of 3 Debug] by (auto dest: spec [of _ 0])

section \<open>Counters\<close>

text \<open>The rounds of all the threads; each thread has its client and its nonce, the statistics are shared.\<close>

inductive miners_step ::
    "(json \<Rightarrow> string) \<Rightarrow> (json \<Rightarrow> string) \<Rightarrow> (bytes \<Rightarrow> bytes) \<Rightarrow> (bytes \<Rightarrow> string) \<Rightarrow>
     mining_stats \<times> (nat \<Rightarrow> pool_client \<times> u64) \<Rightarrow> mining_stats \<times> (nat \<Rightarrow> pool_client \<times> u64) \<Rightarrow> bool"
  for display dbg sha hex where
  round: "mining_round display dbg sha hex env (s, c, nonce) = RoundDone (s', c', nonce') \<Longrightarrow>
    th t = (c, nonce) \<Longrightarrow> miners_step display dbg sha hex (s, th) (s', th(t := (c', nonce')))"
| waiting: "mining_round display dbg sha hex env (s, c, nonce) = RoundWaiting (s', c', nonce') \<Longrightarrow>
    th t = (c, nonce) \<Longrightarrow> miners_step display dbg sha hex (s, th) (s', th(t := (c', nonce')))"

lemma round_blocks:
  assumes "mining_round show dbg sha hex env (s, c, nonce) \<in> {RoundDone (s', c', nonce'), RoundWaiting (s', c', nonce')}"
    and "mt_blocks_found s = mt_shares_found s"
  shows "mt_blocks_found s' = mt_shares_found s'"
  using assms
  by (auto simp: mining_round_def submit_found_def Let_def block_target_eq
      split: prod.splits if_splits sum.splits option.splits bool.splits)

text \<open>Every share a miner finds is counted and announced as a block: the two targets are the same.\<close>

lemma every_share_is_a_block:
  assumes "(miners_step show dbg sha hex)\<^sup>*\<^sup>* (new_mining_stats now, th) (s, th')"
  shows "mt_blocks_found s = mt_shares_found s"
proof -
  have "mt_blocks_found (fst x) = mt_shares_found (fst x)"
    if "(miners_step show dbg sha hex)\<^sup>*\<^sup>* (new_mining_stats now, th) x" for x
    using that
  proof (induction rule: rtranclp_induct)
    case base
    then show ?case by (simp add: new_mining_stats_def)
  next
    case (step x y)
    from step(2,3) show ?case by cases (auto dest: round_blocks [rotated])
  qed
  from this [OF assms] show ?thesis by simp
qed

section \<open>Connecting\<close>

lemma connect_authorized:
  assumes "connect_in show dbg e c = (Inr u, c')"
  shows "is_authorized c'"
  using assms
  by (auto simp: connect_in_def connect_def authorize_client_def is_authorized_def
      split: sum.splits option.splits prod.splits json.splits bool.splits)


fun client_before :: "(nat \<Rightarrow> pool_client \<Rightarrow> (string + unit) \<times> pool_client) \<Rightarrow> pool_client \<Rightarrow> nat \<Rightarrow> pool_client" where
  "client_before attempt c 0 = c"
| "client_before attempt c (Suc i) = snd (attempt i (client_before attempt c i))"

lemma connect_loop_from:
  assumes "i < 5" and "\<And>i. attempt i = connect_in show dbg (env i)"
    and "\<And>j. j < i \<Longrightarrow> \<exists>e. fst (attempt j (client_before attempt c j)) = Inl e"
  shows "fst (connect_loop show dbg env i (client_before attempt c i)) =
      (\<exists>j < 5. fst (attempt j (client_before attempt c j)) = Inr ()) \<and>
    (fst (connect_loop show dbg env i (client_before attempt c i)) \<longrightarrow>
      is_authorized (snd (connect_loop show dbg env i (client_before attempt c i))))"
  using assms(1,3)
proof (induction "5 - i" arbitrary: i)
  case (Suc n)
  let ?c = "client_before attempt c i"
  obtain r c' where r: "connect_in show dbg (env i) ?c = (r, c')" by fastforce
  show ?case
  proof (cases r)
    case (Inr u)
    then have "fst (attempt i ?c) = Inr ()" using r assms(2) by simp
    with Suc.prems(1) have "\<exists>j < 5. fst (attempt j (client_before attempt c j)) = Inr ()" by blast
    with Inr r show ?thesis
      by (subst (1 2 3) connect_loop.simps) (simp add: connect_authorized)
  next
    case (Inl e)
    have c': "client_before attempt c (Suc i) = c'" using r assms(2) by simp
    have fail: "\<exists>e. fst (attempt j (client_before attempt c j)) = Inl e" if "j < Suc i" for j
      using Suc.prems(2) [of j] that Inl r assms(2) by (cases "j = i") (auto simp: less_Suc_eq)
    show ?thesis
    proof (cases "i + 1 \<ge> 5")
      case True
      then have "i = 4" using Suc.prems(1) by simp
      then have "\<not> (\<exists>j < 5. fst (attempt j (client_before attempt c j)) = Inr ())"
        using fail by (metis Inl_Inr_False numeral_nat(3) one_add_one)
      with Inl r True show ?thesis by (subst (1 2 3) connect_loop.simps) simp
    next
      case False
      have "connect_loop show dbg env i ?c = connect_loop show dbg env (Suc i) (client_before attempt c (Suc i))"
        using Inl r False c' by (subst connect_loop.simps) (simp del: client_before.simps)
      with Suc.hyps(1) [of "Suc i"] Suc.hyps(2) False fail show ?thesis by simp
    qed
  qed
qed simp

text \<open>A thread connects in at most five attempts, or ends: it mines exactly if one of the five succeeds, and
  then its client is authorized.\<close>

lemma connect_loop_outcome:
  "fst (connect_loop show dbg env 0 c) = (\<exists>j < 5. fst (connect_in show dbg (env j)
      (client_before (\<lambda>i. connect_in show dbg (env i)) c j)) = Inr ()) \<and>
    (fst (connect_loop show dbg env 0 c) \<longrightarrow> is_authorized (snd (connect_loop show dbg env 0 c)))"
  using connect_loop_from [of 0 "\<lambda>i. connect_in show dbg (env i)" "show" dbg env c] by simp

end
