(* ===== verification/Websocket.thy ===== *)
theory Websocket
  imports Json "HOL-Library.Sublist"
begin

text \<open>
  The WebSocket server that streams events to its clients (\<open>src/websocket_server.rs\<close>): events,
  subscriptions, and one connection as a function of what its \<open>select!\<close> loop receives, a message of
  the client or an event of the broadcast channel. The channel and the socket are not modelled: what
  they yield is the input. \<open>serde_json::from_str\<close> is the argument \<open>parse\<close>.
\<close>

datatype blockchain_event =
  NewBlock (ev_hash: string) (ev_height: u64) (ev_time: u64) (ev_miner: string) (ev_reward: u64)
| NewTransaction string string string u64 u64 u64
| TransactionConfirmed string string u64 u32
| BalanceChanged string u64 u64 u64
| DifficultyAdjusted f64 f64 u64
| NetworkStatsUpdated u32 u64 u64 u64

datatype subscription = Blocks | TransactionsSub | AddressSub string | DifficultySub | NetworkStatsSub

record ws_client =
  wc_subscriptions :: "subscription list"
  wc_last_heartbeat :: u64

type_synonym ws_clients = "(string, ws_client) hmap"

text \<open>The broadcasts: each hands its event to the channel, whose sending is the argument \<open>send\<close>.\<close>

definition broadcast_new_block ::
    "(blockchain_event \<Rightarrow> 'c \<Rightarrow> 'c) \<Rightarrow> 'c \<Rightarrow> string \<Rightarrow> u64 \<Rightarrow> u64 \<Rightarrow> string \<Rightarrow> u64 \<Rightarrow> 'c" where
  "broadcast_new_block send chan h height timestamp miner reward = send (NewBlock h height timestamp miner reward) chan"

definition broadcast_new_transaction ::
    "(blockchain_event \<Rightarrow> 'c \<Rightarrow> 'c) \<Rightarrow> 'c \<Rightarrow> string \<Rightarrow> string \<Rightarrow> string \<Rightarrow> u64 \<Rightarrow> u64 \<Rightarrow> u64 \<Rightarrow> 'c" where
  "broadcast_new_transaction send chan txid from_addr to_addr amount fee timestamp =
     send (NewTransaction txid from_addr to_addr amount fee timestamp) chan"

definition broadcast_transaction_confirmed ::
    "(blockchain_event \<Rightarrow> 'c \<Rightarrow> 'c) \<Rightarrow> 'c \<Rightarrow> string \<Rightarrow> string \<Rightarrow> u64 \<Rightarrow> u32 \<Rightarrow> 'c" where
  "broadcast_transaction_confirmed send chan txid block_hash block_height confirmations =
     send (TransactionConfirmed txid block_hash block_height confirmations) chan"

definition broadcast_balance_changed ::
    "(blockchain_event \<Rightarrow> 'c \<Rightarrow> 'c) \<Rightarrow> 'c \<Rightarrow> string \<Rightarrow> u64 \<Rightarrow> u64 \<Rightarrow> u64 \<Rightarrow> 'c" where
  "broadcast_balance_changed send chan address old_balance new_balance timestamp =
     send (BalanceChanged address old_balance new_balance timestamp) chan"

definition broadcast_difficulty_adjusted ::
    "(blockchain_event \<Rightarrow> 'c \<Rightarrow> 'c) \<Rightarrow> 'c \<Rightarrow> f64 \<Rightarrow> f64 \<Rightarrow> u64 \<Rightarrow> 'c" where
  "broadcast_difficulty_adjusted send chan old_difficulty new_difficulty timestamp =
     send (DifficultyAdjusted old_difficulty new_difficulty timestamp) chan"

definition broadcast_network_stats ::
    "(blockchain_event \<Rightarrow> 'c \<Rightarrow> 'c) \<Rightarrow> 'c \<Rightarrow> u32 \<Rightarrow> u64 \<Rightarrow> u64 \<Rightarrow> u64 \<Rightarrow> 'c" where
  "broadcast_network_stats send chan peers hashrate blocks txs =
     send (NetworkStatsUpdated peers hashrate blocks txs) chan"

text \<open>What a connection receives, and what it sends.\<close>

datatype ws_message = WsText string | WsBinary bytes | WsPing bytes | WsPong bytes | WsClose | WsFrame

datatype ws_input =
  WsMessage ws_message
| WsError
| WsEnd
| WsEvent blockchain_event
| WsLagged
| WsClosed

datatype ws_output = OutText json | OutPong bytes

definition channel_of :: "string \<Rightarrow> subscription option" where
  "channel_of channel =
     (if channel = ''blocks'' then Some Blocks
      else if channel = ''transactions'' then Some TransactionsSub
      else if channel = ''difficulty'' then Some DifficultySub
      else if channel = ''network_stats'' then Some NetworkStatsSub
      else if starts_with channel ''address:'' then Some (AddressSub (drop 8 channel))
      else None)"

text \<open>The subscriptions that an \<open>unsubscribe\<close> keeps.\<close>

definition kept_by_unsubscribe :: "string \<Rightarrow> subscription \<Rightarrow> bool" where
  "kept_by_unsubscribe channel sub =
     (case sub of
        Blocks \<Rightarrow> channel \<noteq> ''blocks''
      | TransactionsSub \<Rightarrow> channel \<noteq> ''transactions''
      | DifficultySub \<Rightarrow> channel \<noteq> ''difficulty''
      | NetworkStatsSub \<Rightarrow> channel \<noteq> ''network_stats''
      | AddressSub addr \<Rightarrow> \<not> (starts_with channel ''address:'' \<and> ends_with channel addr))"

definition subscribed_reply :: "string \<Rightarrow> u64 \<Rightarrow> json" where
  "subscribed_reply channel now =
     JObj [(''type'', JStr ''subscribed''), (''channel'', JStr channel), (''timestamp'', JPos now)]"

definition pong_reply :: "u64 \<Rightarrow> json" where
  "pong_reply now = JObj [(''type'', JStr ''pong''), (''timestamp'', JPos now)]"

definition welcome_message :: "u64 \<Rightarrow> json" where
  "welcome_message now = JObj [(''type'', JStr ''connected''),
     (''message'', JStr ''Connected to SilverBitcoin WebSocket Server''),
     (''version'', JStr ''2.5.3''), (''timestamp'', JPos now)]"

definition ws_subscribe :: "u64 \<Rightarrow> string \<Rightarrow> ws_clients \<Rightarrow> string \<Rightarrow> ws_output list \<times> ws_clients" where
  "ws_subscribe now client_id clients channel =
     (case channel_of channel of
        None \<Rightarrow> ([], clients)
      | Some sub \<Rightarrow>
          (case hm_get clients client_id of
             None \<Rightarrow> ([], clients)
           | Some client \<Rightarrow>
               if sub \<in> set (wc_subscriptions client) then ([], clients)
               else ([OutText (subscribed_reply channel now)],
                     hm_insert client_id (client\<lparr>wc_subscriptions := wc_subscriptions client @ [sub]\<rparr>) clients)))"

definition ws_unsubscribe :: "string \<Rightarrow> ws_clients \<Rightarrow> string \<Rightarrow> ws_clients" where
  "ws_unsubscribe client_id clients channel =
     (case hm_get clients client_id of
        None \<Rightarrow> clients
      | Some client \<Rightarrow>
          hm_insert client_id (client\<lparr>wc_subscriptions :=
            filter (kept_by_unsubscribe channel) (wc_subscriptions client)\<rparr>) clients)"

definition ws_text ::
    "(string \<Rightarrow> string + json) \<Rightarrow> u64 \<Rightarrow> string \<Rightarrow> ws_clients \<Rightarrow> string \<Rightarrow> ws_output list \<times> ws_clients" where
  "ws_text parse now client_id clients body =
     (case parse body of
        Inl e \<Rightarrow> ([], clients)
      | Inr request \<Rightarrow>
          let channel = Option.bind (json_get request ''channel'') as_str in
          (case Option.bind (json_get request ''action'') as_str of
             None \<Rightarrow> ([], clients)
           | Some action \<Rightarrow>
               if action = ''subscribe'' then
                 (case channel of Some ch \<Rightarrow> ws_subscribe now client_id clients ch | None \<Rightarrow> ([], clients))
               else if action = ''unsubscribe'' then
                 ([], case channel of Some ch \<Rightarrow> ws_unsubscribe client_id clients ch | None \<Rightarrow> clients)
               else if action = ''ping'' then ([OutText (pong_reply now)], clients)
               else ([], clients)))"

definition should_send :: "blockchain_event \<Rightarrow> subscription list \<Rightarrow> bool" where
  "should_send event subs =
     (case event of
        NewBlock _ _ _ _ _ \<Rightarrow> Blocks \<in> set subs
      | NewTransaction _ _ _ _ _ _ \<Rightarrow> TransactionsSub \<in> set subs
      | TransactionConfirmed _ _ _ _ \<Rightarrow> TransactionsSub \<in> set subs
      | BalanceChanged address _ _ _ \<Rightarrow>
          list_ex (\<lambda>sub. case sub of AddressSub addr \<Rightarrow> addr = address | _ \<Rightarrow> False) subs
      | DifficultyAdjusted _ _ _ \<Rightarrow> DifficultySub \<in> set subs
      | NetworkStatsUpdated _ _ _ _ \<Rightarrow> NetworkStatsSub \<in> set subs)"

definition event_message :: "blockchain_event \<Rightarrow> json" where
  "event_message event =
     (case event of
        NewBlock h height timestamp miner reward \<Rightarrow>
          JObj [(''type'', JStr ''block''), (''hash'', JStr h), (''height'', JPos height),
            (''timestamp'', JPos timestamp), (''miner'', JStr miner), (''reward'', JPos reward)]
      | NewTransaction txid from_addr to_addr amount fee timestamp \<Rightarrow>
          JObj [(''type'', JStr ''transaction''), (''txid'', JStr txid), (''from'', JStr from_addr),
            (''to'', JStr to_addr), (''amount'', JPos amount), (''fee'', JPos fee), (''timestamp'', JPos timestamp)]
      | TransactionConfirmed txid block_hash block_height confirmations \<Rightarrow>
          JObj [(''type'', JStr ''transaction_confirmed''), (''txid'', JStr txid),
            (''block_hash'', JStr block_hash), (''block_height'', JPos block_height),
            (''confirmations'', JPos (ucast confirmations))]
      | BalanceChanged address old_balance new_balance timestamp \<Rightarrow>
          JObj [(''type'', JStr ''balance_changed''), (''address'', JStr address),
            (''old_balance'', JPos old_balance), (''new_balance'', JPos new_balance), (''timestamp'', JPos timestamp)]
      | DifficultyAdjusted old_difficulty new_difficulty timestamp \<Rightarrow>
          JObj [(''type'', JStr ''difficulty_adjusted''), (''old_difficulty'', json_of_f64 old_difficulty),
            (''new_difficulty'', json_of_f64 new_difficulty), (''timestamp'', JPos timestamp)]
      | NetworkStatsUpdated peers hashrate blocks txs \<Rightarrow>
          JObj [(''type'', JStr ''network_stats''), (''peers'', JPos (ucast peers)), (''hashrate'', JPos hashrate),
            (''blocks'', JPos blocks), (''transactions'', JPos txs)])"

text \<open>One round of the loop: what is sent, whether the loop goes on, the clients. \<open>send_ok\<close> says whether
  the socket takes what is sent; only the delivery of an event depends on it.\<close>

definition ws_round ::
    "(string \<Rightarrow> string + json) \<Rightarrow> u64 \<Rightarrow> bool \<Rightarrow> string \<Rightarrow> ws_clients \<Rightarrow> ws_input \<Rightarrow>
     ws_output list \<times> bool \<times> ws_clients" where
  "ws_round parse now send_ok client_id clients input =
     (case input of
        WsMessage (WsText body) \<Rightarrow>
          (case ws_text parse now client_id clients body of (outs, clients') \<Rightarrow> (outs, True, clients'))
      | WsMessage WsClose \<Rightarrow> ([], False, clients)
      | WsMessage (WsPing data) \<Rightarrow> ([OutPong data], True, clients)
      | WsMessage _ \<Rightarrow> ([], True, clients)
      | WsError \<Rightarrow> ([], False, clients)
      | WsEnd \<Rightarrow> ([], False, clients)
      | WsEvent event \<Rightarrow>
          (case hm_get clients client_id of
             Some client \<Rightarrow>
               if should_send event (wc_subscriptions client)
               then ([OutText (event_message event)], send_ok, clients)
               else ([], True, clients)
           | None \<Rightarrow> ([], True, clients))
      | WsLagged \<Rightarrow> ([], True, clients)
      | WsClosed \<Rightarrow> ([], False, clients))"

text \<open>A connection opens with an entry of its own.\<close>

definition ws_open :: "u64 \<Rightarrow> string \<Rightarrow> ws_clients \<Rightarrow> ws_clients" where
  "ws_open now client_id clients =
     hm_insert client_id \<lparr>wc_subscriptions = [], wc_last_heartbeat = now\<rparr> clients"

text \<open>The loop, with what it meets at each round: the clock, whether sending works, what the other
  connections have made of the map in the meantime, and the input.\<close>

record ws_turn =
  tn_now :: u64
  tn_send_ok :: bool
  tn_others :: "ws_clients \<Rightarrow> ws_clients"
  tn_input :: ws_input

fun ws_loop ::
    "(string \<Rightarrow> string + json) \<Rightarrow> string \<Rightarrow> ws_turn list \<Rightarrow> ws_clients \<Rightarrow> ws_output list \<times> bool \<times> ws_clients" where
  "ws_loop parse client_id [] clients = ([], True, clients)"
| "ws_loop parse client_id (turn # turns) clients =
     (case ws_round parse (tn_now turn) (tn_send_ok turn) client_id (tn_others turn clients) (tn_input turn) of
        (outs, going_on, clients') \<Rightarrow>
          if going_on then
            (case ws_loop parse client_id turns clients' of
               (outs', still_open, clients'') \<Rightarrow> (outs @ outs', still_open, clients''))
          else (outs, False, hm_remove client_id clients'))"

text \<open>The whole of \<open>handle_connection\<close>: when the welcome cannot be sent, the function returns before
  the loop and leaves the client where it is.\<close>

definition handle_connection ::
    "(string \<Rightarrow> string + json) \<Rightarrow> u64 \<Rightarrow> bool \<Rightarrow> string \<Rightarrow> ws_turn list \<Rightarrow> ws_clients \<Rightarrow>
     ws_output list \<times> bool \<times> ws_clients" where
  "handle_connection parse now welcome_ok client_id turns clients =
     (let clients = ws_open now client_id clients
      in if \<not> welcome_ok then ([OutText (welcome_message now)], False, clients)
         else case ws_loop parse client_id turns clients of
           (outs, still_open, clients') \<Rightarrow> (OutText (welcome_message now) # outs, still_open, clients'))"

section \<open>Connections do not touch each other\<close>

lemma ws_text_own:
  assumes "ws_text parse now cid clients body = (outs, clients')"
  shows "j \<noteq> cid \<longrightarrow> hm_get clients' j = hm_get clients j"
    and "hm_get clients' cid = None \<longleftrightarrow> hm_get clients cid = None"
  using assms
  by (auto simp: ws_text_def ws_subscribe_def ws_unsubscribe_def Let_def hm_get_insert
      split: sum.splits option.splits if_splits)

lemma ws_round_own:
  assumes "ws_round parse now ok cid clients input = (outs, going_on, clients')"
  shows "j \<noteq> cid \<longrightarrow> hm_get clients' j = hm_get clients j"
    and "hm_get clients' cid = None \<longleftrightarrow> hm_get clients cid = None"
  using assms ws_text_own
  by (auto simp: ws_round_def split: ws_input.splits ws_message.splits prod.splits option.splits if_splits)

section \<open>Which events are delivered\<close>

text \<open>What a client is subscribed to: a set of subscriptions to which a command adds one or of which it
  ends some, and an event is delivered when the set holds its topic. By the contract an unsubscription
  ends the one it names (\<open>wanted (=)\<close>); the code ends every address that the text of the channel ends
  with (\<open>wanted ended_by\<close>).\<close>

definition topic :: "blockchain_event \<Rightarrow> subscription" where
  "topic event =
     (case event of
        NewBlock _ _ _ _ _ \<Rightarrow> Blocks
      | NewTransaction _ _ _ _ _ _ \<Rightarrow> TransactionsSub
      | TransactionConfirmed _ _ _ _ \<Rightarrow> TransactionsSub
      | BalanceChanged address _ _ _ \<Rightarrow> AddressSub address
      | DifficultyAdjusted _ _ _ \<Rightarrow> DifficultySub
      | NetworkStatsUpdated _ _ _ _ \<Rightarrow> NetworkStatsSub)"

datatype ws_command = Subscribe subscription | Unsubscribe subscription | NoCommand

definition command_of :: "(string \<Rightarrow> string + json) \<Rightarrow> string \<Rightarrow> ws_command" where
  "command_of parse body =
     (case parse body of
        Inl e \<Rightarrow> NoCommand
      | Inr request \<Rightarrow>
          (case (json_get request ''action'', Option.bind (Option.bind (json_get request ''channel'') as_str) channel_of) of
             (Some (JStr action), Some sub) \<Rightarrow>
               if action = ''subscribe'' then Subscribe sub
               else if action = ''unsubscribe'' then Unsubscribe sub else NoCommand
           | _ \<Rightarrow> NoCommand))"

definition ended_by :: "subscription \<Rightarrow> subscription \<Rightarrow> bool" where
  "ended_by named sub =
     (case (named, sub) of
        (AddressSub a, AddressSub addr) \<Rightarrow> ends_with (''address:'' @ a) addr
      | _ \<Rightarrow> named = sub)"

fun obey ::
    "(subscription \<Rightarrow> subscription \<Rightarrow> bool) \<Rightarrow> ws_command \<Rightarrow> subscription set \<Rightarrow> subscription set" where
  "obey ends (Subscribe sub) subs = insert sub subs"
| "obey ends (Unsubscribe sub) subs = {s \<in> subs. \<not> ends sub s}"
| "obey ends NoCommand subs = subs"

fun wanted ::
    "(subscription \<Rightarrow> subscription \<Rightarrow> bool) \<Rightarrow> (string \<Rightarrow> string + json) \<Rightarrow> subscription set \<Rightarrow>
     ws_input list \<Rightarrow> blockchain_event list" where
  "wanted ends parse subs [] = []"
| "wanted ends parse subs (WsEvent e # inputs) =
     (if topic e \<in> subs then e # wanted ends parse subs inputs else wanted ends parse subs inputs)"
| "wanted ends parse subs (WsMessage (WsText body) # inputs) =
     wanted ends parse (obey ends (command_of parse body) subs) inputs"
| "wanted ends parse subs (_ # inputs) = wanted ends parse subs inputs"

definition sub_length :: "nat \<Rightarrow> subscription \<Rightarrow> bool" where
  "sub_length n sub \<longleftrightarrow> (case sub of AddressSub addr \<Rightarrow> length addr = n | _ \<Rightarrow> True)"

definition command_length :: "nat \<Rightarrow> ws_command \<Rightarrow> bool" where
  "command_length n c \<longleftrightarrow> (case c of Subscribe s \<Rightarrow> sub_length n s | Unsubscribe s \<Rightarrow> sub_length n s | _ \<Rightarrow> True)"

definition input_length :: "(string \<Rightarrow> string + json) \<Rightarrow> nat \<Rightarrow> ws_input \<Rightarrow> bool" where
  "input_length parse n input \<longleftrightarrow>
     (case input of WsMessage (WsText body) \<Rightarrow> command_length n (command_of parse body) | _ \<Rightarrow> True)"

lemma should_send_topic: "should_send e subs \<longleftrightarrow> topic e \<in> set subs"
proof -
  have "list_ex (\<lambda>sub. case sub of AddressSub addr \<Rightarrow> addr = a | _ \<Rightarrow> False) subs \<longleftrightarrow> AddressSub a \<in> set subs" for a
    by (induction subs) (auto split: subscription.splits)
  then show ?thesis by (cases e) (simp_all add: should_send_def topic_def)
qed

lemma starts_with_append [simp]: "starts_with (p @ s) p"
  by (simp add: starts_with_def)

lemma address_channel: "starts_with channel ''address:'' \<Longrightarrow> channel = ''address:'' @ drop 8 channel"
proof -
  assume "starts_with channel ''address:''"
  then have "take 8 channel = ''address:''" by (simp add: starts_with_def numeral_eq_Suc)
  then show ?thesis using append_take_drop_id [of 8 channel] by simp
qed

text \<open>An unsubscription from an address drops every address that ends the text of the channel.\<close>

lemma unsubscribe_suffixes:
  "kept_by_unsubscribe (''address:'' @ a) sub \<longleftrightarrow>
   (\<forall>addr. sub = AddressSub addr \<longrightarrow> \<not> ends_with (''address:'' @ a) addr)"
  by (cases sub) (auto simp: kept_by_unsubscribe_def starts_with_def)

lemma kept_iff_not_ended:
  assumes "channel_of channel = Some sub"
  shows "kept_by_unsubscribe channel other \<longleftrightarrow> \<not> ended_by sub other"
proof (cases "starts_with channel ''address:''")
  case False
  with assms show ?thesis
    by (auto simp: channel_of_def kept_by_unsubscribe_def ended_by_def split: if_splits subscription.splits)
next
  case True
  define a where "a = drop 8 channel"
  have ch: "channel = ''address:'' @ a" unfolding a_def by (rule address_channel [OF True])
  then have "sub = AddressSub a" using assms by (simp add: channel_of_def starts_with_def)
  then show ?thesis unfolding ch unsubscribe_suffixes by (cases other) (auto simp: ended_by_def)
qed

lemma kept_without_channel: "channel_of channel = None \<Longrightarrow> kept_by_unsubscribe channel sub"
  by (cases sub) (auto simp: channel_of_def kept_by_unsubscribe_def split: if_splits)

lemma ended_by_refl: "ended_by sub sub"
  by (auto simp: ended_by_def ends_with_def split: subscription.split)

lemma ended_by_same_length: "sub_length n sub \<Longrightarrow> sub_length n other \<Longrightarrow> ended_by sub other \<longleftrightarrow> sub = other"
  by (auto simp: ended_by_def ends_with_def sub_length_def split: subscription.splits)

lemma wanted_same_length:
  "Ball subs (sub_length n) \<Longrightarrow> list_all (input_length parse n) inputs \<Longrightarrow>
   wanted ended_by parse subs inputs = wanted (=) parse subs inputs"
proof (induction "ended_by" parse subs inputs rule: wanted.induct)
  case (3 parse subs body inputs)
  then have n: "command_length n (command_of parse body)" by (simp add: input_length_def)
  have "obey ended_by (command_of parse body) subs = obey (=) (command_of parse body) subs"
    and "Ball (obey ended_by (command_of parse body) subs) (sub_length n)"
    using n 3(2) ended_by_same_length by (cases "command_of parse body"; auto simp: command_length_def)+
  with 3 show ?case by simp
qed (auto simp: input_length_def)

lemma wanted_mono:
  "subs \<subseteq> subs' \<Longrightarrow> subseq (wanted ended_by parse subs inputs) (wanted (=) parse subs' inputs)"
proof (induction "ended_by" parse subs inputs arbitrary: subs' rule: wanted.induct)
  case (3 parse subs body inputs)
  have "obey ended_by (command_of parse body) subs \<subseteq> obey (=) (command_of parse body) subs'"
    using 3(2) ended_by_refl by (cases "command_of parse body") auto
  with 3(1) show ?case by simp
qed auto

text \<open>The deliveries among what is sent, told by the type of the message.\<close>

definition is_delivery :: "ws_output \<Rightarrow> bool" where
  "is_delivery out =
     (case out of
        OutText j \<Rightarrow> json_get j ''type'' \<notin> {Some (JStr ''connected''), Some (JStr ''subscribed''), Some (JStr ''pong'')}
      | OutPong _ \<Rightarrow> False)"

lemma is_delivery_simps [simp]:
  "is_delivery (OutText (event_message e))" "\<not> is_delivery (OutText (subscribed_reply c now))"
  "\<not> is_delivery (OutText (pong_reply now))" "\<not> is_delivery (OutText (welcome_message now))"
  "\<not> is_delivery (OutPong d)"
  by (cases e; simp add: is_delivery_def event_message_def json_get_def)
     (simp_all add: is_delivery_def subscribed_reply_def pong_reply_def welcome_message_def json_get_def)

definition subs_of :: "ws_clients \<Rightarrow> string \<Rightarrow> subscription set option" where
  "subs_of clients cid = map_option (\<lambda>c. set (wc_subscriptions c)) (hm_get clients cid)"

lemma ws_subscribe_effect:
  assumes "subs_of clients cid = Some subs" and "ws_subscribe now cid clients ch = (outs, clients')"
  shows "subs_of clients' cid = Some (case channel_of ch of Some sub \<Rightarrow> insert sub subs | None \<Rightarrow> subs)
    \<and> filter is_delivery outs = []"
  using assms
  by (auto simp: subs_of_def ws_subscribe_def hm_get_insert split: option.splits if_splits)

lemma ws_unsubscribe_effect:
  assumes "subs_of clients cid = Some subs"
  shows "subs_of (ws_unsubscribe cid clients ch) cid =
    Some (case channel_of ch of Some sub \<Rightarrow> {s \<in> subs. \<not> ended_by sub s} | None \<Rightarrow> subs)"
proof -
  have "{s \<in> subs. kept_by_unsubscribe ch s} =
      (case channel_of ch of Some sub \<Rightarrow> {s \<in> subs. \<not> ended_by sub s} | None \<Rightarrow> subs)"
    using kept_iff_not_ended kept_without_channel by (auto split: option.split)
  with assms show ?thesis by (auto simp: ws_unsubscribe_def subs_of_def hm_get_insert)
qed

lemma ws_text_effect:
  assumes "subs_of clients cid = Some subs" and "ws_text parse now cid clients body = (outs, clients')"
  shows "subs_of clients' cid = Some (obey ended_by (command_of parse body) subs) \<and> filter is_delivery outs = []"
proof (cases "parse body")
  case (Inl e)
  then show ?thesis using assms by (auto simp: ws_text_def command_of_def)
next
  case (Inr request)
  define ch where "ch = Option.bind (json_get request ''channel'') as_str"
  define act where "act = Option.bind (json_get request ''action'') as_str"
  have cmd: "command_of parse body = (case (act, Option.bind ch channel_of) of
      (Some action, Some sub) \<Rightarrow>
        if action = ''subscribe'' then Subscribe sub
        else if action = ''unsubscribe'' then Unsubscribe sub else NoCommand
    | _ \<Rightarrow> NoCommand)"
    by (simp add: command_of_def Inr ch_def act_def as_str_def split: option.splits json.splits)
  have res: "ws_text parse now cid clients body = (case act of None \<Rightarrow> ([], clients)
      | Some action \<Rightarrow>
          if action = ''subscribe'' then (case ch of Some c \<Rightarrow> ws_subscribe now cid clients c | None \<Rightarrow> ([], clients))
          else if action = ''unsubscribe'' then ([], case ch of Some c \<Rightarrow> ws_unsubscribe cid clients c | None \<Rightarrow> clients)
          else if action = ''ping'' then ([OutText (pong_reply now)], clients) else ([], clients))"
    unfolding ws_text_def Inr ch_def act_def Let_def sum.case by (rule refl)
  consider (sub) c where "act = Some ''subscribe''" "ch = Some c"
    | (unsub) c where "act = Some ''unsubscribe''" "ch = Some c"
    | (other) "ch = None \<or> act \<noteq> Some ''subscribe'' \<and> act \<noteq> Some ''unsubscribe''"
    by (cases ch) auto
  then show ?thesis
  proof cases
    case sub
    with assms(2) ws_subscribe_effect [OF assms(1)] show ?thesis
      by (auto simp: res cmd split: option.splits)
  next
    case unsub
    with assms(2) ws_unsubscribe_effect [OF assms(1), of c] show ?thesis
      by (auto simp: res cmd split: option.splits)
  next
    case other
    with assms show ?thesis by (auto simp: res cmd split: option.splits if_splits)
  qed
qed

text \<open>The other connections leave the entry of this one as it is.\<close>

definition turn_ok :: "string \<Rightarrow> ws_turn \<Rightarrow> bool" where
  "turn_ok cid turn \<longleftrightarrow> (\<forall>m. hm_get (tn_others turn m) cid = hm_get m cid)"

lemma ws_loop_delivers:
  assumes "subs_of clients cid = Some subs" and "list_all (turn_ok cid) turns"
    and "ws_loop parse cid turns clients = (outs, True, clients')"
  shows "filter is_delivery outs = map (\<lambda>e. OutText (event_message e)) (wanted ended_by parse subs (map tn_input turns))"
  using assms
proof (induction turns arbitrary: clients subs outs)
  case (Cons turn turns)
  define m where "m = tn_others turn clients"
  have m: "subs_of m cid = Some subs"
    using Cons.prems(1,2) by (simp add: m_def turn_ok_def subs_of_def)
  obtain out1 clients1 outs2 where
    r: "ws_round parse (tn_now turn) (tn_send_ok turn) cid m (tn_input turn) = (out1, True, clients1)"
    and l: "ws_loop parse cid turns clients1 = (outs2, True, clients')" and outs: "outs = out1 @ outs2"
    using Cons.prems(3) by (auto simp: m_def split: prod.splits if_splits)
  have IH: "subs_of clients1 cid = Some subs1 \<Longrightarrow>
      filter is_delivery outs2 = map (\<lambda>e. OutText (event_message e)) (wanted ended_by parse subs1 (map tn_input turns))" for subs1
    using Cons.IH [OF _ _ l] Cons.prems(2) by simp
  show ?case
  proof (cases "tn_input turn")
    case (WsEvent e)
    obtain c where c: "hm_get m cid = Some c" "subs = set (wc_subscriptions c)" using m by (auto simp: subs_of_def)
    have "clients1 = m \<and> out1 = (if topic e \<in> subs then [OutText (event_message e)] else [])"
      using r c by (auto simp: ws_round_def WsEvent should_send_topic split: if_splits)
    then show ?thesis using IH [of subs] m WsEvent by (simp add: outs)
  next
    case (WsMessage msg)
    show ?thesis
    proof (cases msg)
      case (WsText body)
      have "ws_text parse (tn_now turn) cid m body = (out1, clients1)"
        using r by (simp add: ws_round_def WsMessage WsText split: prod.splits)
      with ws_text_effect [OF m] have
        "subs_of clients1 cid = Some (obey ended_by (command_of parse body) subs)" "filter is_delivery out1 = []" by blast+
      with IH show ?thesis by (simp add: outs WsMessage WsText)
    qed (use r IH [of subs] m in \<open>auto simp: ws_round_def WsMessage outs\<close>)
  qed (use r IH [of subs] m in \<open>auto simp: ws_round_def outs\<close>)
qed simp

text \<open>C11: What a client has been sent on an open connection, replies left aside, is exactly the sequence of
  the events whose topic it was subscribed to when they came, in their order, whatever the other
  connections do in between to their own entries, where an unsubscription from an address also ends
  those that the text of its channel ends with. No event is delivered that the client is not subscribed
  to by its own commands; and where all addresses it names have one length, every such event is.\<close>

theorem websocket_delivers:
  assumes "list_all (turn_ok cid) turns"
    and "handle_connection parse now True cid turns clients = (outs, True, clients')"
  shows "(filter is_delivery outs =
      map (\<lambda>e. OutText (event_message e)) (wanted ended_by parse {} (map tn_input turns))) \<and>
      (subseq (filter is_delivery outs)
      (map (\<lambda>e. OutText (event_message e)) (wanted (=) parse {} (map tn_input turns)))) \<and>
      (list_all (input_length parse n) (map tn_input turns) \<longrightarrow>
      filter is_delivery outs = map (\<lambda>e. OutText (event_message e)) (wanted (=) parse {} (map tn_input turns)))"
    (is "?A \<and> ?B \<and> ?C")
proof -
  obtain outs' where "ws_loop parse cid turns (ws_open now cid clients) = (outs', True, clients')"
    and "outs = OutText (welcome_message now) # outs'"
    using assms(2) by (auto simp: handle_connection_def split: prod.splits)
  moreover have "subs_of (ws_open now cid clients) cid = Some {}"
    by (simp add: subs_of_def ws_open_def hm_get_insert)
  ultimately have sent: "filter is_delivery outs =
      map (\<lambda>e. OutText (event_message e)) (wanted ended_by parse {} (map tn_input turns))"
    using ws_loop_delivers [OF _ assms(1)] by simp
  then have hA: ?A .
  have hB: ?B
    unfolding sent by (intro subseq_map wanted_mono) simp
  have hC: ?C
    unfolding sent using wanted_same_length [of "{}" n] by simp
  show ?thesis by (rule conjI [OF hA conjI [OF hB hC]])
qed

text \<open>A connection that cannot be greeted is never removed; an unsubscription from one address drops
  others that end like it.\<close>

lemma ungreeted_client_stays:
  "handle_connection parse now False cid turns clients = (outs, still_open, clients') \<Longrightarrow>
   \<not> still_open \<and> hm_get clients' cid \<noteq> None"
  by (auto simp: handle_connection_def ws_open_def hm_get_insert)

lemma closed_client_removed:
  "ws_loop parse cid turns clients = (outs, False, clients') \<Longrightarrow> hm_get clients' cid = None"
  by (induction turns arbitrary: clients outs) (auto split: prod.splits if_splits simp: hm_get_remove)

lemma unsubscribe_drops_suffix:
  assumes "hm_get clients cid = Some c" and "AddressSub (p @ a) \<in> set (wc_subscriptions c)"
    and "AddressSub a \<in> set (wc_subscriptions c)"
  shows "\<exists>c'. hm_get (ws_unsubscribe cid clients (''address:'' @ p @ a)) cid = Some c' \<and>
    AddressSub a \<notin> set (wc_subscriptions c')"
proof -
  have "ends_with (q @ a) a" for q :: string by (simp add: ends_with_def)
  from this [of "''address:'' @ p"] have "ends_with (''address:'' @ p @ a) a" by simp
  then have "\<not> kept_by_unsubscribe (''address:'' @ p @ a) (AddressSub a)"
    unfolding unsubscribe_suffixes by blast
  then show ?thesis using assms(1) by (simp add: ws_unsubscribe_def hm_get_insert)
qed

section \<open>A session\<close>

definition quoted :: "string \<Rightarrow> string" where
  "quoted s = CHR 0x22 # s @ [CHR 0x22]"

definition action_text :: "string \<Rightarrow> string \<Rightarrow> string" where
  "action_text action channel = ''{'' @ quoted ''action'' @ '':'' @ quoted action @ '','' @
     quoted ''channel'' @ '':'' @ quoted channel @ ''}''"

definition sample_ws_parse :: "string \<Rightarrow> string + json" where
  "sample_ws_parse body =
     (if body = action_text ''subscribe'' ''blocks'' then
        Inr (JObj [(''action'', JStr ''subscribe''), (''channel'', JStr ''blocks'')])
      else if body = action_text ''unsubscribe'' ''blocks'' then
        Inr (JObj [(''action'', JStr ''unsubscribe''), (''channel'', JStr ''blocks'')])
      else Inl ''expected value'')"

definition sample_block_event :: "u64 \<Rightarrow> blockchain_event" where
  "sample_block_event h = NewBlock ''00ff'' h 1700000000 ''SLVR1'' 50"

definition turn :: "ws_input \<Rightarrow> ws_turn" where
  "turn input = \<lparr>tn_now = 1700000000, tn_send_ok = True, tn_others = (\<lambda>m. m), tn_input = input\<rparr>"

definition sample_turns :: "ws_turn list" where
  "sample_turns = map turn [WsEvent (sample_block_event 1), WsMessage (WsText (action_text ''subscribe'' ''blocks'')),
     WsEvent (sample_block_event 2), WsMessage (WsText (action_text ''unsubscribe'' ''blocks'')), WsEvent (sample_block_event 3)]"

theorem websocket_delivers_witness:
  "filter is_delivery (fst (handle_connection sample_ws_parse 1700000000 True ''peer'' sample_turns [])) =
   [OutText (event_message (sample_block_event 2))]"
proof -
  have cmds: "command_of sample_ws_parse (action_text ''subscribe'' ''blocks'') = Subscribe Blocks"
    "command_of sample_ws_parse (action_text ''unsubscribe'' ''blocks'') = Unsubscribe Blocks" by code_simp+
  have ok: "list_all (turn_ok ''peer'') sample_turns"
    by (simp add: sample_turns_def turn_def turn_ok_def)
  have w: "wanted ended_by sample_ws_parse {} (map tn_input sample_turns) = [sample_block_event 2]"
    by (simp add: sample_turns_def turn_def cmds topic_def sample_block_event_def ended_by_def)
  have "fst (snd (handle_connection sample_ws_parse 1700000000 True ''peer'' sample_turns []))"
    by code_simp
  then obtain outs clients' where
    h: "handle_connection sample_ws_parse 1700000000 True ''peer'' sample_turns [] = (outs, True, clients')"
    by (metis prod.collapse)
  show ?thesis using websocket_delivers [OF ok h] by (simp add: h w)
qed

end
