(* ===== verification/Command_Line.thy ===== *)
theory Command_Line
  imports Json
begin

text \<open>
  The command lines of the programs \<open>src/bin/node.rs\<close>, \<open>node_production.rs\<close>, \<open>cpu_miner.rs\<close> and
  \<open>stratum_pool.rs\<close>, which all walk through their arguments by hand. What they have in common is the
  locale \<open>command_line\<close>; it is interpreted on each of the four loops. The arguments are those after the
  name of the program; \<open>str::parse\<close> of a socket address is the argument \<open>addr\<close>.
\<close>

text \<open>A loop ends with the settings, with the error that \<open>?\<close> passes on, or with \<open>process::exit\<close>.\<close>

datatype 's cli_outcome = Run 's | BadValue string | ExitWith nat

section \<open>What the loops have in common\<close>

locale command_line =
  fixes parse :: "string list \<Rightarrow> 's \<Rightarrow> 's cli_outcome"
    and setting :: "string \<Rightarrow> (string \<Rightarrow> 's \<Rightarrow> string + 's) option"
    and stops :: "string \<Rightarrow> bool"
  assumes parse_Nil: "parse [] s = Run s"
    and parse_setting: "setting arg = Some f \<Longrightarrow> parse (arg # v # rest) s =
          (case f v s of Inl e \<Rightarrow> BadValue e | Inr s' \<Rightarrow> parse rest s')"
    and parse_missing: "setting arg = Some f \<Longrightarrow> parse [arg] s = ExitWith 1"
    and parse_other: "setting arg = None \<Longrightarrow> parse (arg # rest) s = ExitWith (if stops arg then 0 else 1)"
begin

text \<open>The settings of a list of options with their values, from left to right.\<close>

fun settings :: "(string \<times> string) list \<Rightarrow> 's \<Rightarrow> 's option" where
  "settings [] s = Some s"
| "settings ((arg, v) # opts) s =
     (case setting arg of
        Some f \<Rightarrow> (case f v s of Inr s' \<Rightarrow> settings opts s' | Inl e \<Rightarrow> None)
      | None \<Rightarrow> None)"

definition arguments :: "(string \<times> string) list \<Rightarrow> string list" where
  "arguments opts = concat (map (\<lambda>(arg, v). [arg, v]) opts)"

lemma arguments_simps [simp]:
  "arguments [] = []" "arguments ((arg, v) # opts) = arg # v # arguments opts"
  by (simp_all add: arguments_def)

lemma parse_arguments: "settings opts s = Some s' \<Longrightarrow> parse (arguments opts @ rest) s = parse rest s'"
  by (induction opts s rule: settings.induct)
     (auto simp: parse_setting split: option.splits sum.splits)

text \<open>The program runs exactly on lists of known options with acceptable values.\<close>

lemma run_iff: "parse args s = Run s' \<longleftrightarrow> (\<exists>opts. args = arguments opts \<and> settings opts s = Some s')"
proof
  show "parse args s = Run s' \<Longrightarrow> \<exists>opts. args = arguments opts \<and> settings opts s = Some s'"
  proof (induction args arbitrary: s rule: length_induct)
    case (1 args)
    show ?case
    proof (cases args)
      case Nil
      with 1 show ?thesis by (intro exI [of _ "[]"]) (simp add: parse_Nil)
    next
      case (Cons arg rest)
      show ?thesis
      proof (cases "setting arg")
        case None
        with 1 Cons show ?thesis by (simp add: parse_other)
      next
        case (Some f)
        then obtain v rest' where r: "rest = v # rest'"
          using 1 Cons parse_missing by (cases rest) auto
        then obtain s1 where s1: "f v s = Inr s1" "parse rest' s1 = Run s'"
          using 1 Cons Some by (auto simp: parse_setting split: sum.splits)
        moreover have "length rest' < length args" using Cons r by simp
        ultimately obtain opts where "rest' = arguments opts" "settings opts s1 = Some s'"
          using 1(1) by blast
        with Some s1(1) Cons r show ?thesis by (intro exI [of _ "(arg, v) # opts"]) simp
      qed
    qed
  qed
next
  assume "\<exists>opts. args = arguments opts \<and> settings opts s = Some s'"
  then show "parse args s = Run s'" using parse_arguments [of _ s s' "[]"] by (auto simp: parse_Nil)
qed

end

section \<open>The node\<close>

record 'a node_args =
  na_listen :: 'a
  na_rpc :: 'a
  na_ws :: 'a
  na_data_dir :: string

definition node_defaults :: "(string \<Rightarrow> string + 'a) \<Rightarrow> string + 'a node_args" where
  "node_defaults addr =
     (case addr ''0.0.0.0:8333'' of Inl e \<Rightarrow> Inl e | Inr l \<Rightarrow>
      case addr ''0.0.0.0:8332'' of Inl e \<Rightarrow> Inl e | Inr r \<Rightarrow>
      case addr ''0.0.0.0:8080'' of Inl e \<Rightarrow> Inl e | Inr w \<Rightarrow>
        Inr \<lparr>na_listen = l, na_rpc = r, na_ws = w, na_data_dir = ''./silverbitcoin_data''\<rparr>)"

fun parse_node_args ::
    "(string \<Rightarrow> string + 'a) \<Rightarrow> string list \<Rightarrow> 'a node_args \<Rightarrow> 'a node_args cli_outcome" where
  "parse_node_args addr [] s = Run s"
| "parse_node_args addr (arg # rest) s =
     (if arg = ''--listen'' \<or> arg = ''-l'' then
        (case rest of
           v # rest' \<Rightarrow> (case addr v of
               Inr a \<Rightarrow> parse_node_args addr rest' (s\<lparr>na_listen := a\<rparr>) | Inl e \<Rightarrow> BadValue e)
         | [] \<Rightarrow> ExitWith 1)
      else if arg = ''--rpc'' \<or> arg = ''-r'' then
        (case rest of
           v # rest' \<Rightarrow> (case addr v of
               Inr a \<Rightarrow> parse_node_args addr rest' (s\<lparr>na_rpc := a\<rparr>) | Inl e \<Rightarrow> BadValue e)
         | [] \<Rightarrow> ExitWith 1)
      else if arg = ''--ws'' \<or> arg = ''-w'' then
        (case rest of
           v # rest' \<Rightarrow> (case addr v of
               Inr a \<Rightarrow> parse_node_args addr rest' (s\<lparr>na_ws := a\<rparr>) | Inl e \<Rightarrow> BadValue e)
         | [] \<Rightarrow> ExitWith 1)
      else if arg = ''--datadir'' \<or> arg = ''-d'' then
        (case rest of
           v # rest' \<Rightarrow> parse_node_args addr rest' (s\<lparr>na_data_dir := v\<rparr>)
         | [] \<Rightarrow> ExitWith 1)
      else if arg = ''--help'' \<or> arg = ''-h'' then ExitWith 0
      else if arg = ''--version'' \<or> arg = ''-v'' then ExitWith 0
      else ExitWith 1)"

section \<open>The production node\<close>

record 'a production_args =
  pa_listen :: 'a
  pa_rpc :: 'a
  pa_data_dir :: string

definition production_defaults :: "(string \<Rightarrow> string + 'a) \<Rightarrow> string + 'a production_args" where
  "production_defaults addr =
     (case addr ''0.0.0.0:8333'' of Inl e \<Rightarrow> Inl e | Inr l \<Rightarrow>
      case addr ''0.0.0.0:8332'' of Inl e \<Rightarrow> Inl e | Inr r \<Rightarrow>
        Inr \<lparr>pa_listen = l, pa_rpc = r, pa_data_dir = ''./silverbitcoin_data''\<rparr>)"

fun parse_production_args ::
    "(string \<Rightarrow> string + 'a) \<Rightarrow> string list \<Rightarrow> 'a production_args \<Rightarrow> 'a production_args cli_outcome" where
  "parse_production_args addr [] s = Run s"
| "parse_production_args addr (arg # rest) s =
     (if arg = ''--listen'' \<or> arg = ''-l'' then
        (case rest of
           v # rest' \<Rightarrow> (case addr v of
               Inr a \<Rightarrow> parse_production_args addr rest' (s\<lparr>pa_listen := a\<rparr>) | Inl e \<Rightarrow> BadValue e)
         | [] \<Rightarrow> ExitWith 1)
      else if arg = ''--rpc'' \<or> arg = ''-r'' then
        (case rest of
           v # rest' \<Rightarrow> (case addr v of
               Inr a \<Rightarrow> parse_production_args addr rest' (s\<lparr>pa_rpc := a\<rparr>) | Inl e \<Rightarrow> BadValue e)
         | [] \<Rightarrow> ExitWith 1)
      else if arg = ''--datadir'' \<or> arg = ''-d'' then
        (case rest of
           v # rest' \<Rightarrow> parse_production_args addr rest' (s\<lparr>pa_data_dir := v\<rparr>)
         | [] \<Rightarrow> ExitWith 1)
      else if arg = ''--help'' \<or> arg = ''-h'' then ExitWith 0
      else if arg = ''--version'' \<or> arg = ''-v'' then ExitWith 0
      else ExitWith 1)"

section \<open>The miner and the pool\<close>

record miner_args =
  ma_pool_url :: string
  ma_address :: string
  ma_threads :: u64

text \<open>\<open>cpus\<close> is \<open>num_cpus::get()\<close>; a number that does not parse counts as that.\<close>

definition default_wallet :: string where
  "default_wallet =
     ''SLVRyNacCfuRochYj3hC8AFaQtoUDQ8fG8W6hohNVgJGj9o3kPu7eUR6F5FsRR5z118WHrAhMMZzHRBGa8MT5RcPzut''"

definition miner_defaults :: "u64 \<Rightarrow> miner_args" where
  "miner_defaults cpus = \<lparr>ma_pool_url = ''stratum+tcp://localhost:3333'', ma_address = default_wallet,
     ma_threads = cpus\<rparr>"

fun parse_miner_args :: "u64 \<Rightarrow> string list \<Rightarrow> miner_args \<Rightarrow> miner_args cli_outcome" where
  "parse_miner_args cpus [] s = Run s"
| "parse_miner_args cpus (arg # rest) s =
     (if arg = ''--pool'' \<or> arg = ''-p'' then
        (case rest of
           v # rest' \<Rightarrow> parse_miner_args cpus rest' (s\<lparr>ma_pool_url := v\<rparr>)
         | [] \<Rightarrow> ExitWith 1)
      else if arg = ''--address'' \<or> arg = ''-a'' then
        (case rest of
           v # rest' \<Rightarrow> parse_miner_args cpus rest' (s\<lparr>ma_address := v\<rparr>)
         | [] \<Rightarrow> ExitWith 1)
      else if arg = ''--threads'' \<or> arg = ''-t'' then
        (case rest of
           v # rest' \<Rightarrow> parse_miner_args cpus rest'
             (s\<lparr>ma_threads := (case parse_u64 10 v of Some n \<Rightarrow> n | None \<Rightarrow> cpus)\<rparr>)
         | [] \<Rightarrow> ExitWith 1)
      else if arg = ''--help'' \<or> arg = ''-h'' then ExitWith 0
      else ExitWith 1)"

record 'a pool_args =
  oa_listen :: 'a
  oa_node_rpc :: string
  oa_pool_address :: string

definition pool_defaults :: "(string \<Rightarrow> string + 'a) \<Rightarrow> string + 'a pool_args" where
  "pool_defaults addr =
     (case addr ''0.0.0.0:3333'' of Inl e \<Rightarrow> Inl e | Inr l \<Rightarrow>
        Inr \<lparr>oa_listen = l, oa_node_rpc = ''http://localhost:8332'', oa_pool_address = default_wallet\<rparr>)"

fun parse_pool_args ::
    "(string \<Rightarrow> string + 'a) \<Rightarrow> string list \<Rightarrow> 'a pool_args \<Rightarrow> 'a pool_args cli_outcome" where
  "parse_pool_args addr [] s = Run s"
| "parse_pool_args addr (arg # rest) s =
     (if arg = ''--listen'' \<or> arg = ''-l'' then
        (case rest of
           v # rest' \<Rightarrow> (case addr v of
               Inr a \<Rightarrow> parse_pool_args addr rest' (s\<lparr>oa_listen := a\<rparr>) | Inl e \<Rightarrow> BadValue e)
         | [] \<Rightarrow> ExitWith 1)
      else if arg = ''--node-rpc'' \<or> arg = ''-n'' then
        (case rest of
           v # rest' \<Rightarrow> parse_pool_args addr rest' (s\<lparr>oa_node_rpc := v\<rparr>)
         | [] \<Rightarrow> ExitWith 1)
      else if arg = ''--pool-address'' \<or> arg = ''-p'' then
        (case rest of
           v # rest' \<Rightarrow> parse_pool_args addr rest' (s\<lparr>oa_pool_address := v\<rparr>)
         | [] \<Rightarrow> ExitWith 1)
      else if arg = ''--help'' \<or> arg = ''-h'' then ExitWith 0
      else ExitWith 1)"

section \<open>The four loops are command lines\<close>

definition node_setting ::
    "(string \<Rightarrow> string + 'a) \<Rightarrow> string \<Rightarrow> (string \<Rightarrow> 'a node_args \<Rightarrow> string + 'a node_args) option" where
  "node_setting addr arg =
     (if arg = ''--listen'' \<or> arg = ''-l'' then Some (\<lambda>v s. map_sum id (\<lambda>a. s\<lparr>na_listen := a\<rparr>) (addr v))
      else if arg = ''--rpc'' \<or> arg = ''-r'' then Some (\<lambda>v s. map_sum id (\<lambda>a. s\<lparr>na_rpc := a\<rparr>) (addr v))
      else if arg = ''--ws'' \<or> arg = ''-w'' then Some (\<lambda>v s. map_sum id (\<lambda>a. s\<lparr>na_ws := a\<rparr>) (addr v))
      else if arg = ''--datadir'' \<or> arg = ''-d'' then Some (\<lambda>v s. Inr (s\<lparr>na_data_dir := v\<rparr>))
      else None)"

definition production_setting ::
    "(string \<Rightarrow> string + 'a) \<Rightarrow> string \<Rightarrow> (string \<Rightarrow> 'a production_args \<Rightarrow> string + 'a production_args) option" where
  "production_setting addr arg =
     (if arg = ''--listen'' \<or> arg = ''-l'' then Some (\<lambda>v s. map_sum id (\<lambda>a. s\<lparr>pa_listen := a\<rparr>) (addr v))
      else if arg = ''--rpc'' \<or> arg = ''-r'' then Some (\<lambda>v s. map_sum id (\<lambda>a. s\<lparr>pa_rpc := a\<rparr>) (addr v))
      else if arg = ''--datadir'' \<or> arg = ''-d'' then Some (\<lambda>v s. Inr (s\<lparr>pa_data_dir := v\<rparr>))
      else None)"

definition miner_setting :: "u64 \<Rightarrow> string \<Rightarrow> (string \<Rightarrow> miner_args \<Rightarrow> string + miner_args) option" where
  "miner_setting cpus arg =
     (if arg = ''--pool'' \<or> arg = ''-p'' then Some (\<lambda>v s. Inr (s\<lparr>ma_pool_url := v\<rparr>))
      else if arg = ''--address'' \<or> arg = ''-a'' then Some (\<lambda>v s. Inr (s\<lparr>ma_address := v\<rparr>))
      else if arg = ''--threads'' \<or> arg = ''-t'' then
        Some (\<lambda>v s. Inr (s\<lparr>ma_threads := (case parse_u64 10 v of Some n \<Rightarrow> n | None \<Rightarrow> cpus)\<rparr>))
      else None)"

definition pool_setting ::
    "(string \<Rightarrow> string + 'a) \<Rightarrow> string \<Rightarrow> (string \<Rightarrow> 'a pool_args \<Rightarrow> string + 'a pool_args) option" where
  "pool_setting addr arg =
     (if arg = ''--listen'' \<or> arg = ''-l'' then Some (\<lambda>v s. map_sum id (\<lambda>a. s\<lparr>oa_listen := a\<rparr>) (addr v))
      else if arg = ''--node-rpc'' \<or> arg = ''-n'' then Some (\<lambda>v s. Inr (s\<lparr>oa_node_rpc := v\<rparr>))
      else if arg = ''--pool-address'' \<or> arg = ''-p'' then Some (\<lambda>v s. Inr (s\<lparr>oa_pool_address := v\<rparr>))
      else None)"

definition asks_help :: "string \<Rightarrow> bool" where
  "asks_help arg \<longleftrightarrow> arg = ''--help'' \<or> arg = ''-h''"

definition asks_version :: "string \<Rightarrow> bool" where
  "asks_version arg \<longleftrightarrow> arg = ''--version'' \<or> arg = ''-v''"

lemma node_args_step:
  "parse_node_args addr (arg # rest) s =
     (case node_setting addr arg of
        Some f \<Rightarrow> (case rest of
            v # rest' \<Rightarrow> (case f v s of Inr s' \<Rightarrow> parse_node_args addr rest' s' | Inl e \<Rightarrow> BadValue e)
          | [] \<Rightarrow> ExitWith 1)
      | None \<Rightarrow> ExitWith (if asks_help arg \<or> asks_version arg then 0 else 1))"
proof -
  define p1 where "p1 \<longleftrightarrow> arg = ''--listen'' \<or> arg = ''-l''"
  define p2 where "p2 \<longleftrightarrow> arg = ''--rpc'' \<or> arg = ''-r''"
  define p3 where "p3 \<longleftrightarrow> arg = ''--ws'' \<or> arg = ''-w''"
  define p4 where "p4 \<longleftrightarrow> arg = ''--datadir'' \<or> arg = ''-d''"
  define p5 where "p5 \<longleftrightarrow> arg = ''--help'' \<or> arg = ''-h''"
  define p6 where "p6 \<longleftrightarrow> arg = ''--version'' \<or> arg = ''-v''"
  show ?thesis
    unfolding parse_node_args.simps node_setting_def asks_help_def asks_version_def
      p1_def [symmetric] p2_def [symmetric] p3_def [symmetric] p4_def [symmetric] p5_def [symmetric] p6_def [symmetric]
    by (simp split: list.split sum.split)
qed

lemma production_args_step:
  "parse_production_args addr (arg # rest) s =
     (case production_setting addr arg of
        Some f \<Rightarrow> (case rest of
            v # rest' \<Rightarrow> (case f v s of Inr s' \<Rightarrow> parse_production_args addr rest' s' | Inl e \<Rightarrow> BadValue e)
          | [] \<Rightarrow> ExitWith 1)
      | None \<Rightarrow> ExitWith (if asks_help arg \<or> asks_version arg then 0 else 1))"
proof -
  define p1 where "p1 \<longleftrightarrow> arg = ''--listen'' \<or> arg = ''-l''"
  define p2 where "p2 \<longleftrightarrow> arg = ''--rpc'' \<or> arg = ''-r''"
  define p3 where "p3 \<longleftrightarrow> arg = ''--datadir'' \<or> arg = ''-d''"
  define p4 where "p4 \<longleftrightarrow> arg = ''--help'' \<or> arg = ''-h''"
  define p5 where "p5 \<longleftrightarrow> arg = ''--version'' \<or> arg = ''-v''"
  show ?thesis
    unfolding parse_production_args.simps production_setting_def asks_help_def asks_version_def
      p1_def [symmetric] p2_def [symmetric] p3_def [symmetric] p4_def [symmetric] p5_def [symmetric]
    by (simp split: list.split sum.split)
qed

lemma miner_args_step:
  "parse_miner_args cpus (arg # rest) s =
     (case miner_setting cpus arg of
        Some f \<Rightarrow> (case rest of
            v # rest' \<Rightarrow> (case f v s of Inr s' \<Rightarrow> parse_miner_args cpus rest' s' | Inl e \<Rightarrow> BadValue e)
          | [] \<Rightarrow> ExitWith 1)
      | None \<Rightarrow> ExitWith (if asks_help arg then 0 else 1))"
proof -
  define p1 where "p1 \<longleftrightarrow> arg = ''--pool'' \<or> arg = ''-p''"
  define p2 where "p2 \<longleftrightarrow> arg = ''--address'' \<or> arg = ''-a''"
  define p3 where "p3 \<longleftrightarrow> arg = ''--threads'' \<or> arg = ''-t''"
  define p4 where "p4 \<longleftrightarrow> arg = ''--help'' \<or> arg = ''-h''"
  show ?thesis
    unfolding parse_miner_args.simps miner_setting_def asks_help_def
      p1_def [symmetric] p2_def [symmetric] p3_def [symmetric] p4_def [symmetric]
    by (simp split: list.split sum.split)
qed

lemma pool_args_step:
  "parse_pool_args addr (arg # rest) s =
     (case pool_setting addr arg of
        Some f \<Rightarrow> (case rest of
            v # rest' \<Rightarrow> (case f v s of Inr s' \<Rightarrow> parse_pool_args addr rest' s' | Inl e \<Rightarrow> BadValue e)
          | [] \<Rightarrow> ExitWith 1)
      | None \<Rightarrow> ExitWith (if asks_help arg then 0 else 1))"
proof -
  define p1 where "p1 \<longleftrightarrow> arg = ''--listen'' \<or> arg = ''-l''"
  define p2 where "p2 \<longleftrightarrow> arg = ''--node-rpc'' \<or> arg = ''-n''"
  define p3 where "p3 \<longleftrightarrow> arg = ''--pool-address'' \<or> arg = ''-p''"
  define p4 where "p4 \<longleftrightarrow> arg = ''--help'' \<or> arg = ''-h''"
  show ?thesis
    unfolding parse_pool_args.simps pool_setting_def asks_help_def
      p1_def [symmetric] p2_def [symmetric] p3_def [symmetric] p4_def [symmetric]
    by (simp split: list.split sum.split)
qed

interpretation node_cli: command_line "parse_node_args addr" "node_setting addr" "\<lambda>a. asks_help a \<or> asks_version a"
  by unfold_locales (simp_all add: node_args_step del: parse_node_args.simps(2))

interpretation production_cli:
  command_line "parse_production_args addr" "production_setting addr" "\<lambda>a. asks_help a \<or> asks_version a"
  by unfold_locales (simp_all add: production_args_step del: parse_production_args.simps(2))

interpretation miner_cli: command_line "parse_miner_args cpus" "miner_setting cpus" asks_help
  by unfold_locales (simp_all add: miner_args_step del: parse_miner_args.simps(2))

interpretation pool_cli: command_line "parse_pool_args addr" "pool_setting addr" asks_help
  by unfold_locales (simp_all add: pool_args_step del: parse_pool_args.simps(2))

lemmas [simp del] = parse_node_args.simps(2) parse_production_args.simps(2) parse_miner_args.simps(2)
  parse_pool_args.simps(2)

text \<open>C40: Each of the four programs starts exactly when its arguments are known options, each followed by its
  value, and every value is accepted (an address that parses; anything else as it is); the settings
  are then those of the options from left to right, so that the last one of a kind counts.\<close>

theorem programs_run_iff:
  "(parse_node_args addr args ns = Run ns' \<longleftrightarrow>
      (\<exists>opts. args = concat (map (\<lambda>(arg, v). [arg, v]) opts) \<and> node_cli.settings addr opts ns = Some ns')) \<and>
   (parse_production_args addr args ps = Run ps' \<longleftrightarrow>
      (\<exists>opts. args = concat (map (\<lambda>(arg, v). [arg, v]) opts) \<and> production_cli.settings addr opts ps = Some ps')) \<and>
   (parse_miner_args cpus args ms = Run ms' \<longleftrightarrow>
      (\<exists>opts. args = concat (map (\<lambda>(arg, v). [arg, v]) opts) \<and> miner_cli.settings cpus opts ms = Some ms')) \<and>
   (parse_pool_args addr args os = Run os' \<longleftrightarrow>
      (\<exists>opts. args = concat (map (\<lambda>(arg, v). [arg, v]) opts) \<and> pool_cli.settings addr opts os = Some os'))"
  by (simp only: node_cli.run_iff production_cli.run_iff miner_cli.run_iff pool_cli.run_iff
      node_cli.arguments_def production_cli.arguments_def miner_cli.arguments_def pool_cli.arguments_def)

text \<open>The number of threads is the one setting that a value cannot spoil: what is not a number counts as the
  number of processors.\<close>

lemma bad_threads_ignored:
  "parse_u64 10 v = None \<Longrightarrow>
   parse_miner_args cpus [''--threads'', v] s = Run (s\<lparr>ma_threads := cpus\<rparr>)"
  by (simp add: miner_args_step miner_setting_def)

end
