(* ===== verification/Node.thy ===== *)
theory Node
  imports Websocket Command_Line
begin

text \<open>
  The node programs: \<open>src/bin/node.rs\<close>, which keeps the state of the chain in a database, and
  \<open>src/bin/node_production.rs\<close>. The state is the structure of \<open>silver_core\<close> with the fields that
  \<open>node.rs\<close> fills in; what it does not look into are type variables. The database (\<open>silver_storage\<close>) is
  a record of functions; the RPC methods of \<open>silver_core\<close>, \<open>serde_json\<close> and \<open>String::from_utf8\<close> are
  arguments. The end of \<open>save_blockchain_state_to_db\<close> is garbled in the source (after the last
  \<open>put\<close> it is no Rust); it is read as \<open>Ok(())\<close>, and the message of the loader that names an
  undefined variable is left out with the other log output.
\<close>

section \<open>State and database\<close>

record ('t, 'o, 'm) chain_info =
  bs_block_count :: u64
  bs_difficulty :: u64
  bs_hashrate :: f64
  bs_mining_enabled :: bool
  bs_mining_address :: string
  bs_balances :: "(string, u128) hmap"
  bs_blocks :: "(u64, string) hmap"
  bs_transactions :: "'t list"
  bs_utxos :: "'o list"
  bs_mempool :: "'m list"

definition genesis_state :: "('t, 'o, 'm) chain_info" where
  "genesis_state = \<lparr>bs_block_count = 1, bs_difficulty = 1000000, bs_hashrate = Num 0,
     bs_mining_enabled = False, bs_mining_address = '''', bs_balances = [], bs_blocks = [],
     bs_transactions = [], bs_utxos = [], bs_mempool = []\<rparr>"

record 'db database =
  db_put :: "'db \<Rightarrow> string \<Rightarrow> bytes \<Rightarrow> bytes \<Rightarrow> (string + unit) \<times> 'db"
  db_get :: "'db \<Rightarrow> string \<Rightarrow> bytes \<Rightarrow> string + bytes option"
  db_delete :: "'db \<Rightarrow> string \<Rightarrow> bytes \<Rightarrow> (string + unit) \<times> 'db"

text \<open>What a key-value store promises: a successful write is read back, and neither a write nor a deletion
  touches another key.\<close>

definition key_value_store :: "'db database \<Rightarrow> bool" where
  "key_value_store lib \<longleftrightarrow>
     (\<forall>db col k v db'. db_put lib db col k v = (Inr (), db') \<longrightarrow> db_get lib db' col k = Inr (Some v)) \<and>
     (\<forall>db col k v c k'. (c, k') \<noteq> (col, k) \<longrightarrow>
        db_get lib (snd (db_put lib db col k v)) c k' = db_get lib db c k') \<and>
     (\<forall>db col k c k'. (c, k') \<noteq> (col, k) \<longrightarrow>
        db_get lib (snd (db_delete lib db col k)) c k' = db_get lib db c k')"

fun put_all :: "'db database \<Rightarrow> 'db \<Rightarrow> (bytes \<times> bytes) list \<Rightarrow> (string + unit) \<times> 'db" where
  "put_all lib db [] = (Inr (), db)"
| "put_all lib db ((k, v) # kvs) =
     (case db_put lib db ''metadata'' k v of
        (Inl e, db) \<Rightarrow> (Inl e, db)
      | (Inr _, db) \<Rightarrow> put_all lib db kvs)"

definition save_state ::
    "'db database \<Rightarrow> ((string, u128) hmap \<Rightarrow> string + string) \<Rightarrow> 'db \<Rightarrow> ('t, 'o, 'm) chain_info \<Rightarrow>
     (string + unit) \<times> 'db" where
  "save_state lib ser db st =
     (case put_all lib db
         [(as_bytes ''blockchain:block_count'', to_le_bytes (bs_block_count st)),
          (as_bytes ''blockchain:difficulty'', to_le_bytes (bs_difficulty st)),
          (as_bytes ''blockchain:mining_address'', as_bytes (bs_mining_address st))] of
        (Inl e, db) \<Rightarrow> (Inl e, db)
      | (Inr _, db) \<Rightarrow>
          (case ser (bs_balances st) of
             Inl e \<Rightarrow> (Inl e, db)
           | Inr balances_json \<Rightarrow>
               put_all lib db [(as_bytes ''blockchain:balances'', as_bytes balances_json)]))"

text \<open>A number of 8 bytes.\<close>

definition load_u64 :: "'db database \<Rightarrow> 'db \<Rightarrow> string \<Rightarrow> string \<Rightarrow> string \<Rightarrow> string + u64" where
  "load_u64 lib db key missing invalid =
     (case db_get lib db ''metadata'' (as_bytes key) of
        Inl e \<Rightarrow> Inl e
      | Inr None \<Rightarrow> Inl missing
      | Inr (Some bs) \<Rightarrow> if length bs = 8 then Inr (from_le_bytes bs) else Inl invalid)"

definition load_address :: "'db database \<Rightarrow> (bytes \<Rightarrow> string + string) \<Rightarrow> 'db \<Rightarrow> string + string" where
  "load_address lib utf8 db =
     (case db_get lib db ''metadata'' (as_bytes ''blockchain:mining_address'') of
        Inl e \<Rightarrow> Inl e
      | Inr (Some bs) \<Rightarrow> utf8 bs
      | Inr None \<Rightarrow> Inr '''')"

definition load_balances ::
    "'db database \<Rightarrow> (bytes \<Rightarrow> string + string) \<Rightarrow> (string \<Rightarrow> string + (string, u128) hmap) \<Rightarrow> 'db \<Rightarrow>
     (string, u128) hmap" where
  "load_balances lib utf8 de db =
     (case db_get lib db ''metadata'' (as_bytes ''blockchain:balances'') of
        Inr (Some bs) \<Rightarrow>
          (case utf8 bs of
             Inr s \<Rightarrow> (case de s of Inr m \<Rightarrow> m | Inl _ \<Rightarrow> [])
           | Inl _ \<Rightarrow> [])
      | _ \<Rightarrow> [])"

definition load_state ::
    "'db database \<Rightarrow> (bytes \<Rightarrow> string + string) \<Rightarrow> (string \<Rightarrow> string + (string, u128) hmap) \<Rightarrow> 'db \<Rightarrow>
     string + ('t, 'o, 'm) chain_info" where
  "load_state lib utf8 de db =
     (case load_u64 lib db ''blockchain:block_count'' ''No block count found in database''
             ''Invalid block count format'' of
        Inl e \<Rightarrow> Inl e
      | Inr block_count \<Rightarrow>
          (case load_u64 lib db ''blockchain:difficulty'' ''No difficulty found in database''
                  ''Invalid difficulty format'' of
             Inl e \<Rightarrow> Inl e
           | Inr difficulty \<Rightarrow>
               (case load_address lib utf8 db of
                  Inl e \<Rightarrow> Inl e
                | Inr mining_address \<Rightarrow>
                    Inr \<lparr>bs_block_count = block_count, bs_difficulty = difficulty, bs_hashrate = Num 0,
                      bs_mining_enabled = False, bs_mining_address = mining_address,
                      bs_balances = load_balances lib utf8 de db, bs_blocks = [], bs_transactions = [],
                      bs_utxos = [], bs_mempool = []\<rparr>)))"

section \<open>Starting\<close>

text \<open>The maps that are filled in when they are empty.\<close>

definition populate :: "('t, 'o, 'm) chain_info \<Rightarrow> ('t, 'o, 'm) chain_info" where
  "populate st =
     (let block_count = bs_block_count st;
          st = (if bs_blocks st = [] \<and> block_count > 1
                then st\<lparr>bs_blocks := fold (\<lambda>h. hm_insert (of_nat h) default_wallet) [0..<unat block_count] []\<rparr>
                else st)
      in if bs_balances st = [] \<and> block_count > 1
         then st\<lparr>bs_balances := [(default_wallet, 50000000000 * ucast (block_count - 1))]\<rparr>
         else st)"

definition initial_state ::
    "'db database \<Rightarrow> (bytes \<Rightarrow> string + string) \<Rightarrow> (string \<Rightarrow> string + (string, u128) hmap) \<Rightarrow> 'db \<Rightarrow>
     ('t, 'o, 'm) chain_info" where
  "initial_state lib utf8 de db =
     populate (case load_state lib utf8 de db of Inr st \<Rightarrow> st | Inl _ \<Rightarrow> genesis_state)"

section \<open>Requests\<close>

record rpc_request =
  rq_method :: string
  rq_params :: json
  rq_id :: json

record rpc_error =
  re_code :: int
  re_message :: string

record rpc_response =
  rr_jsonrpc :: string
  rr_result :: "json option"
  rr_error :: "rpc_error option"
  rr_id :: json

record ('t, 'o, 'm, 'db, 'c) node_app =
  nd_state :: "('t, 'o, 'm) chain_info"
  nd_shutdown :: bool
  nd_db :: 'db
  nd_channel :: 'c

definition shutting_down :: "rpc_request \<Rightarrow> nat \<times> rpc_response" where
  "shutting_down req = (503, \<lparr>rr_jsonrpc = ''2.0'', rr_result = None,
     rr_error = Some \<lparr>re_code = - 32603, re_message = ''Node is shutting down''\<rparr>, rr_id = rq_id req\<rparr>)"

definition rpc_reply :: "rpc_request \<Rightarrow> rpc_error + json \<Rightarrow> nat \<times> rpc_response" where
  "rpc_reply req result = (200,
     (case result of
        Inr v \<Rightarrow> \<lparr>rr_jsonrpc = ''2.0'', rr_result = Some v, rr_error = None, rr_id = rq_id req\<rparr>
      | Inl e \<Rightarrow> \<lparr>rr_jsonrpc = ''2.0'', rr_result = None, rr_error = Some e, rr_id = rq_id req\<rparr>))"

text \<open>The methods of \<open>silver_core\<close> are the argument \<open>rpc\<close>, which may change the state.\<close>

definition node_handle_rpc ::
    "'db database \<Rightarrow> ((string, u128) hmap \<Rightarrow> string + string) \<Rightarrow> (blockchain_event \<Rightarrow> 'c \<Rightarrow> 'c) \<Rightarrow>
     (string \<Rightarrow> json \<Rightarrow> ('t, 'o, 'm) chain_info \<Rightarrow> (rpc_error + json) \<times> ('t, 'o, 'm) chain_info) \<Rightarrow>
     u64 \<Rightarrow> ('t, 'o, 'm, 'db, 'c) node_app \<Rightarrow> rpc_request \<Rightarrow>
     (nat \<times> rpc_response) \<times> ('t, 'o, 'm, 'db, 'c) node_app" where
  "node_handle_rpc lib ser send rpc now app req =
     (if nd_shutdown app then (shutting_down req, app)
      else
        let (result, st) = rpc (rq_method req) (rq_params req) (nd_state app);
            app = app\<lparr>nd_state := st\<rparr>;
            app = (if rq_method req = ''submitblock'' then
                     let app = app\<lparr>nd_db := snd (save_state lib ser (nd_db app) st)\<rparr>
                     in case result of
                          Inr v \<Rightarrow>
                            (case Option.bind (json_get v ''hash'') as_str of
                               Some block_hash \<Rightarrow>
                                 app\<lparr>nd_channel := broadcast_new_block send (nd_channel app) block_hash
                                   (bs_block_count st) now (bs_mining_address st) 50000000000\<rparr>
                             | None \<Rightarrow> app)
                        | Inl _ \<Rightarrow> app
                   else app)
        in (rpc_reply req result, app))"

section \<open>Shutting down\<close>

definition write_and_check :: "'db database \<Rightarrow> 'db \<Rightarrow> bytes \<Rightarrow> bytes \<Rightarrow> string \<Rightarrow> (string + unit) \<times> 'db" where
  "write_and_check lib db key val failure =
     (case db_put lib db ''metadata'' key val of
        (Inl e, db) \<Rightarrow> (Inl e, db)
      | (Inr _, db) \<Rightarrow>
          (case db_get lib db ''metadata'' key of
             Inl e \<Rightarrow> (Inl e, db)
           | Inr found \<Rightarrow> (if found = Some val then Inr () else Inl failure, db)))"

definition flush_key :: "int \<Rightarrow> bytes" where
  "flush_key now = as_bytes (''__flush_verification_'' @ fmt_int now @ ''__'')"

definition flush_database :: "'db database \<Rightarrow> int \<Rightarrow> 'db \<Rightarrow> (string + unit) \<times> 'db" where
  "flush_database lib now db =
     (case write_and_check lib db (flush_key now) (as_bytes ''flushed'') ''Database flush verification failed'' of
        (Inr _, db) \<Rightarrow> (Inr (), snd (db_delete lib db ''metadata'' (flush_key now)))
      | (Inl e, db) \<Rightarrow> (Inl e, db))"

definition verify_database_integrity :: "'db database \<Rightarrow> 'db \<Rightarrow> (string + unit) \<times> 'db" where
  "verify_database_integrity lib db =
     write_and_check lib db (as_bytes ''__integrity_check__'') (as_bytes ''integrity_verified'')
       ''Database integrity check failed''"

definition request_shutdown :: "('t, 'o, 'm, 'db, 'c) node_app \<Rightarrow> ('t, 'o, 'm, 'db, 'c) node_app" where
  "request_shutdown app = app\<lparr>nd_shutdown := True\<rparr>"

text \<open>The sequence after the server has stopped; the three results are only logged.\<close>

definition node_shutdown ::
    "'db database \<Rightarrow> ((string, u128) hmap \<Rightarrow> string + string) \<Rightarrow> int \<Rightarrow> ('t, 'o, 'm, 'db, 'c) node_app \<Rightarrow>
     ((string + unit) \<times> (string + unit) \<times> (string + unit)) \<times> ('t, 'o, 'm, 'db, 'c) node_app" where
  "node_shutdown lib ser now app =
     (let app = request_shutdown app;
          (saved, db) = save_state lib ser (nd_db app) (nd_state app);
          (flushed, db) = flush_database lib now db;
          (verified, db) = verify_database_integrity lib db
      in ((saved, flushed, verified), app\<lparr>nd_db := db\<rparr>))"

section \<open>The production node\<close>

definition production_handle_rpc ::
    "(string \<Rightarrow> json \<Rightarrow> 's \<Rightarrow> (rpc_error + json) \<times> 's) \<Rightarrow> bool \<Rightarrow> 's \<Rightarrow> rpc_request \<Rightarrow>
     (nat \<times> rpc_response) \<times> 's" where
  "production_handle_rpc rpc shutdown st req =
     (if shutdown then (shutting_down req, st)
      else let (result, st) = rpc (rq_method req) (rq_params req) st in (rpc_reply req result, st))"

definition production_flush :: "'db database \<Rightarrow> 'db \<Rightarrow> (string + unit) \<times> 'db" where
  "production_flush lib db =
     write_and_check lib db (as_bytes ''__shutdown_test__'') (as_bytes ''shutdown_verification'')
       ''Database flush verification failed''"

definition production_verify :: "'db database \<Rightarrow> 'db \<Rightarrow> (string + unit) \<times> 'db" where
  "production_verify lib db =
     write_and_check lib db (as_bytes ''__integrity_check__'') (as_bytes ''integrity_verified'')
       ''Database integrity check failed''"

definition production_shutdown :: "'db database \<Rightarrow> 'db \<Rightarrow> ((string + unit) \<times> (string + unit)) \<times> 'db" where
  "production_shutdown lib db =
     (let (flushed, db) = production_flush lib db;
          (verified, db) = production_verify lib db
      in ((flushed, verified), db))"

section \<open>What the database holds\<close>

lemma get_put_same:
  "key_value_store lib \<Longrightarrow> db_put lib db col k v = (Inr (), db') \<Longrightarrow> db_get lib db' col k = Inr (Some v)"
  unfolding key_value_store_def by blast

lemma get_put_other:
  "key_value_store lib \<Longrightarrow> k' \<noteq> k \<Longrightarrow> db_put lib db col k v = (r, db') \<Longrightarrow> db_get lib db' col k' = db_get lib db col k'"
  unfolding key_value_store_def by (metis prod.inject snd_conv)

lemma get_delete_other:
  "key_value_store lib \<Longrightarrow> k' \<noteq> k \<Longrightarrow> db_get lib (snd (db_delete lib db col k)) col k' = db_get lib db col k'"
  unfolding key_value_store_def by (metis prod.inject)

lemma put_all_other:
  "key_value_store lib \<Longrightarrow> k \<notin> fst ` set kvs \<Longrightarrow> put_all lib db kvs = (r, db') \<Longrightarrow>
   db_get lib db' ''metadata'' k = db_get lib db ''metadata'' k"
proof (induction lib db kvs arbitrary: r db' rule: put_all.induct)
  case (2 lib db k' v kvs)
  obtain s db1 where p: "db_put lib db ''metadata'' k' v = (s, db1)" by fastforce
  have "db_get lib db1 ''metadata'' k = db_get lib db ''metadata'' k"
    using 2(2,3) p by (intro get_put_other) auto
  with 2 p show ?case by (cases s) auto
qed simp

lemma put_all_get:
  assumes "key_value_store lib" and "put_all lib db kvs = (Inr (), db')" and "distinct (map fst kvs)"
    and "(k, v) \<in> set kvs"
  shows "db_get lib db' ''metadata'' k = Inr (Some v)"
  using assms
proof (induction lib db kvs arbitrary: db' rule: put_all.induct)
  case (2 lib db k' v' kvs)
  obtain s db1 where p: "db_put lib db ''metadata'' k' v' = (s, db1)" by fastforce
  with 2(3) have s: "s = Inr ()" "put_all lib db1 kvs = (Inr (), db')" by (cases s; simp)+
  show ?case
  proof (cases "(k, v) = (k', v')")
    case True
    then have "db_get lib db1 ''metadata'' k = Inr (Some v)" using get_put_same 2(2) p s(1) by fastforce
    moreover have "k \<notin> fst ` set kvs" using 2(4) True by auto
    ultimately show ?thesis using put_all_other 2(2) s(2) by metis
  next
    case False
    with 2(1) [OF p [symmetric] s(1)] 2(2,4,5) s(2) show ?thesis by auto
  qed
qed simp

lemma put_all_append:
  "put_all lib db (kvs @ kvs') =
   (case put_all lib db kvs of (Inl e, db1) \<Rightarrow> (Inl e, db1) | (Inr _, db1) \<Rightarrow> put_all lib db1 kvs')"
  by (induction lib db kvs rule: put_all.induct) (auto split: prod.splits sum.splits)

lemma as_bytes_inject: "as_bytes s = as_bytes t \<longleftrightarrow> s = t"
proof -
  have "inj (\<lambda>c :: char. (of_nat (of_char c) :: u8))"
  proof (rule injI)
    fix c d :: char
    assume "(of_nat (of_char c) :: u8) = of_nat (of_char d)"
    then have "of_char c mod 256 = (of_char d mod 256 :: nat)" by (simp add: word_unat_eq_iff unat_of_nat)
    moreover have "of_char c < (256 :: nat)" "of_char d < (256 :: nat)" by simp_all
    ultimately show "c = d" by simp
  qed
  then show ?thesis by (simp add: as_bytes_def inj_map_eq_map)
qed

text \<open>The four entries of a saved state.\<close>

definition saved_entries :: "('t, 'o, 'm) chain_info \<Rightarrow> string \<Rightarrow> (bytes \<times> bytes) list" where
  "saved_entries st balances_json =
     [(as_bytes ''blockchain:block_count'', to_le_bytes (bs_block_count st)),
      (as_bytes ''blockchain:difficulty'', to_le_bytes (bs_difficulty st)),
      (as_bytes ''blockchain:mining_address'', as_bytes (bs_mining_address st)),
      (as_bytes ''blockchain:balances'', as_bytes balances_json)]"

definition holds_state :: "'db database \<Rightarrow> 'db \<Rightarrow> ('t, 'o, 'm) chain_info \<Rightarrow> string \<Rightarrow> bool" where
  "holds_state lib db st balances_json \<longleftrightarrow>
     list_all (\<lambda>(k, v). db_get lib db ''metadata'' k = Inr (Some v)) (saved_entries st balances_json)"

lemma save_state_holds:
  assumes "key_value_store lib" and "save_state lib ser db st = (Inr (), db')" and "ser (bs_balances st) = Inr js"
  shows "holds_state lib db' st js"
proof -
  have e: "saved_entries st js =
      [(as_bytes ''blockchain:block_count'', to_le_bytes (bs_block_count st)),
       (as_bytes ''blockchain:difficulty'', to_le_bytes (bs_difficulty st)),
       (as_bytes ''blockchain:mining_address'', as_bytes (bs_mining_address st))] @
      [(as_bytes ''blockchain:balances'', as_bytes js)]"
    by (simp only: saved_entries_def append.simps)
  have "put_all lib db (saved_entries st js) = save_state lib ser db st"
    unfolding e put_all_append save_state_def assms(3) sum.case ..
  then have "put_all lib db (saved_entries st js) = (Inr (), db')" using assms(2) by simp
  moreover have "distinct (map fst (saved_entries st js))" by (simp add: saved_entries_def as_bytes_inject)
  ultimately show ?thesis using put_all_get [OF assms(1)] by (auto simp: holds_state_def list_all_iff)
qed

text \<open>What a restart gives back of a state: the rest is reset.\<close>

definition reset :: "('t, 'o, 'm) chain_info \<Rightarrow> ('t, 'o, 'm) chain_info" where
  "reset st = st\<lparr>bs_hashrate := Num 0, bs_mining_enabled := False, bs_blocks := [], bs_transactions := [],
     bs_utxos := [], bs_mempool := []\<rparr>"

lemma load_holds:
  assumes "holds_state lib db st js" and "utf8 (as_bytes (bs_mining_address st)) = Inr (bs_mining_address st)"
    and "utf8 (as_bytes js) = Inr js" and "de js = Inr (bs_balances st)"
  shows "load_state lib utf8 de db = Inr (reset st)"
proof -
  have g: "db_get lib db ''metadata'' (as_bytes ''blockchain:block_count'') = Inr (Some (to_le_bytes (bs_block_count st)))"
    "db_get lib db ''metadata'' (as_bytes ''blockchain:difficulty'') = Inr (Some (to_le_bytes (bs_difficulty st)))"
    "db_get lib db ''metadata'' (as_bytes ''blockchain:mining_address'') = Inr (Some (as_bytes (bs_mining_address st)))"
    "db_get lib db ''metadata'' (as_bytes ''blockchain:balances'') = Inr (Some (as_bytes js))"
    using assms(1) unfolding holds_state_def saved_entries_def list.pred_inject prod.case by blast+
  have l: "length (to_le_bytes (w :: u64)) = 8" for w by simp
  have r: "from_le_bytes (to_le_bytes w) = (w :: u64)" for w by (rule from_to_le_bytes) simp
  have "load_state lib utf8 de db =
      Inr \<lparr>bs_block_count = bs_block_count st, bs_difficulty = bs_difficulty st, bs_hashrate = Num 0,
        bs_mining_enabled = False, bs_mining_address = bs_mining_address st, bs_balances = bs_balances st,
        bs_blocks = [], bs_transactions = [], bs_utxos = [], bs_mempool = []\<rparr>"
    unfolding load_state_def load_u64_def load_address_def load_balances_def g sum.case option.case l r assms(2-)
      if_P [OF refl] ..
  then show ?thesis by (cases st) (simp add: reset_def)
qed

lemma write_and_check_other:
  assumes "key_value_store lib" and "k \<noteq> key" and "write_and_check lib db key v f = (r, db')"
  shows "db_get lib db' ''metadata'' k = db_get lib db ''metadata'' k"
proof -
  obtain s db1 where p: "db_put lib db ''metadata'' key v = (s, db1)" by fastforce
  then have "db' = db1" using assms(3) by (auto simp: write_and_check_def split: sum.splits)
  with get_put_other [OF assms(1,2) p] show ?thesis by simp
qed

lemma flush_other:
  assumes "key_value_store lib" and "k \<noteq> flush_key now" and "flush_database lib now db = (r, db')"
  shows "db_get lib db' ''metadata'' k = db_get lib db ''metadata'' k"
proof -
  obtain s db1 where w: "write_and_check lib db (flush_key now) (as_bytes ''flushed'')
      ''Database flush verification failed'' = (s, db1)" by fastforce
  then have "db' = db1 \<or> db' = snd (db_delete lib db1 ''metadata'' (flush_key now))"
    using assms(3) by (auto simp: flush_database_def split: sum.splits)
  with write_and_check_other [OF assms(1,2) w] get_delete_other [OF assms(1,2)] show ?thesis by auto
qed

lemma marker_keys:
  "flush_key now \<notin> fst ` set (saved_entries st js)"
  "as_bytes ''__integrity_check__'' \<notin> fst ` set (saved_entries st js)"
  "as_bytes ''__shutdown_test__'' \<notin> fst ` set (saved_entries st js)"
  by (simp_all add: saved_entries_def flush_key_def as_bytes_inject)

lemma holds_state_frame:
  assumes "holds_state lib db st js"
    and "\<And>k. k \<in> fst ` set (saved_entries st js) \<Longrightarrow> db_get lib db' ''metadata'' k = db_get lib db ''metadata'' k"
  shows "holds_state lib db' st js"
  using assms by (fastforce simp: holds_state_def list_all_iff)

text \<open>How the parser and the printer of \<open>serde_json\<close> and \<open>String::from_utf8\<close> must treat a state for it to be
  saved: the printer gives a text, and the parser reads it back.\<close>

definition printable ::
    "((string, u128) hmap \<Rightarrow> string + string) \<Rightarrow> (string \<Rightarrow> string + (string, u128) hmap) \<Rightarrow>
     (bytes \<Rightarrow> string + string) \<Rightarrow> ('t, 'o, 'm) chain_info \<Rightarrow> bool" where
  "printable ser de utf8 st \<longleftrightarrow>
     (\<exists>js. ser (bs_balances st) = Inr js \<and> de js = Inr (bs_balances st) \<and> utf8 (as_bytes js) = Inr js) \<and>
     utf8 (as_bytes (bs_mining_address st)) = Inr (bs_mining_address st)"

lemma shutdown_holds:
  assumes "key_value_store lib" and "ser (bs_balances (nd_state app)) = Inr js"
    and "node_shutdown lib ser now app = ((Inr (), flushed, verified), app')"
  shows "holds_state lib (nd_db app') (nd_state app) js"
proof -
  obtain db1 where s: "save_state lib ser (nd_db app) (nd_state app) = (Inr (), db1)"
    using assms(3) by (auto simp: node_shutdown_def request_shutdown_def Let_def split: prod.splits)
  obtain r2 db2 where f: "flush_database lib now db1 = (r2, db2)" by fastforce
  obtain r3 db3 where v: "verify_database_integrity lib db2 = (r3, db3)" by fastforce
  have db: "nd_db app' = db3"
    using assms(3) s f v by (auto simp: node_shutdown_def request_shutdown_def Let_def)
  have "holds_state lib db1 (nd_state app) js" by (rule save_state_holds [OF assms(1) s assms(2)])
  then show ?thesis unfolding db
  proof (rule holds_state_frame)
    fix k
    assume "k \<in> fst ` set (saved_entries (nd_state app) js)"
    then have "k \<noteq> flush_key now" "k \<noteq> as_bytes ''__integrity_check__''" using marker_keys by blast+
    then show "db_get lib db3 ''metadata'' k = db_get lib db1 ''metadata'' k"
      using flush_other [OF assms(1) _ f] write_and_check_other [OF assms(1)] v
      unfolding verify_database_integrity_def by metis
  qed
qed

text \<open>A shutdown of the node whose first step saves the state leaves a database from which the next start
  reads the same block count, difficulty, mining address and balances, whatever becomes of the
  flush and of the integrity check; the blocks, transactions, outputs and the mempool are gone, and
  requests are refused from then on without any effect.\<close>

theorem node_restart:
  assumes "key_value_store lib" and "printable ser de utf8 (nd_state app)"
    and "node_shutdown lib ser now app = ((Inr (), flushed, verified), app')"
  shows "load_state lib utf8 de (nd_db app') = Inr (reset (nd_state app)) \<and>
    node_handle_rpc lib ser send rpc clock app' req = (shutting_down req, app')"
proof -
  obtain js where js: "ser (bs_balances (nd_state app)) = Inr js" "de js = Inr (bs_balances (nd_state app))"
    "utf8 (as_bytes js) = Inr js"
    and a: "utf8 (as_bytes (bs_mining_address (nd_state app))) = Inr (bs_mining_address (nd_state app))"
    using assms(2) by (auto simp: printable_def)
  have "load_state lib utf8 de (nd_db app') = Inr (reset (nd_state app))"
    by (rule load_holds [OF shutdown_holds [OF assms(1) js(1) assms(3)]]) (fact a js)+
  moreover have "nd_shutdown app'"
    using assms(3) by (auto simp: node_shutdown_def request_shutdown_def Let_def split: prod.splits)
  ultimately show ?thesis by (simp add: node_handle_rpc_def)
qed

text \<open>C38: What a request leaves behind. The answer and the state in memory are those of the request,
  whether or not saving succeeded: a save that fails is only logged. The node saves after a block
  submission and after no other request. Where the save of a submission succeeded, and the balances and
  the address read back from their text, a node that stops right then and starts again loads the block
  count, the difficulty, the mining address and the balances that the request produced, and nothing
  else of the state: the blocks, the transactions, the unspent outputs and the mempool are not saved,
  and loading leaves them empty.\<close>

theorem submitblock_durable:
  fixes st :: "('t, 'o, 'm) chain_info"
  assumes "key_value_store lib" and "\<not> nd_shutdown app"
    and "node_handle_rpc lib ser send rpc clock app req = (reply, app')"
    and "rpc (rq_method req) (rq_params req) (nd_state app) = (result, st)"
  shows "(reply = rpc_reply req result \<and> nd_state app' = st \<and>
      nd_db app' = (if rq_method req = ''submitblock'' then snd (save_state lib ser (nd_db app) st) else nd_db app)) \<and>
      (rq_method req = ''submitblock'' \<and> printable ser de utf8 st \<and>
      fst (save_state lib ser (nd_db app) st) = Inr () \<longrightarrow>
      (\<exists>loaded. load_state lib utf8 de (nd_db app') = Inr (loaded :: ('t, 'o, 'm) chain_info) \<and>
         bs_block_count loaded = bs_block_count st \<and> bs_difficulty loaded = bs_difficulty st \<and>
         bs_mining_address loaded = bs_mining_address st \<and> bs_balances loaded = bs_balances st \<and>
         bs_blocks loaded = [] \<and> bs_transactions loaded = [] \<and> bs_utxos loaded = [] \<and> bs_mempool loaded = []))"
    (is "?A \<and> ?B")
proof -
  have hA: ?A
    using assms(2-4) by (auto simp: node_handle_rpc_def Let_def split: sum.splits option.splits if_splits)
  have hB: ?B
  proof
    assume *: "rq_method req = ''submitblock'' \<and> printable ser de utf8 st \<and>
      fst (save_state lib ser (nd_db app) st) = Inr ()"
    then obtain js where js: "ser (bs_balances st) = Inr js" "de js = Inr (bs_balances st)" "utf8 (as_bytes js) = Inr js"
      and a: "utf8 (as_bytes (bs_mining_address st)) = Inr (bs_mining_address st)"
      by (auto simp: printable_def)
    have "save_state lib ser (nd_db app) st = (Inr (), nd_db app')" using * hA by (metis prod.collapse)
    from save_state_holds [OF assms(1) this js(1)]
    have "load_state lib utf8 de (nd_db app') = Inr (reset st)" by (rule load_holds) (fact a js)+
    then show "\<exists>loaded. load_state lib utf8 de (nd_db app') = Inr (loaded :: ('t, 'o, 'm) chain_info) \<and>
         bs_block_count loaded = bs_block_count st \<and> bs_difficulty loaded = bs_difficulty st \<and>
         bs_mining_address loaded = bs_mining_address st \<and> bs_balances loaded = bs_balances st \<and>
         bs_blocks loaded = [] \<and> bs_transactions loaded = [] \<and> bs_utxos loaded = [] \<and> bs_mempool loaded = []"
      by (simp add: reset_def)
  qed
  show ?thesis by (rule conjI [OF hA hB])
qed

section \<open>What a restart makes up\<close>

lemma populated_blocks:
  "n < 2 ^ 64 \<Longrightarrow> hm_get (fold (\<lambda>h. hm_insert (of_nat h :: u64) w) [0..<n] []) k =
     (if unat k < n then Some w else None)"
proof (induction n)
  case (Suc n)
  then have "(of_nat n = k) = (unat k = n)" by (auto simp: unat_of_nat)
  with Suc show ?case by (auto simp: hm_get_insert)
qed simp

text \<open>The history of a chain does not survive a restart. The record of who mined the blocks is not saved,
  and when there is more than one block the start makes it up: every block below the count becomes
  one of the built-in wallet, and if there are no balances that wallet is given 50 coins of
  \<open>10 ^ 9\<close> units for all of them but one.\<close>

theorem restart_rewrites_history:
  fixes st restarted :: "('t, 'o, 'm) chain_info"
  assumes "load_state lib utf8 de db = Inr (reset st)" and "1 < bs_block_count st"
    and "restarted = initial_state lib utf8 de db"
  shows "hm_get (bs_blocks restarted) h = (if h < bs_block_count st then Some default_wallet else None) \<and>
    bs_balances restarted = (if bs_balances st = []
       then [(default_wallet, 50000000000 * ucast (bs_block_count st - 1))] else bs_balances st)"
proof -
  have "restarted = populate (reset st)" using assms(1,3) by (simp add: initial_state_def)
  then have "bs_blocks restarted =
      fold (\<lambda>h. hm_insert (of_nat h) default_wallet) [0..<unat (bs_block_count st)] []"
    "bs_balances restarted = (if bs_balances st = []
       then [(default_wallet, 50000000000 * ucast (bs_block_count st - 1))] else bs_balances st)"
    using assms(2) by (simp_all add: populate_def reset_def Let_def)
  moreover have "unat (bs_block_count st) < 2 ^ 64" using unat_lt_pow [of "bs_block_count st"] by simp
  ultimately show ?thesis using populated_blocks [of "unat (bs_block_count st)" default_wallet h]
    by (simp add: word_less_nat_alt)
qed

section \<open>The production node saves nothing\<close>

text \<open>The production node writes nothing to its database but the two markers of the shutdown: whatever
  its requests did to the state, the database gives the same answers for every other key, before
  and after, so that the loader of the other node finds what it would have found.\<close>

theorem production_saves_nothing:
  assumes "key_value_store lib" and "production_shutdown lib db = (r, db')"
  shows "(k \<noteq> as_bytes ''__shutdown_test__'' \<and> k \<noteq> as_bytes ''__integrity_check__'' \<longrightarrow>
      db_get lib db' ''metadata'' k = db_get lib db ''metadata'' k) \<and>
    load_state lib utf8 de db' = load_state lib utf8 de db"
proof -
  obtain r1 db1 where f: "production_flush lib db = (r1, db1)" by fastforce
  then obtain r2 where v: "production_verify lib db1 = (r2, db')"
    using assms(2) by (auto simp: production_shutdown_def split: prod.splits)
  have other: "db_get lib db' ''metadata'' k = db_get lib db ''metadata'' k"
    if "k \<noteq> as_bytes ''__shutdown_test__''" "k \<noteq> as_bytes ''__integrity_check__''" for k
    using write_and_check_other [OF assms(1) that(1) f [unfolded production_flush_def]]
      write_and_check_other [OF assms(1) that(2) v [unfolded production_verify_def]] by simp
  have keys: "db_get lib db' ''metadata'' (as_bytes ''blockchain:block_count'') = db_get lib db ''metadata'' (as_bytes ''blockchain:block_count'')"
    "db_get lib db' ''metadata'' (as_bytes ''blockchain:difficulty'') = db_get lib db ''metadata'' (as_bytes ''blockchain:difficulty'')"
    "db_get lib db' ''metadata'' (as_bytes ''blockchain:mining_address'') = db_get lib db ''metadata'' (as_bytes ''blockchain:mining_address'')"
    "db_get lib db' ''metadata'' (as_bytes ''blockchain:balances'') = db_get lib db ''metadata'' (as_bytes ''blockchain:balances'')"
    by (rule other; simp add: as_bytes_inject)+
  have "load_state lib utf8 de db' = load_state lib utf8 de db"
    unfolding load_state_def load_u64_def load_address_def load_balances_def keys ..
  with other show ?thesis by blast
qed

section \<open>A store\<close>

definition sample_db :: "(string \<times> bytes, bytes) hmap database" where
  "sample_db = \<lparr>db_put = (\<lambda>db c k v. (Inr (), hm_insert (c, k) v db)),
     db_get = (\<lambda>db c k. Inr (hm_get db (c, k))), db_delete = (\<lambda>db c k. (Inr (), hm_remove (c, k) db))\<rparr>"

lemma sample_db_store: "key_value_store sample_db"
  by (auto simp: key_value_store_def sample_db_def hm_get_insert hm_get_remove)

definition sample_utf8 :: "bytes \<Rightarrow> string + string" where
  "sample_utf8 bs = Inr (map (\<lambda>b. char_of (unat b)) bs)"

lemma sample_utf8_bytes: "sample_utf8 (as_bytes s) = Inr s"
proof -
  have "char_of (of_char c mod 256 :: nat) = c" for c :: char by simp
  then show ?thesis by (simp add: sample_utf8_def as_bytes_def comp_def unat_of_nat)
qed

definition sample_state :: "(unit, unit, unit) chain_info" where
  "sample_state = genesis_state\<lparr>bs_block_count := 3, bs_mining_address := ''SLVRa''\<rparr>"

definition sample_app :: "(unit, unit, unit, (string \<times> bytes, bytes) hmap, blockchain_event list) node_app" where
  "sample_app = \<lparr>nd_state = sample_state, nd_shutdown = False, nd_db = [], nd_channel = []\<rparr>"

lemma sample_printable: "printable (\<lambda>_. Inr ''{}'') (\<lambda>_. Inr []) sample_utf8 sample_state"
  by (simp add: printable_def sample_state_def genesis_state_def sample_utf8_bytes)

lemma sample_save: "\<exists>db'. save_state sample_db (\<lambda>_. Inr ''{}'') db st = (Inr (), db')"
  by (simp add: save_state_def sample_db_def)

theorem node_restart_witness:
  "\<exists>app'. snd (node_shutdown sample_db (\<lambda>_. Inr ''{}'') 7 sample_app) = app' \<and>
     load_state sample_db sample_utf8 (\<lambda>_. Inr []) (nd_db app') = Inr (reset sample_state)"
proof -
  obtain db' where s: "save_state sample_db (\<lambda>_. Inr ''{}'') (nd_db sample_app) sample_state = (Inr (), db')"
    using sample_save by blast
  have st: "nd_state sample_app = sample_state" by (simp add: sample_app_def)
  obtain f db2 where f: "flush_database sample_db 7 db' = (f, db2)" by fastforce
  obtain v db3 where v: "verify_database_integrity sample_db db2 = (v, db3)" by fastforce
  obtain app' where sh: "node_shutdown sample_db (\<lambda>_. Inr ''{}'') 7 sample_app = ((Inr (), f, v), app')"
    using s f v by (simp add: node_shutdown_def request_shutdown_def Let_def st)
  from node_restart [OF sample_db_store _ sh] sample_printable sh st show ?thesis by (metis snd_conv)
qed

theorem submitblock_durable_witness:
  "\<exists>reply app'. node_handle_rpc sample_db (\<lambda>_. Inr ''{}'') (\<lambda>e c. c @ [e])
      (\<lambda>m p st. (Inr JNull, sample_state)) 5 sample_app \<lparr>rq_method = ''submitblock'', rq_params = JNull, rq_id = JNull\<rparr> =
      (reply, app') \<and>
    (\<exists>loaded :: (unit, unit, unit) chain_info. load_state sample_db sample_utf8 (\<lambda>_. Inr []) (nd_db app') = Inr loaded \<and>
       bs_block_count loaded = bs_block_count sample_state \<and> bs_balances loaded = bs_balances sample_state)"
proof -
  let ?req = "\<lparr>rq_method = ''submitblock'', rq_params = JNull, rq_id = JNull\<rparr>"
  let ?rpc = "\<lambda>m p st. (Inr JNull, sample_state)"
  obtain reply app' where r: "node_handle_rpc sample_db (\<lambda>_. Inr ''{}'') (\<lambda>e c. c @ [e]) ?rpc 5 sample_app ?req =
      (reply, app')" by fastforce
  have n: "\<not> nd_shutdown sample_app" by (simp add: sample_app_def)
  have "fst (save_state sample_db (\<lambda>_. Inr ''{}'') (nd_db sample_app) sample_state) = Inr ()"
    using sample_save by (metis fst_conv)
  with submitblock_durable [OF sample_db_store n r refl] sample_printable r show ?thesis by fastforce
qed

theorem restart_rewrites_history_witness:
  "\<exists>db. hm_get (bs_blocks (initial_state sample_db sample_utf8 (\<lambda>_. Inr []) db :: (unit, unit, unit) chain_info)) 2 =
     Some default_wallet"
proof -
  obtain db' where s: "save_state sample_db (\<lambda>_. Inr ''{}'') [] sample_state = (Inr (), db')"
    using sample_save by blast
  have h: "holds_state sample_db db' sample_state ''{}''"
    by (rule save_state_holds [OF sample_db_store s]) simp
  have "load_state sample_db sample_utf8 (\<lambda>_. Inr []) db' = Inr (reset sample_state)"
    by (rule load_holds [OF h]) (simp_all add: sample_utf8_bytes, simp add: sample_state_def genesis_state_def)
  moreover have "1 < bs_block_count sample_state" by (simp add: sample_state_def)
  ultimately show ?thesis using restart_rewrites_history [OF _ _ refl, of sample_db sample_utf8 _ db' sample_state 2]
    by (auto simp: sample_state_def)
qed

theorem production_saves_nothing_witness:
  "db_get sample_db (snd (production_shutdown sample_db [])) ''metadata'' (as_bytes ''blockchain:difficulty'') = Inr None"
proof -
  obtain r db' where p: "production_shutdown sample_db [] = (r, db')" by fastforce
  have "db_get sample_db db' ''metadata'' (as_bytes ''blockchain:difficulty'') =
      db_get sample_db [] ''metadata'' (as_bytes ''blockchain:difficulty'')"
    by (rule production_saves_nothing [OF sample_db_store p, THEN conjunct1, rule_format])
       (simp add: as_bytes_inject)
  also have "\<dots> = Inr None" by (simp add: sample_db_def)
  finally show ?thesis by (simp add: p)
qed

end
