(* ===== verification/Node_Life.thy ===== *)
theory Node_Life
  imports Node
begin

text \<open>
  A node process from its start to its end: the rest of \<open>main\<close> and \<open>setup_signal_handlers\<close> of
  \<open>src/bin/node.rs\<close>, and the same parts of \<open>src/bin/node_production.rs\<close>. Opening the database and
  binding the listener are outcomes that are given. What happens to the process while it serves is a
  list: requests, signals and the end of the HTTP server. A signal whose handler could not be
  installed has its default effect, which is to kill the process.
\<close>

section \<open>Serving\<close>

datatype process_event =
    Incoming u64 rpc_request
  | Terminate
  | Interrupt
  | ServerEnds "string + unit"

text \<open>Which of the two handlers \<open>setup_signal_handlers\<close> could install.\<close>

record signal_handlers =
  sh_sigterm :: bool
  sh_sigint :: bool

datatype 'a served = StillServing 'a | Killed 'a | Stopped "string + unit" 'a

definition on_signal :: "bool \<Rightarrow> ('a \<Rightarrow> 'a) \<Rightarrow> 'a \<Rightarrow> 'a served" where
  "on_signal installed shut app = (if installed then Stopped (Inr ()) (shut app) else Killed app)"

text \<open>The \<open>select!\<close> of \<open>main\<close>: the handler of a request, then whichever comes first.\<close>

fun serve ::
    "(u64 \<Rightarrow> rpc_request \<Rightarrow> 'a \<Rightarrow> 'a) \<Rightarrow> ('a \<Rightarrow> 'a) \<Rightarrow> signal_handlers \<Rightarrow> process_event list \<Rightarrow> 'a \<Rightarrow> 'a served" where
  "serve handle shut h [] app = StillServing app"
| "serve handle shut h (Incoming now req # es) app = serve handle shut h es (handle now req app)"
| "serve handle shut h (Terminate # es) app = on_signal (sh_sigterm h) shut app"
| "serve handle shut h (Interrupt # es) app = on_signal (sh_sigint h) shut app"
| "serve handle shut h (ServerEnds r # es) app = Stopped r app"

datatype ('a, 'r) process =
    ExitCode nat
  | MainError string 'a
  | Serving 'a
  | WasKilled 'a
  | Ended "string + unit" 'r 'a

definition run_process ::
    "string + 'db \<Rightarrow> ('db \<Rightarrow> 'a) \<Rightarrow> string + unit \<Rightarrow> ('a \<Rightarrow> 'a served) \<Rightarrow> ('a \<Rightarrow> 'r \<times> 'a) \<Rightarrow> ('a, 'r) process" where
  "run_process opened create bound serving shutdown =
     (case opened of
        Inl e \<Rightarrow> ExitCode 1
      | Inr db \<Rightarrow>
          let app = create db
          in case bound of
               Inl e \<Rightarrow> MainError e app
             | Inr _ \<Rightarrow>
                 (case serving app of
                    StillServing app \<Rightarrow> Serving app
                  | Killed app \<Rightarrow> WasKilled app
                  | Stopped r app \<Rightarrow> let (steps, app) = shutdown app in Ended r steps app))"

section \<open>The node\<close>

definition node_create ::
    "'db database \<Rightarrow> (bytes \<Rightarrow> string + string) \<Rightarrow> (string \<Rightarrow> string + (string, u128) hmap) \<Rightarrow> 'c \<Rightarrow> 'db \<Rightarrow>
     ('t, 'o, 'm, 'db, 'c) node_app" where
  "node_create lib utf8 de channel db =
     \<lparr>nd_state = initial_state lib utf8 de db, nd_shutdown = False, nd_db = db, nd_channel = channel\<rparr>"

definition node_main where
  "node_main lib ser utf8 de send rpc channel opened bound handlers events now =
     run_process opened (node_create lib utf8 de channel) bound
       (serve (\<lambda>clock req app. snd (node_handle_rpc lib ser send rpc clock app req)) request_shutdown handlers events)
       (node_shutdown lib ser now)"

section \<open>The production node\<close>

text \<open>Its \<open>AppState\<close> and the database, which is a local variable of its \<open>main\<close>.\<close>

record ('s, 'db) production_app =
  pa_state :: 's
  pa_shutdown :: bool
  pa_db :: 'db

definition production_create :: "'s \<Rightarrow> 'db \<Rightarrow> ('s, 'db) production_app" where
  "production_create fresh db = \<lparr>pa_state = fresh, pa_shutdown = False, pa_db = db\<rparr>"

definition production_stop :: "'db database \<Rightarrow> ('s, 'db) production_app \<Rightarrow>
    ((string + unit) \<times> (string + unit)) \<times> ('s, 'db) production_app" where
  "production_stop lib app =
     (let (steps, db) = production_shutdown lib (pa_db app)
      in (steps, app\<lparr>pa_shutdown := True, pa_db := db\<rparr>))"

definition production_main where
  "production_main lib rpc fresh opened bound handlers events =
     run_process opened (production_create fresh) bound
       (serve (\<lambda>_ req app. app\<lparr>pa_state := snd (production_handle_rpc rpc (pa_shutdown app) (pa_state app) req)\<rparr>)
         (\<lambda>app. app\<lparr>pa_shutdown := True\<rparr>) handlers events)
       (production_stop lib)"

section \<open>One life after another\<close>

lemma run_process_Ended:
  assumes "run_process opened create bound serving shutdown = Ended r steps app"
  obtains db app0 where "opened = Inr db" "serving (create db) = Stopped r app0" "shutdown app0 = (steps, app)"
  using assms by (auto simp: run_process_def Let_def split: sum.splits served.splits prod.splits)

text \<open>The database of a running node changes with block submissions only.\<close>

lemma handle_keeps_db:
  "rq_method req \<noteq> ''submitblock'' \<Longrightarrow> nd_db (snd (node_handle_rpc lib ser send rpc now app req)) = nd_db app"
  by (simp add: node_handle_rpc_def Let_def split: prod.split)

definition submits :: "process_event \<Rightarrow> bool" where
  "submits e = (case e of Incoming now req \<Rightarrow> rq_method req = ''submitblock'' | _ \<Rightarrow> False)"

lemma serve_keeps_db:
  assumes "\<not> list_ex submits es"
    and "serve (\<lambda>clock req app. snd (node_handle_rpc lib ser send rpc clock app req)) request_shutdown h es app = out"
  shows "case out of StillServing a \<Rightarrow> nd_db a = nd_db app | Killed a \<Rightarrow> nd_db a = nd_db app
    | Stopped r a \<Rightarrow> nd_db a = nd_db app"
  using assms
proof (induction es arbitrary: app)
  case (Cons e es)
  show ?case
  proof (cases e)
    case (Incoming now req)
    then have "nd_db (snd (node_handle_rpc lib ser send rpc now app req)) = nd_db app"
      using Cons.prems(1) by (intro handle_keeps_db) (simp add: submits_def)
    with Cons.IH [of "snd (node_handle_rpc lib ser send rpc now app req)"] Cons.prems Incoming show ?thesis
      by (auto split: served.splits)
  qed (use Cons.prems in \<open>auto simp: on_signal_def request_shutdown_def\<close>)
qed auto

lemma serve_signalled:
  "serve handle shut h es app = Stopped r app' \<Longrightarrow> list_all (\<lambda>e. \<forall>r. e \<noteq> ServerEnds r) es \<Longrightarrow>
    r = Inr () \<and> (sh_sigterm h \<or> sh_sigint h)"
  by (induction handle shut h es app rule: serve.induct) (auto simp: on_signal_def split: if_splits)

text \<open>C14: A node process, from start to end. One that a signal or the end of its HTTP server stops, and
  that saves its state, hands it on: a process started on its database has its block count,
  difficulty, mining address and balances (a mining reward for each block to a built-in wallet where
  there were none), an empty mempool, and answers requests again. One that is killed, because the
  handler of the signal could not be installed, hands on what its own predecessor had left, unless
  it answered a block submission.\<close>

theorem node_lives:
  fixes app :: "('t, 'o, 'm, 'db, 'c) node_app"
  assumes "key_value_store lib"
    and "node_main lib ser utf8 de send rpc channel (Inr db) bound handlers events now = life"
  shows "(life = Ended r (Inr (), flushed, verified) app \<and> printable ser de utf8 (nd_state app) \<longrightarrow>
      node_create lib utf8 de channel' (nd_db app) =
        \<lparr>nd_state = populate (reset (nd_state app)), nd_shutdown = False, nd_db = nd_db app, nd_channel = channel'\<rparr>) \<and>
    (life = WasKilled app \<and> \<not> list_ex submits events \<longrightarrow>
      node_create lib utf8 de channel (nd_db app) =
        (node_create lib utf8 de channel db :: ('t, 'o, 'm, 'db, 'c) node_app)) \<and>
    (life = Ended r (Inr (), flushed, verified) app \<and> list_all (\<lambda>e. \<forall>r. e \<noteq> ServerEnds r) events \<longrightarrow>
      r = Inr () \<and> (sh_sigterm handlers \<or> sh_sigint handlers))"
proof (intro conjI impI; elim conjE)
  let ?serving = "serve (\<lambda>clock req app. snd (node_handle_rpc lib ser send rpc clock app req)) request_shutdown
    handlers events"
  have ended: "\<exists>app0. ?serving (node_create lib utf8 de channel db) = Stopped r app0 \<and>
      node_shutdown lib ser now app0 = ((Inr (), flushed, verified), app)"
    if "life = Ended r (Inr (), flushed, verified) app"
    using assms(2) that unfolding node_main_def by (auto elim!: run_process_Ended)
  show "node_create lib utf8 de channel' (nd_db app) = \<lparr>nd_state = populate (reset (nd_state app)),
      nd_shutdown = False, nd_db = nd_db app, nd_channel = channel'\<rparr>"
    if e: "life = Ended r (Inr (), flushed, verified) app" and p: "printable ser de utf8 (nd_state app)"
  proof -
    obtain app0 where shut: "node_shutdown lib ser now app0 = ((Inr (), flushed, verified), app)"
      using ended [OF e] by blast
    then have "nd_state app0 = nd_state app"
      by (auto simp: node_shutdown_def request_shutdown_def Let_def split: prod.splits)
    with p have "printable ser de utf8 (nd_state app0)" by simp
    from node_restart [OF assms(1) this shut] \<open>nd_state app0 = nd_state app\<close> show ?thesis
      by (simp add: node_create_def initial_state_def)
  qed
  show "node_create lib utf8 de channel (nd_db app) = node_create lib utf8 de channel db"
    if "life = WasKilled app" and quiet: "\<not> list_ex submits events"
  proof -
    have "?serving (node_create lib utf8 de channel db) = Killed app"
      using assms(2) that(1) by (auto simp: node_main_def run_process_def Let_def split: sum.splits served.splits prod.splits)
    from serve_keeps_db [OF quiet this] have "nd_db app = db" by (simp add: node_create_def)
    then show ?thesis by simp
  qed
  show "r = Inr ()"
    if "life = Ended r (Inr (), flushed, verified) app" "list_all (\<lambda>e. \<forall>r. e \<noteq> ServerEnds r) events"
    using ended [OF that(1)] serve_signalled [where h = handlers, OF _ that(2)] by metis
  show "sh_sigterm handlers \<or> sh_sigint handlers"
    if "life = Ended r (Inr (), flushed, verified) app" "list_all (\<lambda>e. \<forall>r. e \<noteq> ServerEnds r) events"
    using ended [OF that(1)] serve_signalled [where h = handlers, OF _ that(2)] by metis
qed

definition set_address_request :: rpc_request where
  "set_address_request = \<lparr>rq_method = ''setminingaddress'', rq_params = JNull, rq_id = JNull\<rparr>"

text \<open>A life in which a request changes the state before the signal arrives.\<close>

theorem node_lives_witness:
  "\<exists>flushed verified (app :: (unit, unit, unit, (string \<times> bytes, bytes) hmap, blockchain_event list) node_app).
     node_main sample_db (\<lambda>_. Inr ''{}'') sample_utf8 (\<lambda>_. Inr []) (\<lambda>e c. c @ [e])
       (\<lambda>m p st. (Inr JNull, sample_state)) [] (Inr []) (Inr ()) \<lparr>sh_sigterm = True, sh_sigint = True\<rparr>
       [Incoming 5 set_address_request, Terminate] 7 = Ended (Inr ()) (Inr (), flushed, verified) app \<and>
     node_create sample_db sample_utf8 (\<lambda>_. Inr []) [] (nd_db app) =
       \<lparr>nd_state = populate (reset sample_state), nd_shutdown = False, nd_db = nd_db app, nd_channel = []\<rparr>"
proof -
  let ?main = "node_main sample_db (\<lambda>_. Inr ''{}'') sample_utf8 (\<lambda>_. Inr []) (\<lambda>e c. c @ [e])
       (\<lambda>m p st. (Inr JNull, sample_state)) [] (Inr []) (Inr ()) \<lparr>sh_sigterm = True, sh_sigint = True\<rparr>
       [Incoming 5 set_address_request, Terminate] 7
     :: ((unit, unit, unit, (string \<times> bytes, bytes) hmap, blockchain_event list) node_app, _) process"
  obtain db' where s: "save_state sample_db (\<lambda>_. Inr ''{}'') [] sample_state = (Inr (), db')"
    using sample_save by blast
  obtain f db2 where f: "flush_database sample_db 7 db' = (f, db2)" by fastforce
  obtain v db3 where v: "verify_database_integrity sample_db db2 = (v, db3)" by fastforce
  have main: "?main = Ended (Inr ()) (Inr (), f, v)
      \<lparr>nd_state = sample_state, nd_shutdown = True, nd_db = db3, nd_channel = []\<rparr>"
    by (simp add: node_main_def run_process_def node_create_def node_handle_rpc_def set_address_request_def
        on_signal_def node_shutdown_def request_shutdown_def s f v Let_def)
  define app :: "(unit, unit, unit, (string \<times> bytes, bytes) hmap, blockchain_event list) node_app"
    where "app = \<lparr>nd_state = sample_state, nd_shutdown = True, nd_db = db3, nd_channel = []\<rparr>"
  have state: "nd_state app = sample_state" by (simp add: app_def)
  note main = main [folded app_def]
  from node_lives [OF sample_db_store main, where r = "Inr ()" and app = app and channel' = "[]"]
  have "node_create sample_db sample_utf8 (\<lambda>_. Inr []) [] (nd_db app) =
      \<lparr>nd_state = populate (reset sample_state), nd_shutdown = False, nd_db = nd_db app, nd_channel = []\<rparr>"
    using sample_printable unfolding state by blast
  with main show ?thesis by blast
qed

end
