(* ===== verification/Example_Pool.thy ===== *)
theory Example_Pool
  imports Json "HOL-Library.Multiset"
begin

text \<open>
  The mining pool of \<open>examples/mining_pool.rs\<close>: \<open>PoolState\<close>, the handling of a connection, and its
  statistics. Instants are nanoseconds; \<open>serde_json::from_str\<close> is the argument \<open>parse\<close>. The pool
  checks its limit under a read lock that it drops before it takes the write lock, so the check
  (\<open>check_room\<close>) and the insertion (\<open>insert_miner\<close>) are steps of their own.
\<close>

section \<open>State\<close>

record miner_info =
  mi_shares :: u64
  mi_accepted :: u64
  mi_rejected :: u64
  mi_connected_at :: nat

record example_pool =
  xp_max_miners :: u64
  xp_fee :: u8
  xp_miners :: "(string, miner_info) hmap"
  xp_total :: u64
  xp_accepted :: u64
  xp_rejected :: u64
  xp_blocks :: u64
  xp_earnings :: u64
  xp_start :: nat

definition new_example_pool :: "nat \<Rightarrow> u64 \<Rightarrow> u64 \<Rightarrow> u8 \<Rightarrow> string \<Rightarrow> example_pool" where
  "new_example_pool now min_share_difficulty max_miners pool_fee pool_address =
     \<lparr>xp_max_miners = max_miners, xp_fee = pool_fee, xp_miners = [], xp_total = 0, xp_accepted = 0,
      xp_rejected = 0, xp_blocks = 0, xp_earnings = 0, xp_start = now\<rparr>"

text \<open>The checks of \<open>main\<close> before the pool is created.\<close>

definition check_pool_args :: "string \<Rightarrow> u8 \<Rightarrow> string + unit" where
  "check_pool_args pool_address pool_fee =
     (if \<not> starts_with pool_address ''SLVR'' then Inl ''Invalid pool address''
      else if pool_fee > 10 then Inl ''Invalid pool fee''
      else Inr ())"

definition check_room :: "example_pool \<Rightarrow> string + unit" where
  "check_room p =
     (if length (xp_miners p) \<ge> unat (xp_max_miners p) then Inl ''Pool is full'' else Inr ())"

definition insert_miner :: "nat \<Rightarrow> string \<Rightarrow> example_pool \<Rightarrow> example_pool" where
  "insert_miner now mid p =
     p\<lparr>xp_miners := hm_insert mid
        \<lparr>mi_shares = 0, mi_accepted = 0, mi_rejected = 0, mi_connected_at = now\<rparr> (xp_miners p)\<rparr>"

definition add_miner :: "nat \<Rightarrow> string \<Rightarrow> example_pool \<Rightarrow> (string + unit) \<times> example_pool" where
  "add_miner now mid p =
     (case check_room p of
        Inl e \<Rightarrow> (Inl e, p)
      | Inr _ \<Rightarrow> (Inr (), insert_miner now mid p))"

definition remove_miner :: "string \<Rightarrow> example_pool \<Rightarrow> example_pool" where
  "remove_miner mid p = p\<lparr>xp_miners := hm_remove mid (xp_miners p)\<rparr>"

text \<open>The totals are atomics, which wrap; the counters of a miner are plain integers.\<close>

definition count_share :: "build \<Rightarrow> bool \<Rightarrow> miner_info \<Rightarrow> miner_info option" where
  "count_share b accepted i = do {
     shares \<leftarrow> add_w b (mi_shares i) 1;
     (if accepted
      then do { a \<leftarrow> add_w b (mi_accepted i) 1; Some (i\<lparr>mi_shares := shares, mi_accepted := a\<rparr>) }
      else do { r \<leftarrow> add_w b (mi_rejected i) 1; Some (i\<lparr>mi_shares := shares, mi_rejected := r\<rparr>) })
   }"

definition count_total :: "bool \<Rightarrow> example_pool \<Rightarrow> example_pool" where
  "count_total accepted p =
     (let p = p\<lparr>xp_total := xp_total p + 1\<rparr>
      in if accepted then p\<lparr>xp_accepted := xp_accepted p + 1\<rparr>
         else p\<lparr>xp_rejected := xp_rejected p + 1\<rparr>)"

definition add_share :: "build \<Rightarrow> string \<Rightarrow> bool \<Rightarrow> example_pool \<Rightarrow> example_pool option" where
  "add_share b mid accepted p =
     (let p = count_total accepted p in
      case hm_get (xp_miners p) mid of
        Some i \<Rightarrow> do {
          i' \<leftarrow> count_share b accepted i;
          Some (p\<lparr>xp_miners := hm_insert mid i' (xp_miners p)\<rparr>)
        }
      | None \<Rightarrow> Some p)"

definition add_block :: "example_pool \<Rightarrow> example_pool" where
  "add_block p = p\<lparr>xp_blocks := xp_blocks p + 1\<rparr>"

definition example_validate_share :: "u64 \<Rightarrow> bool" where
  "example_validate_share nonce \<longleftrightarrow> nonce > 0"

section \<open>Statistics\<close>

definition miner_hashrate :: "nat \<Rightarrow> miner_info \<Rightarrow> f64" where
  "miner_hashrate now i =
     (let uptime = as_secs_f64 (now - mi_connected_at i)
      in if f_lt (Num 0) uptime then f_mul (f_div (f_of_w (mi_shares i)) uptime) (f_of_nat 1000000)
         else Num 0)"

record example_stats =
  xs_connected :: u64
  xs_hashrate :: f64
  xs_accepted :: u64
  xs_rejected :: u64
  xs_blocks :: u64
  xs_earnings :: u128
  xs_fee_collected :: u128
  xs_uptime :: u64

text \<open>\<open>blocking_read\<close> of \<open>tokio\<close> gives the contents of the lock or panics.\<close>

definition example_get_stats ::
    "build \<Rightarrow> ((string, miner_info) hmap \<Rightarrow> (string, miner_info) hmap option) \<Rightarrow> nat \<Rightarrow> example_pool \<Rightarrow>
     example_stats option" where
  "example_get_stats b blocking_read now p = do {
     miners \<leftarrow> blocking_read (xp_miners p);
     fee \<leftarrow> mul_w b (ucast (xp_earnings p) :: u128) (ucast (xp_fee p));
     Some \<lparr>xs_connected = of_nat (length miners),
       xs_hashrate = foldl f_add (Num 0) (map (miner_hashrate now) (hm_values miners)),
       xs_accepted = xp_accepted p, xs_rejected = xp_rejected p, xs_blocks = xp_blocks p,
       xs_earnings = ucast (xp_earnings p), xs_fee_collected = fee div 100,
       xs_uptime = of_nat ((now - xp_start p) div 10 ^ 9)\<rparr>
   }"

section \<open>A connection\<close>

record example_conn =
  xc_miner_id :: string
  xc_authorized :: bool

definition new_example_conn :: example_conn where
  "new_example_conn = \<lparr>xc_miner_id = '''', xc_authorized = False\<rparr>"

definition example_authorize ::
    "nat \<Rightarrow> example_conn \<Rightarrow> example_pool \<Rightarrow> json \<Rightarrow> json \<Rightarrow> json \<times> example_conn \<times> example_pool" where
  "example_authorize now c p i request =
     (case as_array (json_index request ''params'') of
        Some params \<Rightarrow>
          if length params \<ge> 1 then
            let mid = (case as_str (params ! 0) of Some s \<Rightarrow> s | None \<Rightarrow> ''unknown'');
                c = c\<lparr>xc_miner_id := mid\<rparr>
            in case add_miner now mid p of
                 (Inr _, p') \<Rightarrow> (response i (JBool True) JNull, c\<lparr>xc_authorized := True\<rparr>, p')
               | (Inl e, p') \<Rightarrow> (response i (JBool False) (JStr e), c, p')
          else (response i (JBool False) (JStr ''Invalid parameters''), c, p)
      | None \<Rightarrow> (response i (JBool False) (JStr ''Invalid parameters''), c, p))"

definition example_submit ::
    "build \<Rightarrow> example_conn \<Rightarrow> example_pool \<Rightarrow> json \<Rightarrow> json \<Rightarrow> (json \<times> example_pool) option" where
  "example_submit b c p i request =
     (if xc_authorized c then
        case as_array (json_index request ''params'') of
          Some params \<Rightarrow>
            if length params \<ge> 5 then
              let nonce = (case as_str (params ! 4) of Some s \<Rightarrow> s | None \<Rightarrow> ''0'');
                  nonce_val = (case parse_u64 16 nonce of Some n \<Rightarrow> n | None \<Rightarrow> 0);
                  is_valid = example_validate_share nonce_val
              in do {
                p \<leftarrow> add_share b (xc_miner_id c) is_valid p;
                Some (response i (JBool is_valid) JNull, if is_valid then add_block p else p)
              }
            else Some (response i (JBool False) (JStr ''Invalid parameters''), p)
        | None \<Rightarrow> Some (response i (JBool False) (JStr ''Invalid parameters''), p)
      else Some (response i (JBool False) (JStr ''Not authorized''), p))"

definition example_request ::
    "build \<Rightarrow> nat \<Rightarrow> example_conn \<Rightarrow> example_pool \<Rightarrow> json \<Rightarrow> (json \<times> example_conn \<times> example_pool) option" where
  "example_request b now c p request =
     (let meth = (case as_str (json_index request ''method'') of Some s \<Rightarrow> s | None \<Rightarrow> '''');
          i = json_index request ''id''
      in if meth = ''mining.subscribe'' then
           Some (response i (JArr [JArr [JStr ''mining.notify'', JStr ''subscription_id_1''],
                                   JArr [JStr ''mining.set_difficulty'', JStr ''subscription_id_2'']]) JNull, c, p)
         else if meth = ''mining.authorize'' then Some (example_authorize now c p i request)
         else if meth = ''mining.submit'' then do {
           (resp, p) \<leftarrow> example_submit b c p i request;
           Some (resp, c, p)
         }
         else Some (response i JNull (JStr ''Unknown method''), c, p))"

text \<open>What \<open>read_line\<close> yields. The result says whether the loop goes on: it ends when the peer has closed
  the connection, when reading fails, and when the answer cannot be written (\<open>writable\<close>); only in the
  first case is the miner removed.\<close>

datatype conn_read = PeerClosed | LineRead string | ReadFailed

definition example_round ::
    "build \<Rightarrow> (string \<Rightarrow> string + json) \<Rightarrow> nat \<Rightarrow> bool \<Rightarrow> conn_read \<Rightarrow> example_conn \<Rightarrow> example_pool \<Rightarrow>
     (json option \<times> bool \<times> example_conn \<times> example_pool) option" where
  "example_round b parse now writable r c p =
     (case r of
        PeerClosed \<Rightarrow>
          Some (None, False, c, if xc_miner_id c \<noteq> [] then remove_miner (xc_miner_id c) p else p)
      | LineRead line \<Rightarrow>
          (case parse line of
             Inr request \<Rightarrow> do {
               (resp, c, p) \<leftarrow> example_request b now c p request;
               Some (Some resp, writable, c, p)
             }
           | Inl _ \<Rightarrow> Some (None, True, c, p))
      | ReadFailed \<Rightarrow> Some (None, False, c, p))"

text \<open>The rounds of a connection, each with what is read and whether the answer can be written. The last
  component says whether the loop has ended.\<close>

definition answers :: "bool \<Rightarrow> json option \<Rightarrow> json list" where
  "answers writable resp = (case resp of Some j \<Rightarrow> if writable then [j] else [] | None \<Rightarrow> [])"

fun example_session ::
    "build \<Rightarrow> (string \<Rightarrow> string + json) \<Rightarrow> nat \<Rightarrow> (bool \<times> conn_read) list \<Rightarrow> example_conn \<Rightarrow> example_pool \<Rightarrow>
     (json list \<times> example_conn \<times> example_pool \<times> bool) option" where
  "example_session b parse now [] c p = Some ([], c, p, False)"
| "example_session b parse now ((writable, r) # rs) c p =
     (case example_round b parse now writable r c p of
        Some (resp, True, c, p) \<Rightarrow>
          (case example_session b parse now rs c p of
             Some (resps, c, p, ended) \<Rightarrow> Some (answers writable resp @ resps, c, p, ended)
           | None \<Rightarrow> None)
      | Some (resp, False, c, p) \<Rightarrow> Some (answers writable resp, c, p, True)
      | None \<Rightarrow> None)"

section \<open>The limit on miners under concurrent authorizations\<close>

text \<open>What the connections do to the pool. The second component holds the names that have been checked
  and not yet inserted, at most \<open>k\<close> of them at a time.\<close>

inductive example_step ::
    "build \<Rightarrow> nat \<Rightarrow> example_pool \<times> string multiset \<Rightarrow> example_pool \<times> string multiset \<Rightarrow> bool" for b k where
  check: "check_room p = Inr () \<Longrightarrow> size w < k \<Longrightarrow> example_step b k (p, w) (p, add_mset mid w)"
| insert: "mid \<in># w \<Longrightarrow> example_step b k (p, w) (insert_miner now mid p, w - {#mid#})"
| remove: "example_step b k (p, w) (remove_miner mid p, w)"
| share: "add_share b mid v p = Some p' \<Longrightarrow>
    example_step b k (p, w) (if v then add_block p' else p', w)"

definition miner_balanced :: "miner_info \<Rightarrow> bool" where
  "miner_balanced i \<longleftrightarrow> mi_shares i = mi_accepted i + mi_rejected i"

definition example_invariant :: "nat \<Rightarrow> u64 \<Rightarrow> example_pool \<times> string multiset \<Rightarrow> bool" where
  "example_invariant k mx s \<longleftrightarrow>
     (case s of (p, w) \<Rightarrow>
        xp_max_miners p = mx \<and> hm_invar (xp_miners p) \<and>
        length (xp_miners p) + size w < unat mx + k \<and>
        xp_total p = xp_accepted p + xp_rejected p \<and> xp_blocks p = xp_accepted p \<and> xp_earnings p = 0 \<and>
        list_all miner_balanced (hm_values (xp_miners p)))"

lemma length_insert_miner:
  "hm_invar (xp_miners p) \<Longrightarrow> length (xp_miners (insert_miner now mid p)) =
     (if hm_contains (xp_miners p) mid then length (xp_miners p) else Suc (length (xp_miners p)))"
  by (simp add: insert_miner_def hm.length_insert)

lemma values_insert: "list_all P (hm_values m) \<Longrightarrow> P v \<Longrightarrow> list_all P (hm_values (hm_insert k v m))"
  by (induction m) auto

lemma values_remove: "list_all P (hm_values m) \<Longrightarrow> list_all P (hm_values (hm_remove k m))"
  by (induction m) auto

lemma count_share_counts:
  "count_share b v i = Some i' \<Longrightarrow> miner_balanced i \<Longrightarrow> miner_balanced i'"
  by (auto simp: count_share_def miner_balanced_def bind_eq_Some_conv dest!: add_w_Some split: if_splits)

lemma add_share_cases:
  assumes "add_share b mid v p = Some p'"
  obtains (unknown) "p' = count_total v p"
  | (known) i i' where "hm_get (xp_miners p) mid = Some i" "count_share b v i = Some i'"
      "p' = (count_total v p)\<lparr>xp_miners := hm_insert mid i' (xp_miners p)\<rparr>"
proof -
  have m: "xp_miners (count_total v p) = xp_miners p" by (simp add: count_total_def Let_def)
  show ?thesis
  proof (cases "hm_get (xp_miners p) mid")
    case None
    with assms m have "p' = count_total v p" by (simp add: add_share_def Let_def)
    then show ?thesis by (rule unknown)
  next
    case (Some i)
    with assms m show ?thesis
      by (auto simp: add_share_def Let_def bind_eq_Some_conv intro: known)
  qed
qed

lemma count_total_fields [simp]:
  "xp_miners (count_total v p) = xp_miners p" "xp_max_miners (count_total v p) = xp_max_miners p"
  "xp_total (count_total v p) = xp_total p + 1" "xp_blocks (count_total v p) = xp_blocks p"
  "xp_earnings (count_total v p) = xp_earnings p"
  "xp_accepted (count_total v p) = xp_accepted p + (if v then 1 else 0)"
  "xp_rejected (count_total v p) = xp_rejected p + (if v then 0 else 1)"
  by (simp_all add: count_total_def Let_def)

lemma example_invariant_step:
  assumes "example_step b k s s'" and "example_invariant k mx s"
  shows "example_invariant k mx s'"
  using assms
proof cases
  case (check p w mid)
  then show ?thesis using assms(2) by (auto simp: example_invariant_def check_room_def split: if_splits)
next
  case (insert mid w p now)
  then have "size w = Suc (size (w - {#mid#}))" by (metis insert_DiffM size_add_mset)
  moreover have "length (xp_miners (insert_miner now mid p)) \<le> Suc (length (xp_miners p))"
    using assms(2) insert by (simp add: length_insert_miner example_invariant_def)
  ultimately show ?thesis using assms(2) insert
    by (auto simp: example_invariant_def insert_miner_def miner_balanced_def intro: values_insert)
next
  case (remove p w mid)
  then show ?thesis using assms(2) hm.length_remove_le [of "xp_miners p" mid]
    by (auto simp: example_invariant_def remove_miner_def intro: values_remove)
next
  case (share mid v p p' w)
  have i: "example_invariant k mx (p, w)" using assms(2) share(1) by simp
  from share(3) show ?thesis
  proof (cases rule: add_share_cases)
    case unknown
    with i share(2) show ?thesis by (auto simp: example_invariant_def add_block_def algebra_simps)
  next
    case (known j j')
    have "list_all miner_balanced (hm_values (xp_miners p))" using i by (simp add: example_invariant_def)
    moreover from this have "miner_balanced j"
      using hm_values_in [OF known(1)] by (simp add: list_all_iff del: set_map)
    ultimately have "list_all miner_balanced (hm_values (hm_insert mid j' (xp_miners p)))"
      using known(2) by (blast intro: values_insert count_share_counts)
    moreover have "length (hm_insert mid j' (xp_miners p)) = length (xp_miners p)"
      using i known(1) by (simp add: example_invariant_def hm.length_insert)
    ultimately show ?thesis using i share(2) known
      by (auto simp: example_invariant_def add_block_def algebra_simps)
  qed
qed

lemma example_invariant_reachable:
  assumes "(example_step b k)\<^sup>*\<^sup>* (new_example_pool now d mx fee addr, {#}) s" and "0 < k"
  shows "example_invariant k mx s"
  using assms(1)
proof (induction rule: rtranclp_induct)
  case base
  then show ?case using assms(2) by (simp add: example_invariant_def new_example_pool_def)
next
  case (step s s')
  then show ?case by (blast intro: example_invariant_step)
qed

lemma insert_miners_fields:
  assumes "hm_invar (xp_miners p)" and "distinct ns" and "list_all (\<lambda>n. \<not> hm_contains (xp_miners p) n) ns"
  shows "length (xp_miners (fold (insert_miner now) ns p)) = length (xp_miners p) + length ns \<and>
    xp_max_miners (fold (insert_miner now) ns p) = xp_max_miners p \<and>
    hm_invar (xp_miners (fold (insert_miner now) ns p)) \<and>
    dom (hm_get (xp_miners (fold (insert_miner now) ns p))) = dom (hm_get (xp_miners p)) \<union> set ns"
  using assms
proof (induction ns arbitrary: p)
  case (Cons n ns)
  let ?p = "insert_miner now n p"
  have "length (xp_miners ?p) = Suc (length (xp_miners p))" using Cons by (simp add: length_insert_miner)
  moreover have "hm_invar (xp_miners ?p)" "xp_max_miners ?p = xp_max_miners p"
    "dom (hm_get (xp_miners ?p)) = insert n (dom (hm_get (xp_miners p)))"
    using Cons by (simp_all add: insert_miner_def hm_get_insert)
  moreover have "list_all (\<lambda>n. \<not> hm_contains (xp_miners ?p) n) ns"
    using Cons by (auto simp: list_all_iff insert_miner_def hm_get_insert)
  ultimately show ?case using Cons.IH [of ?p] Cons.prems by auto
qed simp

lemma reach_checks:
  "check_room p = Inr () \<Longrightarrow> size w + length ns \<le> k \<Longrightarrow>
   (example_step b k)\<^sup>*\<^sup>* (p, w) (p, w + mset ns)"
proof (induction ns arbitrary: w)
  case (Cons n ns)
  then have "example_step b k (p, w) (p, add_mset n w)" by (intro check) simp_all
  moreover have "(example_step b k)\<^sup>*\<^sup>* (p, add_mset n w) (p, add_mset n w + mset ns)"
    using Cons.IH [of "add_mset n w"] Cons.prems by simp
  ultimately show ?case by (simp add: converse_rtranclp_into_rtranclp)
qed simp

lemma reach_inserts: "(example_step b k)\<^sup>*\<^sup>* (p, mset ns) (fold (insert_miner now) ns p, {#})"
proof (induction ns arbitrary: p)
  case (Cons n ns)
  have "example_step b k (p, mset (n # ns)) (insert_miner now n p, mset ns)"
    using insert [of n "mset (n # ns)"] by simp
  then show ?case using Cons.IH [of "insert_miner now n p"] by (simp add: converse_rtranclp_into_rtranclp)
qed simp

lemma reach_sequence:
  assumes "0 < k" and "hm_invar (xp_miners p)" and "distinct ns"
    and "list_all (\<lambda>n. \<not> hm_contains (xp_miners p) n) ns" and "length (xp_miners p) + length ns \<le> unat (xp_max_miners p)"
  shows "(example_step b k)\<^sup>*\<^sup>* (p, {#}) (fold (insert_miner now) ns p, {#})"
  using assms(2-)
proof (induction ns rule: rev_induct)
  case (snoc n ns)
  let ?q = "fold (insert_miner now) ns p"
  have "(example_step b k)\<^sup>*\<^sup>* (p, {#}) (?q, {#})" using snoc by simp
  moreover have "check_room ?q = Inr ()"
    using insert_miners_fields [of p ns now] snoc.prems by (simp add: check_room_def)
  then have "(example_step b k)\<^sup>*\<^sup>* (?q, {#}) (?q, mset [n])"
    using reach_checks [of ?q "{#}" "[n]" k b] assms(1) by simp
  moreover have "(example_step b k)\<^sup>*\<^sup>* (?q, mset [n]) (insert_miner now n ?q, {#})"
    using reach_inserts [of b k ?q "[n]" now] by simp
  ultimately show ?case by simp
qed simp

lemma names_fresh: "distinct (map fmt_nat [0..<n])"
  by (simp add: distinct_map inj_on_def fmt_nat_inject)

text \<open>C39: The limit on miners holds for one authorization at a time, and fails by exactly the number of
  concurrent ones: while at most \<open>k\<close> authorizations are between their check and their insertion, the
  pool never has more than \<open>max_miners + k - 1\<close> miners, and it can have that many.\<close>

theorem example_pool_limit:
  assumes "0 < k" and "0 < mx"
  shows "(\<forall>p w. (example_step b k)\<^sup>*\<^sup>* (new_example_pool now d mx fee addr, {#}) (p, w) \<longrightarrow>
            length (xp_miners p) + size w < unat mx + k) \<and>
    (\<exists>p. (example_step b k)\<^sup>*\<^sup>* (new_example_pool now d mx fee addr, {#}) (p, {#}) \<and>
         length (xp_miners p) = unat mx + k - 1)"
proof
  show "\<forall>p w. (example_step b k)\<^sup>*\<^sup>* (new_example_pool now d mx fee addr, {#}) (p, w) \<longrightarrow>
            length (xp_miners p) + size w < unat mx + k"
    using example_invariant_reachable assms(1) by (fastforce simp: example_invariant_def)
next
  let ?p = "new_example_pool now d mx fee addr"
  define n where "n = unat mx - 1"
  have n: "Suc n = unat mx" using assms(2) by (simp add: n_def unat_gt_0)
  define ns where "ns = map fmt_nat [0..<n + k]"
  have d: "distinct (take n ns @ drop n ns)" by (simp add: ns_def names_fresh del: map_append)
  let ?q = "fold (insert_miner now) (take n ns) ?p"
  let ?r = "fold (insert_miner now) (drop n ns) ?q"
  have p: "xp_miners ?p = []" "xp_max_miners ?p = mx" by (simp_all add: new_example_pool_def)
  have q: "length (xp_miners ?q) = n" "xp_max_miners ?q = mx" "hm_invar (xp_miners ?q)"
    "dom (hm_get (xp_miners ?q)) = set (take n ns)"
    using insert_miners_fields [of ?p "take n ns" now] d p by (simp_all add: list_all_iff ns_def)
  have fresh: "list_all (\<lambda>m. \<not> hm_contains (xp_miners ?q) m) (drop n ns)"
    using d q(4) by (auto simp: list_all_iff simp del: append_take_drop_id)
  have "(example_step b k)\<^sup>*\<^sup>* (?p, {#}) (?q, {#})"
    using d p n assms(1) by (intro reach_sequence) (auto simp: list_all_iff ns_def)
  moreover have "(example_step b k)\<^sup>*\<^sup>* (?q, {#}) (?q, mset (drop n ns))"
    using reach_checks [of ?q "{#}" "drop n ns" k b] q n by (simp add: check_room_def ns_def)
  moreover have "(example_step b k)\<^sup>*\<^sup>* (?q, mset (drop n ns)) (?r, {#})" by (rule reach_inserts)
  moreover have "length (xp_miners ?r) = unat mx + k - 1"
    using insert_miners_fields [of ?q "drop n ns" now] d q fresh n by (simp add: ns_def)
  ultimately show "\<exists>p. (example_step b k)\<^sup>*\<^sup>* (?p, {#}) (p, {#}) \<and> length (xp_miners p) = unat mx + k - 1"
    by (meson rtranclp_trans)
qed

theorem example_pool_limit_witness:
  "\<exists>p. (example_step Debug 3)\<^sup>*\<^sup>* (new_example_pool 0 1000 1 1 ''SLVR'', {#}) (p, {#}) \<and>
       length (xp_miners p) = 3"
  using example_pool_limit [of 3 1 Debug 0 1000 1 "''SLVR''"] by simp

text \<open>The books of the example pool in every reachable state: every share is accepted or rejected, in
  total and for every miner; every accepted share has been counted as a block; and nothing is ever
  earned, so the fee that the statistics report is zero.\<close>

theorem example_pool_books:
  assumes "(example_step b k)\<^sup>*\<^sup>* (new_example_pool now d mx fee addr, {#}) (p, w)" and "0 < k"
  shows "xp_total p = xp_accepted p + xp_rejected p \<and> xp_blocks p = xp_accepted p \<and>
    list_all miner_balanced (hm_values (xp_miners p)) \<and>
    map_option xs_fee_collected (example_get_stats b Some later p) = Some 0"
proof -
  have "example_invariant k mx (p, w)" using example_invariant_reachable [OF assms] .
  then show ?thesis by (simp add: example_invariant_def example_get_stats_def mul_w_def split: build.splits)
qed

lemma share_step:
  "add_share b mid True p = Some p' \<Longrightarrow> (example_step b k)\<^sup>*\<^sup>* (p, w) (add_block p', w)"
  using share [of b mid True p p' k w] by auto

theorem example_pool_books_witness:
  "xp_blocks (add_block (count_total True (new_example_pool 0 1000 1 1 ''SLVR''))) = 1 \<and>
   map_option xs_fee_collected (example_get_stats Debug Some 5
     (add_block (count_total True (new_example_pool 0 1000 1 1 ''SLVR'')))) = Some 0"
proof -
  have "add_share Debug ''a'' True (new_example_pool 0 1000 1 1 ''SLVR'') =
      Some (count_total True (new_example_pool 0 1000 1 1 ''SLVR''))"
    by (simp add: add_share_def Let_def new_example_pool_def)
  from share_step [OF this] show ?thesis
    using example_pool_books [of Debug 1 0 1000 1 1 "''SLVR''" _ "{#}" 5]
    by (simp add: add_block_def new_example_pool_def)
qed

section \<open>What a connection leaves behind\<close>

definition authorize_as :: "string \<Rightarrow> json" where
  "authorize_as mid =
     JObj [(''id'', JPos 1), (''method'', JStr ''mining.authorize''), (''params'', JArr [JStr mid])]"

lemma authorize_as_parts:
  "as_str (json_index (authorize_as mid) ''method'') = Some ''mining.authorize''"
  "json_index (authorize_as mid) ''id'' = JPos 1"
  "as_array (json_index (authorize_as mid) ''params'') = Some [JStr mid]"
  by (simp_all add: authorize_as_def json_index_def json_get_def as_str_def as_array_def)

lemma authorize_round:
  assumes "parse line = Inr (authorize_as mid)"
  shows "example_round b parse now True (LineRead line) c p =
    (case add_miner now mid p of
       (Inr _, p') \<Rightarrow> Some (Some (response (JPos 1) (JBool True) JNull), True,
         \<lparr>xc_miner_id = mid, xc_authorized = True\<rparr>, p')
     | (Inl e, p') \<Rightarrow> Some (Some (response (JPos 1) (JBool False) (JStr e)), True, c\<lparr>xc_miner_id := mid\<rparr>, p'))"
  using assms
  by (simp add: example_round_def example_request_def example_authorize_def authorize_as_parts
      as_str_def [of "JStr mid"] split: prod.splits sum.splits)

lemma session_append:
  assumes "example_session b parse now rs c p = Some (out, c', p', False)"
  shows "example_session b parse now (rs @ rs') c p =
    (case example_session b parse now rs' c' p' of
       Some (out', c'', p'', ended) \<Rightarrow> Some (out @ out', c'', p'', ended) | None \<Rightarrow> None)"
  using assms
proof (induction rs arbitrary: c p out)
  case (Cons x rs)
  obtain w r where x: "x = (w, r)" by fastforce
  obtain resp c1 p1 out1 where
    first: "example_round b parse now w r c p = Some (resp, True, c1, p1)"
    and rest: "example_session b parse now rs c1 p1 = Some (out1, c', p', False)"
    and out: "out = answers w resp @ out1"
    using Cons.prems by (auto simp: x split: option.splits prod.splits bool.splits)
  from Cons.IH [OF rest] show ?case
    by (simp add: x first out split: option.splits prod.splits)
qed (auto split: option.splits)

lemma authorize_session:
  assumes "hm_invar (xp_miners p)" and "distinct ns" and "list_all (\<lambda>n. \<not> hm_contains (xp_miners p) n) ns"
    and "length (xp_miners p) + length ns \<le> unat (xp_max_miners p)"
    and "list_all (\<lambda>n. parse (line n) = Inr (authorize_as n)) ns"
  shows "example_session b parse now (map (\<lambda>n. (True, LineRead (line n))) ns) c p =
    Some (replicate (length ns) (response (JPos 1) (JBool True) JNull),
      if ns = [] then c else \<lparr>xc_miner_id = last ns, xc_authorized = True\<rparr>, fold (insert_miner now) ns p, False)"
  using assms(2-)
proof (induction ns rule: rev_induct)
  case (snoc n ns)
  let ?p = "fold (insert_miner now) ns p"
  let ?c = "if ns = [] then c else \<lparr>xc_miner_id = last ns, xc_authorized = True\<rparr>"
  have "check_room ?p = Inr ()"
    using insert_miners_fields [of p ns now] snoc.prems assms(1) by (simp add: check_room_def)
  then have "example_session b parse now [(True, LineRead (line n))] ?c ?p =
      Some ([response (JPos 1) (JBool True) JNull], \<lparr>xc_miner_id = n, xc_authorized = True\<rparr>, insert_miner now n ?p, False)"
    using snoc.prems by (simp add: authorize_round answers_def add_miner_def)
  moreover have "example_session b parse now (map (\<lambda>n. (True, LineRead (line n))) ns) c p =
      Some (replicate (length ns) (response (JPos 1) (JBool True) JNull), ?c, ?p, False)"
    using snoc by simp
  ultimately show ?case by (simp add: session_append replicate_append_same del: example_session.simps)
qed simp

text \<open>One connection can fill the pool for good. It may authorize again and again; every name it gives is
  inserted, but only the last one is removed when the peer closes the connection, and none at all
  when reading fails. After as many names as the limit allows and a failed read, every later
  authorization is refused although nobody is connected.\<close>

theorem one_connection_fills_pool:
  assumes "distinct ns" and "length ns = unat mx" and "ns \<noteq> []" and "last ns \<noteq> []"
    and "list_all (\<lambda>n. parse (line n) = Inr (authorize_as n)) ns"
    and "p0 = new_example_pool now d mx fee addr" and "reads = map (\<lambda>n. (True, LineRead (line n))) ns"
  shows "\<exists>out c p p'.
    example_session b parse now (reads @ [(True, ReadFailed)]) new_example_conn p0 = Some (out, c, p, True) \<and>
    example_session b parse now (reads @ [(True, PeerClosed)]) new_example_conn p0 = Some (out, c, p', True) \<and>
    dom (hm_get (xp_miners p)) = set ns \<and> dom (hm_get (xp_miners p')) = set ns - {last ns} \<and>
    (\<forall>later mid. add_miner later mid p = (Inl ''Pool is full'', p))"
proof -
  let ?p = "fold (insert_miner now) ns p0"
  have p0: "xp_miners p0 = []" "xp_max_miners p0 = mx" using assms(6) by (simp_all add: new_example_pool_def)
  have "example_session b parse now reads new_example_conn p0 =
      Some (replicate (length ns) (response (JPos 1) (JBool True) JNull),
        \<lparr>xc_miner_id = last ns, xc_authorized = True\<rparr>, ?p, False)"
    using authorize_session [of p0 ns parse line b now new_example_conn] assms p0 by (simp add: list_all_iff)
  moreover have "length (xp_miners ?p) = unat mx" "xp_max_miners ?p = mx" "dom (hm_get (xp_miners ?p)) = set ns"
    using insert_miners_fields [of p0 ns now] assms p0 by (simp_all add: list_all_iff)
  moreover have "add_miner later mid ?p = (Inl ''Pool is full'', ?p)" for later mid
    using calculation by (simp add: add_miner_def check_room_def)
  ultimately show ?thesis using assms(4)
    by (simp add: session_append answers_def example_round_def remove_miner_def hm_get_remove)
qed

theorem one_connection_fills_pool_witness:
  "\<exists>out c p. example_session Debug (\<lambda>s. Inr (authorize_as s)) 0
     [(True, LineRead ''a''), (True, LineRead ''b''), (True, ReadFailed)] new_example_conn
     (new_example_pool 0 1000 2 1 ''SLVR'') = Some (out, c, p, True) \<and>
     add_miner 7 ''c'' p = (Inl ''Pool is full'', p)"
  using one_connection_fills_pool [OF _ _ _ _ _ refl refl, of "[''a'', ''b'']" 2 "\<lambda>s. Inr (authorize_as s)"
      "\<lambda>s. s" Debug 0 1000 1 "''SLVR''"] by fastforce

text \<open>A refused authorization still sets the name of the connection: when the connection is closed, the miner
  of that name is removed, whoever it belongs to.\<close>

lemma refused_connection_evicts:
  assumes "check_room p = Inl e" and "mid \<noteq> []" and "parse line = Inr (authorize_as mid)"
  shows "\<exists>c'. example_session b parse now [(True, LineRead line), (True, PeerClosed)] c p =
      Some ([response (JPos 1) (JBool False) (JStr e)], c', remove_miner mid p, True) \<and>
    xc_authorized c' = xc_authorized c \<and> \<not> hm_contains (xp_miners (remove_miner mid p)) mid"
  using assms by (simp add: authorize_round answers_def add_miner_def example_round_def [where r = PeerClosed] remove_miner_def hm_get_remove)

text \<open>Authorizing under a name in use resets its counters.\<close>

lemma second_authorization_resets:
  assumes "check_room p = Inr ()"
  shows "hm_get (xp_miners (snd (add_miner now mid p))) mid =
    Some \<lparr>mi_shares = 0, mi_accepted = 0, mi_rejected = 0, mi_connected_at = now\<rparr>"
  using assms by (simp add: add_miner_def insert_miner_def hm_get_insert)

text \<open>Every submission with a nonce other than zero is a valid share and a block.\<close>

lemma every_nonce_is_a_block:
  assumes "xc_authorized c" and "as_array (json_index request ''params'') = Some params" and "5 \<le> length params"
    and "as_str (params ! 4) = Some n" and "parse_u64 16 n = Some v" and "v \<noteq> 0"
    and "add_share b (xc_miner_id c) True p = Some p'"
  shows "example_submit b c p i request = Some (response i (JBool True) JNull, add_block p')"
  using assms by (simp add: example_submit_def example_validate_share_def word_gt_0)

end
