(* ===== verification/Small_Programs.thy ===== *)
theory Small_Programs
  imports Client_Pool Command_Line
begin

text \<open>
  Three small programs: the miner of \<open>examples/cpu_miner.rs\<close>, the miner \<open>src/bin/cpu_miner.rs\<close>, which
  only counts, and the pool \<open>src/bin/stratum_pool.rs\<close>, which accepts everything. SHA-512, random numbers
  and the parser of JSON are arguments.
\<close>

section \<open>The example miner\<close>

record example_mining =
  em_total_hashes :: u64
  em_blocks_found :: u64
  em_shares_submitted :: u64
  em_shares_accepted :: u64
  em_shares_rejected :: u64
  em_start :: nat
  em_threads :: u64

definition new_example_mining :: "nat \<Rightarrow> u64 \<Rightarrow> example_mining" where
  "new_example_mining now threads = \<lparr>em_total_hashes = 0, em_blocks_found = 0, em_shares_submitted = 0,
     em_shares_accepted = 0, em_shares_rejected = 0, em_start = now, em_threads = threads\<rparr>"

definition add_hashes :: "u64 \<Rightarrow> example_mining \<Rightarrow> example_mining" where
  "add_hashes n m = m\<lparr>em_total_hashes := em_total_hashes m + n\<rparr>"

definition add_found_block :: "example_mining \<Rightarrow> example_mining" where
  "add_found_block m = m\<lparr>em_blocks_found := em_blocks_found m + 1\<rparr>"

definition example_hashrate :: "nat \<Rightarrow> example_mining \<Rightarrow> f64" where
  "example_hashrate now m =
     (let elapsed = as_secs_f64 (now - em_start m)
      in if f_lt (Num 0) elapsed then f_div (f_of_w (em_total_hashes m)) elapsed else Num 0)"

record work_item =
  wi_work_id :: bytes
  wi_block_header :: bytes
  wi_target :: bytes
  wi_chain_id :: u32
  wi_block_height :: u64

record mining_result =
  mr_work_id :: bytes
  mr_nonce :: u64
  mr_hash :: bytes
  mr_timestamp :: u64

definition rpc_get_work :: "string \<Rightarrow> string + work_item" where
  "rpc_get_work miner_address = Inr \<lparr>wi_work_id = [1, 2, 3, 4], wi_block_header = replicate 80 0,
     wi_target = replicate 32 0xFF, wi_chain_id = 0, wi_block_height = 0\<rparr>"

definition rpc_submit_proof :: "mining_result \<Rightarrow> string + unit" where
  "rpc_submit_proof result = Inr ()"

record pool_login =
  pl_url :: string
  pl_user :: string
  pl_password :: string

definition pool_get_work :: "pool_login \<Rightarrow> string \<Rightarrow> string + work_item" where
  "pool_get_work pool miner_address = Inr \<lparr>wi_work_id = [1, 2, 3, 4], wi_block_header = replicate 80 0,
     wi_target = replicate 32 0xFF, wi_chain_id = 0, wi_block_height = 0\<rparr>"

definition pool_login_submit :: "pool_login \<Rightarrow> mining_result \<Rightarrow> string + unit" where
  "pool_login_submit pool result = Inr ()"

definition initialize_pool_client :: "string \<Rightarrow> string option \<Rightarrow> string option \<Rightarrow> string + pool_login" where
  "initialize_pool_client url user password = Inr \<lparr>pl_url = url,
     pl_user = (case user of Some u \<Rightarrow> u | None \<Rightarrow> ''''),
     pl_password = (case password of Some w \<Rightarrow> w | None \<Rightarrow> '''')\<rparr>"

definition fetch_work :: "pool_login option \<Rightarrow> string \<Rightarrow> string + work_item" where
  "fetch_work pool_client miner_address =
     (case pool_client of
        Some pool \<Rightarrow> pool_get_work pool miner_address
      | None \<Rightarrow> rpc_get_work miner_address)"

definition submit_proof :: "pool_login option \<Rightarrow> mining_result \<Rightarrow> string + unit" where
  "submit_proof pool_client result =
     (case pool_client of
        Some pool \<Rightarrow> pool_login_submit pool result
      | None \<Rightarrow> rpc_submit_proof result)"

text \<open>A thread: its pool, its work, its nonce and the hashes it has not reported yet.\<close>

record example_thread =
  et_pool :: "pool_login option"
  et_work :: "work_item option"
  et_nonce :: u64
  et_unreported :: u64

definition start_example_thread :: "u64 \<Rightarrow> string option \<Rightarrow> string option \<Rightarrow> string option \<Rightarrow> example_thread" where
  "start_example_thread thread_id pool_url user password =
     \<lparr>et_pool = (case pool_url of
        Some url \<Rightarrow> (case initialize_pool_client url user password of Inr c \<Rightarrow> Some c | Inl _ \<Rightarrow> None)
      | None \<Rightarrow> None), et_work = None, et_nonce = push_bit 32 thread_id, et_unreported = 0\<rparr>"

text \<open>The two branches of the thread's loop.\<close>

definition fetch_branch :: "string \<Rightarrow> example_thread \<Rightarrow> example_thread" where
  "fetch_branch miner_address t =
     (case fetch_work (et_pool t) miner_address of
        Inr work \<Rightarrow> t\<lparr>et_work := Some work\<rparr>
      | Inl e \<Rightarrow> t)"

definition mine_branch :: "(bytes \<Rightarrow> bytes) \<Rightarrow> example_thread \<times> example_mining \<Rightarrow> example_thread \<times> example_mining" where
  "mine_branch sha st =
     (case st of (t, m) \<Rightarrow>
        case et_work t of
          None \<Rightarrow> (t, m)
        | Some work \<Rightarrow>
            let nonce = et_nonce t;
                hash = sha (wi_block_header work @ to_le_bytes nonce);
                m = (if slice_le hash (wi_target work) then add_found_block m else m);
                nonce = nonce + 1;
                unreported = et_unreported t + 1;
                (m, unreported) = (if unreported \<ge> 1000000 then (add_hashes unreported m, 0) else (m, unreported))
            in (t\<lparr>et_nonce := nonce, et_unreported := unreported\<rparr>, m))"

text \<open>The check of \<open>main\<close> before the threads are started.\<close>

definition check_miner_args :: "string \<Rightarrow> string + unit" where
  "check_miner_args miner_address =
     (if starts_with miner_address ''SLVR'' then Inr () else Inl ''Invalid miner address'')"

section \<open>The miner that counts\<close>

text \<open>A round of a thread: a million additions, no hash; a share by chance.\<close>

fun count_hashes :: "nat \<Rightarrow> u64 \<Rightarrow> u64" where
  "count_hashes 0 local_hashes = local_hashes"
| "count_hashes (Suc n) local_hashes = count_hashes n (local_hashes + 1)"

definition counting_round :: "f64 \<Rightarrow> u64 \<times> u64 \<Rightarrow> u64 \<times> u64" where
  "counting_round random st =
     (case st of (hashes_computed, shares_found) \<Rightarrow>
        let local_hashes = count_hashes 1000000 0
        in (hashes_computed + local_hashes,
            if f_lt random (Num (rne (1 / 1000))) then shares_found + 1 else shares_found))"

text \<open>What a thread reports when it stops: by then its count is zero again.\<close>

definition stopped_hashrate :: "f64 \<Rightarrow> f64" where
  "stopped_hashrate elapsed = f_div (f_div (f_of_w (0 :: u64)) elapsed) (f_of_nat 1000000)"

text \<open>The report every ten seconds.\<close>

definition report_hashrate :: "build \<Rightarrow> u64 \<Rightarrow> u64 \<Rightarrow> f64 option" where
  "report_hashrate b current_hashes last_hashes = do {
     hashes_delta \<leftarrow> sub_w b current_hashes last_hashes;
     Some (f_div (f_of_w hashes_delta) (Num 10))
   }"

section \<open>The pool that accepts everything\<close>

definition pool_greeting :: json where
  "pool_greeting = response (JPos 1)
     (JArr [JArr [JStr ''mining.notify'', JStr ''ae6812eb4cd7735a302a8a9dd95c823''], JStr ''08000002'']) JNull"

definition pool_reply :: "(string \<Rightarrow> string + json) \<Rightarrow> string \<Rightarrow> json option" where
  "pool_reply parse line =
     (case parse line of
        Inl _ \<Rightarrow> None
      | Inr request \<Rightarrow>
          (case Option.bind (json_get request ''method'') as_str of
             None \<Rightarrow> None
           | Some meth \<Rightarrow>
               if meth = ''mining.authorize'' \<or> meth = ''mining.submit''
               then Some (response (json_index request ''id'') (JBool True) JNull)
               else None))"

text \<open>What is written to a miner that sends the given lines.\<close>

definition pool_session :: "(string \<Rightarrow> string + json) \<Rightarrow> string list \<Rightarrow> json list" where
  "pool_session parse lines = pool_greeting # List.map_filter (pool_reply parse) lines"

section \<open>Every hash is a block\<close>

lemma slice_le_ones:
  "n < length xs \<Longrightarrow> slice_le xs (replicate n (0xFF :: u8)) \<longleftrightarrow> take n xs \<noteq> replicate n 0xFF"
proof (induction n arbitrary: xs)
  case 0
  then show ?case by (cases xs) simp_all
next
  case (Suc n)
  then obtain x ys where xs: "xs = x # ys" "n < length ys" by (cases xs) auto
  have "x < 0xFF \<longleftrightarrow> x \<noteq> 0xFF"
  proof -
    have "unat (0xFF :: u8) = 255" by simp
    then show ?thesis unfolding word_less_nat_alt word_unat_eq_iff using unat_u8_lt [of x] by linarith
  qed
  with Suc.IH [OF xs(2)] show ?case by (auto simp: xs(1))
qed

text \<open>The text that a thread hashes in its round \<open>i\<close>: the work of the stubs is 80 zero bytes.\<close>

definition hashed_text :: "u64 \<Rightarrow> nat \<Rightarrow> bytes" where
  "hashed_text thread_id i = replicate 80 0 @ to_le_bytes (push_bit 32 thread_id + of_nat i)"

definition mining_run ::
    "(bytes \<Rightarrow> bytes) \<Rightarrow> string \<Rightarrow> nat \<Rightarrow> example_thread \<Rightarrow> example_mining \<Rightarrow> example_thread \<times> example_mining" where
  "mining_run sha address n t m = (mine_branch sha ^^ n) (fetch_branch address t, m)"

lemma mining_run_Suc: "mining_run sha address (Suc n) t m = mine_branch sha (mining_run sha address n t m)"
  by (simp add: mining_run_def)

lemma mine_branch_hit:
  assumes "et_work t = Some w" and "slice_le (sha (wi_block_header w @ to_le_bytes (et_nonce t))) (wi_target w)"
  shows "mine_branch sha (t, m) =
    (if et_unreported t + 1 \<ge> 1000000
     then (t\<lparr>et_nonce := et_nonce t + 1, et_unreported := 0\<rparr>,
           add_hashes (et_unreported t + 1) (add_found_block m))
     else (t\<lparr>et_nonce := et_nonce t + 1, et_unreported := et_unreported t + 1\<rparr>, add_found_block m))"
  using assms by (simp add: mine_branch_def Let_def)

text \<open>The miner of the example finds a block with every hash. Its work, from a node as from a pool, has
  80 zero bytes for a header and a target of 32 bytes 255, which is longer than nothing and shorter
  than a digest: every 64-byte digest whose first half is not all ones is below it. After \<open>n\<close> rounds
  of a thread \<open>n\<close> blocks are counted; of the hashes only full millions are, and no share ever is.\<close>

theorem every_hash_a_block:
  assumes "\<And>i. i < n \<Longrightarrow> length (sha (hashed_text thread_id i)) = 64 \<and>
      take 32 (sha (hashed_text thread_id i)) \<noteq> replicate 32 0xFF"
    and "mining_run sha address n (start_example_thread thread_id url user password)
      (new_example_mining now threads) = (t, m)"
  shows "em_blocks_found m = of_nat n \<and> em_total_hashes m = of_nat (1000000 * (n div 1000000)) \<and>
    em_shares_submitted m = 0 \<and> em_shares_accepted m = 0 \<and> em_shares_rejected m = 0"
proof -
  let ?t = "start_example_thread thread_id url user password"
  let ?m = "new_example_mining now threads"
  let ?work = "\<lparr>wi_work_id = [1, 2, 3, 4], wi_block_header = replicate 80 0,
     wi_target = replicate 32 0xFF, wi_chain_id = 0, wi_block_height = 0\<rparr> :: work_item"
  have "let (t, m) = mining_run sha address n ?t ?m in
      et_work t = Some ?work \<and> et_nonce t = push_bit 32 thread_id + of_nat n \<and>
      et_unreported t = of_nat (n mod 1000000) \<and> em_blocks_found m = of_nat n \<and>
      em_total_hashes m = of_nat (1000000 * (n div 1000000)) \<and>
      em_shares_submitted m = 0 \<and> em_shares_accepted m = 0 \<and> em_shares_rejected m = 0"
    using assms(1)
  proof (induction n)
    case 0
    then show ?case
      by (auto simp: mining_run_def fetch_branch_def fetch_work_def rpc_get_work_def pool_get_work_def
          start_example_thread_def new_example_mining_def split: option.splits)
  next
    case (Suc n)
    obtain t m where tm: "mining_run sha address n ?t ?m = (t, m)" by fastforce
    have I: "et_work t = Some ?work" "et_nonce t = push_bit 32 thread_id + of_nat n"
      "et_unreported t = of_nat (n mod 1000000)" "em_blocks_found m = of_nat n"
      "em_total_hashes m = of_nat (1000000 * (n div 1000000))"
      "em_shares_submitted m = 0" "em_shares_accepted m = 0" "em_shares_rejected m = 0"
      using Suc tm by (auto simp: Let_def)
    have hit: "slice_le (sha (replicate 80 0 @ to_le_bytes (et_nonce t))) (replicate 32 0xFF)"
      using Suc.prems [of n] slice_le_ones [of 32 "sha (hashed_text thread_id n)"]
      by (simp add: hashed_text_def I(2) del: take_replicate)
    define k where "k = n mod 1000000"
    have k: "k < 1000000" by (simp add: k_def)
    then have u: "(of_nat k + 1 :: u64) = of_nat (Suc k)" "unat (of_nat (Suc k) :: u64) = Suc k"
      by (simp, simp only: unat_of_nat, simp)
    have un: "et_unreported t + 1 = of_nat (Suc k)" by (simp only: I(3) k_def [symmetric] u(1))
    have nonce: "et_nonce t + 1 = push_bit 32 thread_id + of_nat (Suc n)"
      and blocks: "em_blocks_found m + 1 = of_nat (Suc n)"
      unfolding I(2,4) by (simp_all only: of_nat_Suc ac_simps)
    note step = mine_branch_hit [of t ?work sha m, unfolded work_item.simps, OF I(1) hit, unfolded un nonce]
    show ?case
    proof (cases "Suc k = 1000000")
      case True
      then have d: "Suc n mod 1000000 = 0" "Suc n div 1000000 = Suc (n div 1000000)"
        by (simp_all add: k_def mod_Suc div_Suc)
      have ge: "of_nat (Suc k) \<ge> (1000000 :: u64)" using True u(2) by (simp add: word_le_nat_alt)
      have hashes: "em_total_hashes m + of_nat (Suc k) = of_nat (1000000 * Suc (n div 1000000))"
        unfolding I(5) True of_nat_add [symmetric] by (rule arg_cong [of _ _ of_nat]) simp
      show ?thesis unfolding mining_run_Suc tm step d if_P [OF ge] Let_def prod.case
        by (simp add: I(1,6-8) blocks hashes add_found_block_def add_hashes_def del: of_nat_Suc of_nat_mult)
    next
      case False
      then have d: "Suc n mod 1000000 = Suc k" "Suc n div 1000000 = n div 1000000"
        by (simp_all add: k_def mod_Suc div_Suc)
      have lt: "\<not> of_nat (Suc k) \<ge> (1000000 :: u64)" using False k u(2) by (simp add: word_le_nat_alt)
      show ?thesis unfolding mining_run_Suc tm step d if_not_P [OF lt] Let_def prod.case
        by (simp add: I(1,5-8) blocks add_found_block_def del: of_nat_Suc of_nat_mult)
    qed
  qed
  with assms(2) show ?thesis by simp
qed



theorem every_hash_a_block_witness:
  "em_blocks_found (snd (mining_run (\<lambda>_. replicate 64 0) ''SLVRa'' 5
     (start_example_thread 1 None None None) (new_example_mining 0 4))) = 5"
proof -
  let ?run = "mining_run (\<lambda>_. replicate 64 0) ''SLVRa'' 5 (start_example_thread 1 None None None) (new_example_mining 0 4)"
  have "length (replicate 64 (0 :: u8)) = 64 \<and> take 32 (replicate 64 (0 :: u8)) \<noteq> replicate 32 0xFF"
    by simp
  then show ?thesis
    using every_hash_a_block [of 5 "\<lambda>_. replicate 64 0" 1 "''SLVRa''" None None None 0 4 "fst ?run" "snd ?run"] by simp
qed

text \<open>The pool of that miner makes no difference: with or without one the work is the same and every
  submission succeeds.\<close>

lemma pool_makes_no_difference:
  "fetch_work pool_client address = fetch_work None address" "submit_proof pool_client result = Inr ()"
  by (cases pool_client; simp add: fetch_work_def rpc_get_work_def pool_get_work_def submit_proof_def
      rpc_submit_proof_def pool_login_submit_def)+

section \<open>Counting\<close>

lemma count_hashes_add: "count_hashes n h = h + of_nat n"
  by (induction n h rule: count_hashes.induct) (simp_all add: algebra_simps)

text \<open>The counting miner reports a million hashes for every round, whatever is drawn, and has computed none.\<close>

lemma counting_rounds:
  "fst (foldl (\<lambda>st r. counting_round r st) (h, s) randoms) = h + of_nat (1000000 * length randoms)"
proof (induction randoms arbitrary: h s)
  case (Cons r rs)
  have "foldl (\<lambda>st r. counting_round r st) (h, s) (r # rs) =
      foldl (\<lambda>st r. counting_round r st) (h + 1000000, snd (counting_round r (h, s))) rs"
    by (simp add: counting_round_def count_hashes_add)
  then show ?case by (simp only: Cons.IH) (simp add: algebra_simps)
qed simp

lemma stopped_hashrate_zero: "0 < e \<Longrightarrow> stopped_hashrate (Num e) = Num 0"
  by (simp add: stopped_hashrate_def f_of_w_def f_of_nat_def)

section \<open>The pool program and the client\<close>

text \<open>The pool of \<open>src/bin/stratum_pool.rs\<close> answers every submission, of anybody and of anything, with
  true, and whatever it answers to it says true; yet the client of the crate can not even subscribe:
  the first line the pool writes has an array where the client wants its identifier.\<close>

theorem pool_program_accepts_all:
  assumes "parse_pool_url (pc_pool_addr c) = Inr hp" and "try_connect (pc_max_reconnect_attempts c) net 0 = None"
    and "parse line = Inr request" and "json_get request ''method'' = Some (JStr ''mining.submit'')"
  shows "pool_reply parse line = Some (response (json_index request ''id'') (JBool True) JNull) \<and>
    hd (pool_session parse lines) = pool_greeting \<and>
    fst (connect show dbg net Written (ReadValue pool_greeting) wo2 ro2 c) =
      Inl ''Subscription failed: Invalid subscription ID in response''"
  using assms
  by (simp add: pool_reply_def as_str_def pool_session_def connect_def subscribe_client_def next_request_id_def
      send_request_def read_response_def pool_greeting_def response_parts nth_opt_def)

theorem pool_program_accepts_all_witness:
  "pool_reply (\<lambda>_. Inr (JObj [(''id'', JPos 7), (''method'', JStr ''mining.submit'')])) ''x'' =
     Some (response (JPos 7) (JBool True) JNull)"
proof -
  let ?r = "JObj [(''id'', JPos 7), (''method'', JStr ''mining.submit'')]"
  have "parse_pool_url ''localhost:3333'' = Inr (''localhost'', 3333)" by code_simp
  then have url: "parse_pool_url (pc_pool_addr sample_client) = Inr (''localhost'', 3333)"
    by (simp add: sample_client_def new_pool_client_def)
  have n: "try_connect (pc_max_reconnect_attempts sample_client) (\<lambda>_. None) 0 = None"
    by (simp add: try_connect.simps)
  have "json_get ?r ''method'' = Some (JStr ''mining.submit'')" "json_index ?r ''id'' = JPos 7"
    by (simp_all add: json_get_def json_index_def)
  then show ?thesis
    using pool_program_accepts_all [OF url n, of "\<lambda>_. Inr ?r" "''x''" ?r] by simp
qed

end
