(* ===== verification/Spec2Isabelle.thy ===== *)
theory Spec2Isabelle
  imports Difficulty_Manager Reward_Distribution Consensus Transaction_Engine Block_Submission Lock_Programs
    Lock_Conflicts Concurrent_Submission Node_Blocks Http_Work Pool_Miner Node_Life Example_Pool Small_Programs
begin

text \<open>
  A model of \<open>silver-pow\<close>, the proof-of-work crate of SilverBitcoin, and of what makes it correct.
  Paths are relative to the repository; \<open>src/x.rs\<close> stands for \<open>src/src/x.rs\<close>.

  \<^bold>\<open>The program and its parts.\<close> A chain's work is described by a work package (\<open>work.rs\<close>) or a block
  header (\<open>block_validator.rs\<close>). The miner (\<open>miner.rs\<close>) looks for a nonce whose SHA-512 digest is below
  a target and submits its finds to the in-process pool (\<open>mining_pool.rs\<close>), which records shares and
  pays its miners. The consensus engine (\<open>consensus.rs\<close>) holds the state of every chain, owns a pool, a
  difficulty adjustment manager (\<open>difficulty_adjustment.rs\<close>, around the calculator of
  \<open>difficulty.rs\<close>) and a reward manager (\<open>reward_distribution.rs\<close>, around the calculator of
  \<open>rewards.rs\<close>), and appends submitted blocks. Transactions, accounts and unspent outputs are the
  engine of \<open>transaction_engine.rs\<close>. Blocks are encoded by \<open>block_builder.rs\<close> and sent to a node by
  \<open>block_submission.rs\<close>. Beside this in-process part there is a network part: the stratum pool
  (\<open>stratum_pool.rs\<close>: a state shared by its connections, the protocol of a connection, a small HTTP
  server for new work), another stratum server (\<open>stratum.rs\<close>), a client (\<open>stratum_client.rs\<close>) and a
  WebSocket server for events (\<open>websocket_server.rs\<close>). Programs put the parts together: two
  nodes, miners and pools under \<open>src/bin/\<close> and \<open>examples/\<close>.

  \<^bold>\<open>Conventions.\<close> A \<open>struct\<close> is a \<open>record\<close> whose field names carry a prefix of their own, an \<open>enum\<close> a
  \<open>datatype\<close>. \<open>u32\<close>, \<open>u64\<close>, \<open>u128\<close> and \<open>usize\<close> are words of that width, \<open>f64\<close> is modelled in
  \<open>Float64\<close>. A function that can panic returns an option, \<open>None\<close> being the panic; a \<open>Result\<close> is a sum
  whose left side is the error, with the exact message where the code has one. Arithmetic that
  overflows takes the \<open>build\<close> as an argument: in \<open>Debug\<close> it panics, in \<open>Release\<close> it wraps. A
  \<open>HashMap\<close> is an association list with distinct keys (\<open>Hash_Map\<close>): where the code iterates over a map
  the order is that of the list, and no theorem rests on it. Strings are their UTF-8 bytes. The clock is
  an argument. A method that changes the state is one step of the component, which is what its locks
  give it; the methods that let go of a lock before they write are also modelled in their parts
  (\<open>submit_block\<close> of the submission handler in \<open>Concurrent_Submission\<close>, \<open>add_miner\<close> in
  \<open>Example_Pool\<close>), and what the locks do to each other is the subject of \<open>Locks\<close>. Two steps are coarser
  than the code: a submitted share (\<open>handle_submit\<close>) is one step, though the code lets go of the work,
  and may wait for the node, between reading the height and counting the share; and a request of the node
  (\<open>node_handle_rpc\<close>) is one step, though the code takes the lock on the state once for the method and
  once more for saving. Log output is left out.

  Code outside the repository is a parameter: the digest (\<open>sha2\<close>), \<open>hex\<close>, \<open>bs58\<close>, the parser and
  printer of \<open>serde_json\<close>, \<open>log2\<close> and \<open>powf\<close> of the C library, \<open>MIST_PER_SLVR\<close> of
  \<open>silver_core\<close>, the replies of the node and the outcomes of the socket operations. What a theorem
  needs of them is a premise of it, with a witness at a concrete function.

  \<^bold>\<open>The theories.\<close>
  \<^item> \<open>Prelude\<close>: integer types, checked and wrapping arithmetic, byte order and slices, decimal and
    hexadecimal formatting. \<open>Encoding\<close>: fixed-width encodings, locale \<open>fixed_encoding\<close>, interpreted
    on \<open>to_le_bytes\<close> and on the block header. \<open>Hash_Map\<close>: locale \<open>hash_map\<close>, interpreted on the
    association lists of the model. \<open>Float64\<close>: values of \<open>f64\<close> as exact numbers with the rounding of
    the conversions and operations used. \<open>Json\<close>: values of \<open>serde_json\<close>, their accessors, requests.
    \<open>Schedule\<close>: locales \<open>schedule\<close> (an event at every multiple of an interval) and \<open>halving_reward\<close>,
    interpreted on the reward calculator, the reward manager and the difficulty manager.
    \<open>Locks\<close>: reader-writer locks as a step relation and locale \<open>ranked_locks\<close>: operations that take
    their locks in the order of a rank never deadlock and always finish.
  \<^item> \<open>Pow_Config\<close> (\<open>lib.rs\<close>): \<open>PowError\<close> and \<open>PowConfig\<close>.
  \<^item> \<open>Difficulty\<close> (\<open>difficulty.rs\<close>) and \<open>Difficulty_Manager\<close> (\<open>difficulty_adjustment.rs\<close>): ranges and
    limits of the adjustments, where the floating-point version leaves them, and that the stateful
    manager agrees with the calculator.
  \<^item> \<open>Rewards\<close> (\<open>rewards.rs\<close>) and \<open>Reward_Distribution\<close> (\<open>reward_distribution.rs\<close>): the halving
    schedule and the bound of the issuance; the ledger invariant and payouts as a refinement of an
    abstract withdrawal.
  \<^item> \<open>Work\<close> (\<open>work.rs\<close>), \<open>Block_Validator\<close> (\<open>block_validator.rs\<close>), \<open>Miner\<close> (\<open>miner.rs\<close>): targets,
    proofs, the validator's exact acceptance condition, and the miner's search. \<open>Miner\<close> runs the
    mining loop with fuel, one unit for a nonce: \<open>mining_finds_first\<close> says how much is enough.
  \<^item> \<open>Mining_Pool\<close> (\<open>mining_pool.rs\<close>) and \<open>Consensus\<close> (\<open>consensus.rs\<close>): invariants of the reachable
    states of the pool and of the chains.
  \<^item> \<open>Utxo_Set\<close>, \<open>Transactions\<close>, \<open>Transaction_Engine\<close> (\<open>transaction_engine.rs\<close>): the index of
    outputs by address, the validation, accounts and execution with the conservation of money.
  \<^item> \<open>Block_Builder\<close> (\<open>block_builder.rs\<close>), \<open>Block_Submission\<close> (\<open>block_submission.rs\<close>) and \<open>Node_Blocks\<close>
    (the two components that send blocks to the node, against the parser they share): encodings,
    and what becomes of them at the node.
    \<open>Concurrent_Submission\<close>: \<open>submit_block\<close> with the points where it is suspended, each part with its own
    clock reading (the operation of \<open>Block_Submission\<close> is a run of its parts with one reading); the chain
    of accepted blocks where submissions do not overlap, and what they keep and lose of it where they do.
  \<^item> \<open>Lock_Programs\<close>, \<open>Network_Locks\<close>, \<open>Lock_Conflicts\<close>: the locks that the operations take, in order:
    eight components whose operations always finish, four with operations that can deadlock, and a proof
    that each of these deadlocks needs both sides of its conflict.
  \<^item> \<open>U512\<close>, \<open>Stratum_Pool\<close>, \<open>Stratum_Session\<close>, \<open>Http_Work\<close> (\<open>stratum_pool.rs\<close>): the 512-bit
    arithmetic, \<open>PoolState\<close>, the protocol of a connection as a step relation over a pool and all its
    connections, and the replacement of the work over HTTP.
  \<^item> \<open>Stratum_Server\<close> (\<open>stratum.rs\<close>): admission with the limit on connections and on addresses, the
    protocol, and broadcasts, as a step relation \<open>system_step\<close>.
  \<^item> \<open>Stratum_Client\<close> (\<open>stratum_client.rs\<close>) and \<open>Client_Pool\<close>: the client's states against its socket,
    and the client composed with the pool and with the stratum server of the crate.
  \<^item> \<open>Websocket\<close> (\<open>websocket_server.rs\<close>): one connection against the broadcast channel, as a refinement
    of an abstract delivery of the events a client is subscribed to, which states what an unsubscription
    from an address ends in the code and by the contract.
  \<^item> \<open>Pool_Miner\<close> (\<open>src/bin/cpu_miner_real.rs\<close>): the miner program on top of the client, composed with the
    pool: what becomes of the hashes it finds, its ranges of nonces, its attempts to connect.
  \<^item> \<open>Command_Line\<close> (\<open>src/bin/*.rs\<close>): the argument loops of four programs, locale \<open>command_line\<close>,
    interpreted on each. \<open>Node\<close> (\<open>src/bin/node.rs\<close>, \<open>node_production.rs\<close>): loading and saving the
    state of the chain, requests, the shutdown sequence, over a key-value store. \<open>Node_Life\<close>: a process
    from its start to its end by a signal, an error or the server, and what it hands on.
  \<^item> \<open>Example_Pool\<close> (\<open>examples/mining_pool.rs\<close>): a pool and its connections; its limit on miners under
    concurrent authorizations. \<open>Small_Programs\<close> (\<open>examples/cpu_miner.rs\<close>, \<open>src/bin/cpu_miner.rs\<close>,
    \<open>src/bin/stratum_pool.rs\<close>).

  \<^bold>\<open>Loops and fuel.\<close> A loop over a list is a structural recursion. The loop of the miner is the only one
  in the library that stops for an external reason; it takes fuel, and the theorems about it say for which
  fuel it returns. Loops that serve a connection for ever are step relations or recursion over what
  the peer sends, one round of the code a step.

  \<^bold>\<open>Not modelled.\<close> Sockets, HTTP transport and the async runtime beyond the values they return (a lock
  program does not say how long a task that holds a lock waits for a socket or for the node); log and
  progress output; the serialisers that \<open>serde\<close> derives; the accessors that only clone a field of a record;
  \<open>tests/\<close>, \<open>benches/\<close> and the test modules. Every component is listed in the manifest with what is left
  out of it.
\<close>

end
